(* ===== verification/Prelude.thy ===== *)
theory Prelude
  imports Main "HOL-Library.Word"
begin

text \<open>
  The shared ground of the development: the machine types of the Rust sources, the
  result of a Rust computation (a value, an error or a panic), actions that read and
  write a state and may fail, big-endian byte encodings of words, and the collections
  of facts that the component theories extend.
\<close>

unbundle bit_operations_syntax

section \<open>Machine types\<close>

text \<open>
  Signed and unsigned integers of one width share a word type; a signed reading is
  taken with \<open>sint\<close>. Floating-point values are their IEEE bit patterns: the sources
  only move them between the wire and a \<open>Value\<close>. \<open>usize\<close> is a natural number;
  the target is 64-bit, so every buffer is shorter than \<open>2 ^ 63\<close> bytes and the sums
  of positions and counts that the code forms do not wrap.
\<close>

type_synonym u8 = "8 word"
type_synonym u16 = "16 word"
type_synonym u32 = "32 word"
type_synonym u64 = "64 word"
type_synonym i16 = "16 word"
type_synonym i32 = "32 word"
type_synonym i64 = "64 word"
type_synonym f32 = "32 word"
type_synonym f64 = "64 word"
type_synonym usize = nat
type_synonym bytes = "8 word list"

definition isize_MAX :: nat where
  "isize_MAX = 2 ^ 63 - 1"

text \<open>
  The casts of the sources: \<open>x as usize\<close> from \<open>i32\<close> sign-extends to 64 bits and
  reads the result as unsigned, \<open>n as i32\<close> and \<open>n as u32\<close> from \<open>usize\<close> truncate.
\<close>

definition i32_as_usize :: "i32 \<Rightarrow> usize" where
  "i32_as_usize w = unat (scast w :: 64 word)"

definition usize_as_i32 :: "usize \<Rightarrow> i32" where
  "usize_as_i32 n = word_of_nat n"

definition usize_as_u32 :: "usize \<Rightarrow> u32" where
  "usize_as_u32 n = word_of_nat n"

definition i32_as_u64 :: "i32 \<Rightarrow> u64" where
  "i32_as_u64 w = scast w"

section \<open>Results, panics and actions\<close>

datatype panic = Capacity_Overflow | Index_Out_Of_Bounds | Slice_Out_Of_Bounds | Unwrap_Failed

datatype 'e fault = Err 'e | Panic panic

type_synonym ('e, 'a) outcome = "'e fault + 'a"

text \<open>
  A function with a \<open>&mut\<close> argument that returns a \<open>Result\<close> becomes an action: it
  takes the state and returns the outcome with the state as it was left, also when the
  outcome is an error or a panic. \<open>and_then\<close> is the \<open>?\<close> operator followed by the rest
  of the function body.
\<close>

type_synonym ('s, 'e, 'a) action = "'s \<Rightarrow> ('e, 'a) outcome \<times> 's"

definition ok :: "'a \<Rightarrow> ('s, 'e, 'a) action" where
  "ok x s = (Inr x, s)"

definition throw :: "'e \<Rightarrow> ('s, 'e, 'a) action" where
  "throw e s = (Inl (Err e), s)"

definition panic :: "panic \<Rightarrow> ('s, 'e, 'a) action" where
  "panic p s = (Inl (Panic p), s)"

definition and_then :: "('s, 'e, 'a) action \<Rightarrow> ('a \<Rightarrow> ('s, 'e, 'b) action) \<Rightarrow> ('s, 'e, 'b) action" where
  "and_then m f s = (case m s of (Inl e, s') \<Rightarrow> (Inl e, s') | (Inr x, s') \<Rightarrow> f x s')"

fun map_fault :: "('e \<Rightarrow> 'f) \<Rightarrow> 'e fault \<Rightarrow> 'f fault" where
  "map_fault f (Err e) = Err (f e)"
| "map_fault f (Panic p) = Panic p"

text \<open>\<open>map_err\<close> is the conversion of the error that \<open>?\<close> makes through \<open>From\<close>.\<close>

fun map_err :: "('e \<Rightarrow> 'f) \<Rightarrow> ('e, 'a) outcome \<Rightarrow> ('f, 'a) outcome" where
  "map_err f (Inl e) = Inl (map_fault f e)"
| "map_err f (Inr x) = Inr x"

text \<open>\<open>for _ in 0..n { v.push(m?) }\<close>\<close>

primrec times_do :: "nat \<Rightarrow> ('s, 'e, 'a) action \<Rightarrow> ('s, 'e, 'a list) action" where
  "times_do 0 m = ok []"
| "times_do (Suc n) m = and_then m (\<lambda>x. and_then (times_do n m) (\<lambda>xs. ok (x # xs)))"

text \<open>\<open>for x in xs { v.push(f(x)?) }\<close>\<close>

primrec map_do :: "('b \<Rightarrow> ('s, 'e, 'a) action) \<Rightarrow> 'b list \<Rightarrow> ('s, 'e, 'a list) action" where
  "map_do f [] = ok []"
| "map_do f (y # ys) = and_then (f y) (\<lambda>x. and_then (map_do f ys) (\<lambda>xs. ok (x # xs)))"

text \<open>
  \<open>Vec::with_capacity(n)\<close> panics when the byte size of \<open>n\<close> elements exceeds
  \<open>isize::MAX\<close>. The sources call it with \<open>count as usize\<close> for an \<open>i32\<close> count, which
  is below \<open>2 ^ 31\<close> or at least \<open>2 ^ 64 - 2 ^ 31\<close>: for every element size between one
  byte and \<open>2 ^ 32\<close> bytes the panic happens exactly when \<open>n\<close> itself is too large.
\<close>

definition vec_with_capacity :: "usize \<Rightarrow> ('s, 'e, unit) action" where
  "vec_with_capacity n = (if n > isize_MAX then panic Capacity_Overflow else ok ())"

lemma and_then_simps [simp]:
  "and_then (ok x) f = f x"
  "and_then (throw e) f = throw e"
  "and_then (panic p) f = panic p"
  "and_then m ok = m"
  by (auto simp: fun_eq_iff and_then_def ok_def throw_def panic_def split: prod.splits sum.splits)

lemma and_then_assoc: "and_then (and_then m f) g = and_then m (\<lambda>x. and_then (f x) g)"
  by (auto simp: fun_eq_iff and_then_def split: prod.splits sum.splits)

lemma ok_apply [simp]: "ok x s = (Inr x, s)"
  and throw_apply [simp]: "throw e s = (Inl (Err e), s)"
  and panic_apply [simp]: "panic p s = (Inl (Panic p), s)"
  by (simp_all add: ok_def throw_def panic_def)

lemma and_then_Inr: "m s = (Inr x, s') \<Longrightarrow> and_then m f s = f x s'"
  and and_then_Inl: "m s = (Inl e, s') \<Longrightarrow> and_then m f s = (Inl e, s')"
  by (simp_all add: and_then_def)

lemma and_then_eq_InrE:
  assumes "and_then m f s = (Inr y, s'')"
  obtains x s' where "m s = (Inr x, s')" and "f x s' = (Inr y, s'')"
  using assms by (auto simp: and_then_def split: prod.splits sum.splits)

section \<open>Signed readings\<close>

lemma sint_i32_bounds: "- (2 ^ 31) \<le> sint (w :: i32)" "sint (w :: i32) < 2 ^ 31"
  using sint_ge [of w] sint_lt [of w] by simp_all

lemma unat_scast_i32: "unat (scast (w :: i32) :: 64 word) = nat (sint w mod 2 ^ 64)"
proof -
  have u: "uint (scast w :: 64 word) = sint w mod 2 ^ 64"
    by (simp only: scast_eq unsigned_of_int take_bit_eq_mod len_num1) simp
  from arg_cong [OF u, of nat] show ?thesis by (simp only: nat_uint_eq)
qed

lemma i32_as_usize_nonneg: "0 \<le> sint w \<Longrightarrow> i32_as_usize w = nat (sint w)"
  using sint_i32_bounds [of w] by (simp add: i32_as_usize_def unat_scast_i32)

lemma i32_as_usize_neg: "sint w < 0 \<Longrightarrow> 2 ^ 64 - 2 ^ 31 \<le> i32_as_usize w"
proof -
  assume neg: "sint w < 0"
  have "sint w mod 2 ^ 64 = (sint w + 2 ^ 64) mod 2 ^ 64" by simp
  also have "\<dots> = sint w + 2 ^ 64"
    using neg sint_i32_bounds [of w] by (intro mod_pos_pos_trivial) simp_all
  finally have "i32_as_usize w = nat (sint w + 2 ^ 64)"
    by (simp add: i32_as_usize_def unat_scast_i32)
  with sint_i32_bounds [of w] show ?thesis by simp
qed

lemma sint_usize_as_i32: "n < 2 ^ 31 \<Longrightarrow> sint (usize_as_i32 n) = int n"
  by (simp add: usize_as_i32_def signed_of_nat signed_take_bit_int_eq_self)

lemma i32_as_usize_as_i32: "n < 2 ^ 31 \<Longrightarrow> i32_as_usize (usize_as_i32 n) = n"
  by (simp add: i32_as_usize_nonneg sint_usize_as_i32)

section \<open>Byte strings and big-endian words\<close>

text \<open>The bytes of a string literal: Rust writes it \<open>"..."\<close> or \<open>b"..."\<close>.\<close>

definition bytes_of :: "string \<Rightarrow> bytes" where
  "bytes_of s = map of_char s"

text \<open>\<open>to_be_bytes\<close> and \<open>from_be_bytes\<close>, for the \<open>n\<close> bytes of the type.\<close>

primrec be_bytes :: "nat \<Rightarrow> 'a::len word \<Rightarrow> bytes" where
  "be_bytes 0 w = []"
| "be_bytes (Suc n) w = be_bytes n (drop_bit 8 w) @ [ucast w]"

definition be_word :: "bytes \<Rightarrow> 'a::len word" where
  "be_word bs = foldl (\<lambda>acc b. push_bit 8 acc OR ucast b) 0 bs"

lemma length_be_bytes [simp]: "length (be_bytes n w) = n"
  by (induction n arbitrary: w) simp_all

lemma be_bytes_eq_Nil [simp]: "be_bytes n w = [] \<longleftrightarrow> n = 0"
  by (cases n) simp_all

lemma be_word_snoc: "be_word (bs @ [b]) = push_bit 8 (be_word bs) OR ucast b"
  by (simp add: be_word_def)

lemma not_bit_u8: "\<not> bit (b :: u8) (8 + n)"
  using bit_imp_le_length [of b "8 + n"] by auto

lemma be_word_be_bytes: "be_word (be_bytes n w) = take_bit (8 * n) w"
proof (induction n arbitrary: w)
  case 0
  then show ?case by (simp add: be_word_def)
next
  case (Suc n)
  then show ?case
    by (simp add: be_word_snoc) (rule bit_word_eqI, auto simp: bit_simps)
qed

lemma be_bytes_cong: "take_bit (8 * n) v = take_bit (8 * n) w \<Longrightarrow> be_bytes n v = be_bytes n w"
proof (induction n arbitrary: v w)
  case 0
  then show ?case by simp
next
  case (Suc n)
  have bits: "bit v i = bit w i" if "i < 8 * Suc n" for i
    using arg_cong [OF Suc.prems, of "\<lambda>x. bit x i"] that by (simp add: bit_simps)
  have hi: "take_bit (8 * n) (drop_bit 8 v) = take_bit (8 * n) (drop_bit 8 w)"
    by (rule bit_word_eqI) (auto simp: bit_simps bits)
  have lo: "(ucast v :: u8) = ucast w"
  proof (rule bit_word_eqI)
    fix i
    assume "i < LENGTH(8)"
    then have "i < 8 * Suc n" by simp
    then have "bit v i = bit w i" by (rule bits)
    then show "bit (ucast v :: u8) i = bit (ucast w :: u8) i"
      by (simp only: bit_unsigned_iff)
  qed
  show ?case by (simp only: be_bytes.simps Suc.IH [OF hi] lo)
qed

lemma be_bytes_be_word:
  "length bs = n \<Longrightarrow> 8 * n \<le> LENGTH('a) \<Longrightarrow> be_bytes n (be_word bs :: 'a::len word) = bs"
proof (induction bs arbitrary: n rule: rev_induct)
  case Nil
  then show ?case by simp
next
  case (snoc b bs)
  let ?w = "push_bit 8 (be_word bs :: 'a word) OR ucast b"
  obtain m where m: "n = Suc m" "length bs = m" using snoc.prems by (cases n) auto
  have "ucast ?w = b"
    using snoc.prems m by (intro bit_word_eqI) (auto simp: bit_simps)
  moreover have "take_bit (8 * m) (drop_bit 8 ?w) = take_bit (8 * m) (be_word bs :: 'a word)"
    using snoc.prems m by (intro bit_word_eqI) (auto simp: bit_simps not_bit_u8)
  then have "be_bytes m (drop_bit 8 ?w) = bs"
    using snoc m by (metis be_bytes_cong Suc_leD add_leE mult_Suc_right)
  ultimately show ?case by (simp add: m be_word_snoc)
qed

text \<open>The two directions at the widths of the sources.\<close>

lemma be_word_be_bytes_width [simp]:
  "be_word (be_bytes 2 w) = (w :: 16 word)"
  "be_word (be_bytes 4 v) = (v :: 32 word)"
  "be_word (be_bytes 8 u) = (u :: 64 word)"
  by (simp_all add: be_word_be_bytes take_bit_word_eq_self)

lemma be_bytes_inject:
  "be_bytes 2 w = be_bytes 2 (w' :: 16 word) \<longleftrightarrow> w = w'"
  "be_bytes 4 v = be_bytes 4 (v' :: 32 word) \<longleftrightarrow> v = v'"
  "be_bytes 8 u = be_bytes 8 (u' :: 64 word) \<longleftrightarrow> u = u'"
  by (metis be_word_be_bytes_width(1)) (metis be_word_be_bytes_width(2), metis be_word_be_bytes_width(3))

lemma length_bytes_of [simp]: "length (bytes_of s) = length s"
  by (simp add: bytes_of_def)

end
