(* ===== verification/Rust_Std.thy ===== *)
theory Rust_Std
  imports Prelude
begin

text \<open>
  What the sources use of Rust's standard library on text: UTF-8 validation with its
  error value and message, the split of a string into characters, searching and
  splitting at an ASCII byte, integer formatting with zero padding, and integer
  parsing. A Rust string is the list of its UTF-8 bytes.
\<close>

section \<open>UTF-8\<close>

text \<open>
  \<open>Utf8Error\<close>: the length of the longest valid prefix and the number of bytes to skip,
  \<open>None\<close> when the input ends inside a character. The check follows
  \<open>core::str::from_utf8\<close> byte by byte.
\<close>

record utf8_error =
  valid_up_to :: nat
  error_len :: "nat option"

definition utf8_char_width :: "u8 \<Rightarrow> nat" where
  "utf8_char_width b =
     (if b < 0x80 then 1 else if b < 0xC2 then 0 else if b < 0xE0 then 2
      else if b < 0xF0 then 3 else if b < 0xF5 then 4 else 0)"

definition is_cont :: "u8 \<Rightarrow> bool" where
  "is_cont b \<longleftrightarrow> 0x80 \<le> b \<and> b \<le> 0xBF"

definition second_of_3 :: "u8 \<Rightarrow> u8 \<Rightarrow> bool" where
  "second_of_3 b c \<longleftrightarrow>
     (b = 0xE0 \<and> 0xA0 \<le> c \<and> c \<le> 0xBF) \<or> (0xE1 \<le> b \<and> b \<le> 0xEC \<and> is_cont c)
     \<or> (b = 0xED \<and> 0x80 \<le> c \<and> c \<le> 0x9F) \<or> (0xEE \<le> b \<and> b \<le> 0xEF \<and> is_cont c)"

definition second_of_4 :: "u8 \<Rightarrow> u8 \<Rightarrow> bool" where
  "second_of_4 b c \<longleftrightarrow>
     (b = 0xF0 \<and> 0x90 \<le> c \<and> c \<le> 0xBF) \<or> (0xF1 \<le> b \<and> b \<le> 0xF3 \<and> is_cont c)
     \<or> (b = 0xF4 \<and> 0x80 \<le> c \<and> c \<le> 0x8F)"

text \<open>
  The bytes after a lead byte: \<open>Inl\<close> the error length, or \<open>Inr\<close> how many
  continuation bytes the character has.
\<close>

fun utf8_tail :: "u8 \<Rightarrow> bytes \<Rightarrow> nat option + nat" where
  "utf8_tail b bs =
     (if utf8_char_width b = 1 then Inr 0
      else if utf8_char_width b = 2 then
        (case bs of [] \<Rightarrow> Inl None | c # _ \<Rightarrow> if is_cont c then Inr 1 else Inl (Some 1))
      else if utf8_char_width b = 3 then
        (case bs of [] \<Rightarrow> Inl None
         | c # cs \<Rightarrow> if \<not> second_of_3 b c then Inl (Some 1)
             else (case cs of [] \<Rightarrow> Inl None
                   | d # _ \<Rightarrow> if is_cont d then Inr 2 else Inl (Some 2)))
      else if utf8_char_width b = 4 then
        (case bs of [] \<Rightarrow> Inl None
         | c # cs \<Rightarrow> if \<not> second_of_4 b c then Inl (Some 1)
             else (case cs of [] \<Rightarrow> Inl None
                   | d # ds \<Rightarrow> if \<not> is_cont d then Inl (Some 2)
                       else (case ds of [] \<Rightarrow> Inl None
                             | e # _ \<Rightarrow> if is_cont e then Inr 3 else Inl (Some 3))))
      else Inl (Some 1))"

declare utf8_tail.simps [simp del]

fun utf8_check :: "nat \<Rightarrow> bytes \<Rightarrow> utf8_error option" where
  "utf8_check i [] = None"
| "utf8_check i (b # bs) =
     (case utf8_tail b bs of
        Inl l \<Rightarrow> Some \<lparr>valid_up_to = i, error_len = l\<rparr>
      | Inr k \<Rightarrow> utf8_check (i + 1 + k) (drop k bs))"

definition from_utf8 :: "bytes \<Rightarrow> utf8_error + bytes" where
  "from_utf8 bs = (case utf8_check 0 bs of None \<Rightarrow> Inr bs | Some e \<Rightarrow> Inl e)"

abbreviation utf8_valid :: "bytes \<Rightarrow> bool" where
  "utf8_valid bs \<equiv> utf8_check 0 bs = None"

lemma utf8_check_shift: "utf8_check i bs = None \<longleftrightarrow> utf8_valid bs"
proof (induction bs arbitrary: i rule: length_induct)
  case (1 bs)
  show ?case
  proof (cases bs)
    case Nil
    then show ?thesis by simp
  next
    case (Cons b bs')
    show ?thesis
    proof (cases "utf8_tail b bs'")
      case (Inl l)
      then show ?thesis by (simp add: Cons)
    next
      case (Inr k)
      have "length (drop k bs') < length bs" by (simp add: Cons)
      then have "utf8_check j (drop k bs') = None \<longleftrightarrow> utf8_valid (drop k bs')" for j
        using "1" by blast
      from this [of "i + 1 + k"] this [of "1 + k"] show ?thesis by (simp add: Cons Inr)
    qed
  qed
qed

lemmas utf8_check_Suc = utf8_check_shift [of "Suc j" for j]

lemma utf8_tail_length: "utf8_tail b bs = Inr k \<Longrightarrow> k \<le> length bs"
  by (auto simp: utf8_tail.simps split: if_splits list.splits)

lemma utf8_tail_append: "utf8_tail b bs = Inr k \<Longrightarrow> utf8_tail b (bs @ cs) = Inr k"
  by (auto simp: utf8_tail.simps split: if_splits list.splits)

text \<open>Validity is compositional: a valid prefix leaves the rest to be checked on its own.\<close>

lemma utf8_valid_append: "utf8_valid bs \<Longrightarrow> utf8_valid (bs @ cs) \<longleftrightarrow> utf8_valid cs"
proof (induction bs rule: length_induct)
  case (1 bs)
  show ?case
  proof (cases bs)
    case Nil
    then show ?thesis by simp
  next
    case (Cons b bs')
    with "1.prems" obtain k where k: "utf8_tail b bs' = Inr k"
      by (cases "utf8_tail b bs'") auto
    have le: "k \<le> length bs'" by (rule utf8_tail_length [OF k])
    have v: "utf8_valid (drop k bs')"
      using "1.prems" by (simp add: Cons k utf8_check_Suc)
    have "length (drop k bs') < length bs" by (simp add: Cons)
    with v "1.IH" have "utf8_valid (drop k bs' @ cs) \<longleftrightarrow> utf8_valid cs" by blast
    then show ?thesis
      by (simp add: Cons utf8_tail_append [OF k] le utf8_check_Suc)
  qed
qed

lemma utf8_tail_ascii: "b < 0x80 \<Longrightarrow> utf8_tail b bs = Inr 0"
  by (simp add: utf8_tail.simps utf8_char_width_def)

lemma utf8_valid_ascii: "\<forall>b \<in> set bs. b < 0x80 \<Longrightarrow> utf8_valid bs"
  by (induction bs) (auto simp: utf8_tail_ascii utf8_check_Suc)

text \<open>A zero byte is a character of its own, so zeros at the end can be taken off.\<close>

lemma zero_no_cont: "\<not> is_cont 0" "\<not> second_of_3 b 0" "\<not> second_of_4 b 0"
  by (auto simp: is_cont_def second_of_3_def second_of_4_def)

lemma utf8_tail_zero: "utf8_tail b (bs @ [0]) = Inr k \<Longrightarrow> utf8_tail b bs = Inr k"
  by (cases bs; cases "tl bs"; cases "tl (tl bs)")
    (auto simp: utf8_tail.simps zero_no_cont split: if_splits list.splits)

lemma utf8_valid_zero: "utf8_valid (bs @ [0]) \<Longrightarrow> utf8_valid bs"
proof (induction bs rule: length_induct)
  case (1 bs)
  show ?case
  proof (cases bs)
    case Nil
    then show ?thesis by simp
  next
    case (Cons b bs')
    with "1.prems" obtain k where k: "utf8_tail b (bs' @ [0]) = Inr k"
      by (cases "utf8_tail b (bs' @ [0])") auto
    note t = utf8_tail_zero [OF k]
    have "utf8_valid (drop k bs' @ [0])"
      using "1.prems" utf8_tail_length [OF t] by (simp add: Cons k utf8_check_Suc)
    moreover have "length (drop k bs') < length bs" by (simp add: Cons)
    ultimately have "utf8_valid (drop k bs')" using "1.IH" by blast
    with t show ?thesis by (simp add: Cons utf8_check_Suc)
  qed
qed

lemma utf8_valid_zeros: "utf8_valid (bs @ replicate k 0) \<Longrightarrow> utf8_valid bs"
proof (induction k)
  case (Suc k)
  then have "utf8_valid ((bs @ replicate k 0) @ [0])" by (simp add: replicate_append_same)
  from Suc.IH [OF utf8_valid_zero [OF this]] show ?case .
qed simp

text \<open>
  \<open>s.chars()\<close>: each character is represented by its bytes, the lead byte with the
  continuation bytes that follow it.
\<close>

function chars :: "bytes \<Rightarrow> bytes list" where
  "chars [] = []"
| "chars (b # bs) = (b # takeWhile is_cont bs) # chars (dropWhile is_cont bs)"
  by pat_completeness auto
termination
  by (relation "measure length") (auto simp: le_imp_less_Suc length_dropWhile_le)

lemma concat_chars [simp]: "concat (chars s) = s"
  by (induction s rule: chars.induct) simp_all

lemma utf8_tail_cont: "utf8_tail b bs = Inr k \<Longrightarrow> list_all is_cont (take k bs)"
  by (auto simp: utf8_tail.simps second_of_3_def second_of_4_def is_cont_def word_le_nat_alt
      split: if_splits list.splits)

lemma not_cont_lead: "is_cont b \<Longrightarrow> utf8_tail b bs = Inl (Some 1)"
proof -
  assume "is_cont b"
  then have "\<not> b < 0x80" "b < 0xC2" by (auto simp: is_cont_def word_le_nat_alt word_less_nat_alt)
  then show ?thesis by (simp add: utf8_tail.simps utf8_char_width_def)
qed

lemma utf8_valid_hd: "utf8_valid bs \<Longrightarrow> takeWhile is_cont bs = [] \<and> dropWhile is_cont bs = bs"
  by (cases bs) (auto simp: not_cont_lead)

lemma utf8_valid_Cons:
  assumes "utf8_valid (b # bs)"
  shows "\<exists>k. utf8_tail b bs = Inr k \<and> takeWhile is_cont bs = take k bs
    \<and> dropWhile is_cont bs = drop k bs \<and> utf8_valid (drop k bs)"
proof -
  from assms obtain k where k: "utf8_tail b bs = Inr k"
    by (cases "utf8_tail b bs") auto
  with assms have v: "utf8_valid (drop k bs)" by (simp add: utf8_check_Suc)
  have c: "\<forall>x \<in> set (take k bs). is_cont x"
    using utf8_tail_cont [OF k] by (simp add: list_all_iff)
  have "takeWhile is_cont (take k bs @ drop k bs) = take k bs"
    "dropWhile is_cont (take k bs @ drop k bs) = drop k bs"
    using c utf8_valid_hd [OF v] by (simp_all del: append_take_drop_id)
  with k v show ?thesis by simp
qed

lemma chars_quote:
  "utf8_valid s \<Longrightarrow> ch \<in> set (chars s) \<Longrightarrow> b < 0x80 \<Longrightarrow> ch = [b] \<or> b \<notin> set ch"
proof (induction s rule: chars.induct)
  case (2 c bs)
  from utf8_valid_Cons [OF "2.prems"(1)] obtain k where k: "utf8_tail c bs = Inr k"
    "takeWhile is_cont bs = take k bs" "dropWhile is_cont bs = drop k bs" "utf8_valid (drop k bs)"
    by blast
  have "b \<notin> set (take k bs)"
    using utf8_tail_cont [OF k(1)] \<open>b < 0x80\<close> by (auto simp: list_all_iff is_cont_def)
  moreover have "take k bs = []" if "c = b"
    using k(1) utf8_tail_ascii [OF \<open>b < 0x80\<close>] that by simp
  ultimately have "c # take k bs = [b] \<or> b \<notin> set (c # take k bs)" by auto
  with 2 k show ?case by auto
qed simp

text \<open>\<open>string.push(b as char)\<close>: the code point of one byte (Latin-1), encoded as UTF-8.\<close>

definition latin1_char :: "u8 \<Rightarrow> bytes" where
  "latin1_char b = (if b < 0x80 then [b] else [0xC0 OR drop_bit 6 b, 0x80 OR (b AND 0x3F)])"

section \<open>Searching and splitting at an ASCII byte\<close>

fun find_byte :: "u8 \<Rightarrow> bytes \<Rightarrow> nat option" where
  "find_byte c [] = None"
| "find_byte c (b # bs) = (if b = c then Some 0 else map_option Suc (find_byte c bs))"

fun rfind_byte :: "u8 \<Rightarrow> bytes \<Rightarrow> nat option" where
  "rfind_byte c [] = None"
| "rfind_byte c (b # bs) =
     (case rfind_byte c bs of Some i \<Rightarrow> Some (Suc i) | None \<Rightarrow> if b = c then Some 0 else None)"

fun split_byte :: "u8 \<Rightarrow> bytes \<Rightarrow> bytes list" where
  "split_byte c [] = [[]]"
| "split_byte c (b # bs) =
     (if b = c then [] # split_byte c bs
      else (case split_byte c bs of [] \<Rightarrow> [[b]] | p # ps \<Rightarrow> (b # p) # ps))"

definition strip_prefix :: "bytes \<Rightarrow> bytes \<Rightarrow> bytes option" where
  "strip_prefix p s = (if take (length p) s = p then Some (drop (length p) s) else None)"

lemma find_byte_None_iff: "find_byte c s = None \<longleftrightarrow> c \<notin> set s"
  by (induction s) auto

lemma find_byte_append:
  "find_byte c (xs @ c # ys) = Some (length xs)" if "c \<notin> set xs"
  using that by (induction xs) auto

lemma rfind_byte_None_iff: "rfind_byte c s = None \<longleftrightarrow> c \<notin> set s"
  by (induction s) (auto split: option.splits)

lemma rfind_byte_append:
  "rfind_byte c (xs @ c # ys) = Some (length xs)" if "c \<notin> set ys"
  using that by (induction xs) (auto simp: rfind_byte_None_iff [THEN iffD2])

lemma find_byte_less: "find_byte c s = Some i \<Longrightarrow> i < length s \<and> s ! i = c"
  by (induction s arbitrary: i) (auto split: if_splits)

lemma rfind_byte_less: "rfind_byte c s = Some i \<Longrightarrow> i < length s \<and> s ! i = c"
  by (induction s arbitrary: i) (auto split: if_splits option.splits)

lemma split_byte_single: "c \<notin> set s \<Longrightarrow> split_byte c s = [s]"
  by (induction s) auto

lemma split_byte_append: "c \<notin> set xs \<Longrightarrow> split_byte c (xs @ c # ys) = xs # split_byte c ys"
  by (induction xs) auto

lemma strip_prefix_append [simp]: "strip_prefix p (p @ s) = Some s"
  by (simp add: strip_prefix_def)

section \<open>Formatting integers\<close>

fun dec_digits :: "nat \<Rightarrow> bytes" where
  "dec_digits n = (if n < 10 then [word_of_nat (48 + n)]
                   else dec_digits (n div 10) @ [word_of_nat (48 + n mod 10)])"

declare dec_digits.simps [simp del]

definition fmt_int :: "int \<Rightarrow> bytes" where
  "fmt_int k = (if k < 0 then 45 # dec_digits (nat (- k)) else dec_digits (nat k))"

text \<open>\<open>{k:0w}\<close>: the sign, then zeros up to the width (which counts the sign), then the digits.\<close>

definition fmt_int_pad :: "nat \<Rightarrow> int \<Rightarrow> bytes" where
  "fmt_int_pad w k =
     (let sign = (if k < 0 then [45] else []); ds = dec_digits (nat \<bar>k\<bar>)
      in sign @ replicate (w - (length sign + length ds)) 48 @ ds)"

definition hex_digit :: "u8 \<Rightarrow> u8" where
  "hex_digit d = (if d < 10 then 48 + d else 87 + d)"

text \<open>\<open>{b:02x}\<close>\<close>

definition hex2 :: "u8 \<Rightarrow> bytes" where
  "hex2 b = [hex_digit (drop_bit 4 b), hex_digit (b AND 15)]"

section \<open>Parsing integers\<close>

datatype int_error = Empty | InvalidDigit | PosOverflow

fun int_error_msg :: "int_error \<Rightarrow> bytes" where
  "int_error_msg Empty = bytes_of ''cannot parse integer from empty string''"
| "int_error_msg InvalidDigit = bytes_of ''invalid digit found in string''"
| "int_error_msg PosOverflow = bytes_of ''number too large to fit in target type''"

definition to_digit :: "nat \<Rightarrow> u8 \<Rightarrow> nat option" where
  "to_digit radix b =
     (let d = (if 48 \<le> b \<and> b \<le> 57 then Some (unat b - 48)
               else if 97 \<le> b \<and> b \<le> 122 then Some (unat b - 87)
               else if 65 \<le> b \<and> b \<le> 90 then Some (unat b - 55) else None)
      in case d of None \<Rightarrow> None | Some v \<Rightarrow> if v < radix then Some v else None)"

text \<open>
  \<open>from_str_radix\<close> of an unsigned type with maximum \<open>mx\<close>: a leading plus sign is
  accepted, a lone sign and any other non-digit are \<open>InvalidDigit\<close>, and at each
  digit the digit check comes before the overflow check.
\<close>

fun parse_digits :: "nat \<Rightarrow> nat \<Rightarrow> nat \<Rightarrow> bytes \<Rightarrow> int_error + nat" where
  "parse_digits mx radix acc [] = Inr acc"
| "parse_digits mx radix acc (b # bs) =
     (case to_digit radix b of
        None \<Rightarrow> Inl InvalidDigit
      | Some d \<Rightarrow> if acc * radix + d > mx then Inl PosOverflow
                  else parse_digits mx radix (acc * radix + d) bs)"

definition from_str_radix :: "nat \<Rightarrow> nat \<Rightarrow> bytes \<Rightarrow> int_error + nat" where
  "from_str_radix mx radix s =
     (if s = [] then Inl Empty
      else if s = [43] \<or> s = [45] then Inl InvalidDigit
      else if hd s = 43 then parse_digits mx radix 0 (tl s)
      else parse_digits mx radix 0 s)"

lemma parse_digits_append:
  "parse_digits mx r acc (xs @ ys) =
     (case parse_digits mx r acc xs of Inl e \<Rightarrow> Inl e | Inr a \<Rightarrow> parse_digits mx r a ys)"
  by (induction xs arbitrary: acc) (auto split: option.splits)

lemma unat_digit: "d < 10 \<Longrightarrow> unat (word_of_nat (48 + d) :: u8) = 48 + d"
  by (simp add: unat_of_nat take_bit_eq_mod del: of_nat_add)

lemma to_digit_dec: "d < 10 \<Longrightarrow> to_digit 10 (word_of_nat (48 + d)) = Some d"
  by (simp add: to_digit_def Let_def word_le_nat_alt unat_digit del: of_nat_add)

lemma dec_digits_nonempty [simp]: "dec_digits n \<noteq> []"
  by (subst dec_digits.simps) simp

lemma set_dec_digits: "set (dec_digits n) \<subseteq> {b. 48 \<le> b \<and> b \<le> 57}"
proof (induction n rule: dec_digits.induct)
  case (1 n)
  have d: "48 \<le> (word_of_nat (48 + d) :: u8) \<and> (word_of_nat (48 + d) :: u8) \<le> 57" if "d < 10" for d
    using that by (simp add: word_le_nat_alt unat_digit del: of_nat_add)
  show ?case
    using "1" by (subst dec_digits.simps) (auto simp: d simp del: of_nat_add)
qed

lemma parse_dec_digits: "n \<le> mx \<Longrightarrow> parse_digits mx 10 0 (dec_digits n) = Inr n"
proof (induction n rule: dec_digits.induct)
  case (1 n)
  show ?case
  proof (cases "n < 10")
    case True
    with "1.prems" show ?thesis by (subst dec_digits.simps) (simp add: to_digit_dec del: of_nat_add)
  next
    case False
    with "1" have "parse_digits mx 10 0 (dec_digits (n div 10)) = Inr (n div 10)" by simp
    with False "1.prems" show ?thesis
      by (subst dec_digits.simps) (simp add: parse_digits_append to_digit_dec del: of_nat_add)
  qed
qed

lemma from_str_radix_dec_digits: "n \<le> mx \<Longrightarrow> from_str_radix mx 10 (dec_digits n) = Inr n"
proof -
  assume le: "n \<le> mx"
  obtain b bs where d: "dec_digits n = b # bs" by (cases "dec_digits n") simp_all
  with set_dec_digits [of n] have "48 \<le> b" by auto
  then have "b \<noteq> 43" "b \<noteq> 45" by auto
  with d parse_dec_digits [OF le] show ?thesis by (simp add: from_str_radix_def)
qed

section \<open>Hexadecimal digits\<close>

lemma hex_digit_facts:
  assumes "n < 16"
  shows "to_digit 16 (hex_digit (word_of_nat n)) = Some n \<and> hex_digit (word_of_nat n) < 0x80
    \<and> hex_digit (word_of_nat n) \<notin> {39, 43, 45}"
proof -
  have "list_all (\<lambda>n. to_digit 16 (hex_digit (word_of_nat n)) = Some n
      \<and> hex_digit (word_of_nat n) < 0x80 \<and> hex_digit (word_of_nat n) \<notin> {39, 43, 45}) [0..<16]"
    by (simp add: upt_rec hex_digit_def to_digit_def)
  with assms show ?thesis by (simp add: list_all_iff)
qed

lemma nibbles:
  "drop_bit 4 (b :: u8) = word_of_nat (unat b div 16)"
  "b AND 15 = word_of_nat (unat b mod 16)"
proof -
  have "unat (drop_bit 4 b) = unat b div 16"
    by (simp add: drop_bit_eq_div unat_div_distrib)
  then show "drop_bit 4 b = word_of_nat (unat b div 16)" by (metis of_nat_unat ucast_id)
  have "b AND 15 = take_bit 4 b"
    by (simp add: take_bit_eq_mask mask_eq_exp_minus_1)
  then have "unat (b AND 15) = take_bit 4 (unat b)"
    by (simp only: unsigned_take_bit_eq)
  then have "unat (b AND 15) = unat b mod 16"
    by (simp add: take_bit_eq_mod)
  then show "b AND 15 = word_of_nat (unat b mod 16)" by (metis of_nat_unat ucast_id)
qed

lemma set_hex2:
  "set (hex2 b) \<subseteq> {hex_digit (word_of_nat n) | n. n < 16}"
proof -
  have "unat b div 16 < 16" using unsigned_less [of b, where ?'a = nat] by simp
  moreover have "unat b mod 16 < 16" by simp
  ultimately show ?thesis by (auto simp: hex2_def nibbles)
qed

end
