(* ===== verification/Constants.thy ===== *)
theory Constants
  imports Rust_Std
begin

text \<open>
  \<open>crates/cubrid-protocol/src/constants.rs\<close>: magic values and sizes, function codes,
  column data types, statement types and transaction types, with the conversions between
  an enum and its byte on the wire.
\<close>

section \<open>Sizes and magic values\<close>

definition BROKER_MAGIC :: bytes where "BROKER_MAGIC = bytes_of ''CUBRK''"
definition CLIENT_TYPE_JDBC :: u8 where "CLIENT_TYPE_JDBC = 3"
definition CAS_PROTO_INDICATOR :: u8 where "CAS_PROTO_INDICATOR = 0x40"
definition CAS_PROTOCOL_VERSION :: u8 where "CAS_PROTOCOL_VERSION = 7"
definition CAS_VERSION :: u8 where "CAS_VERSION = CAS_PROTO_INDICATOR OR CAS_PROTOCOL_VERSION"
definition SIZE_CAS_INFO :: usize where [simp]: "SIZE_CAS_INFO = 4"
definition SIZE_DATA_LENGTH :: usize where [simp]: "SIZE_DATA_LENGTH = 4"
definition SIZE_BROKER_INFO :: usize where [simp]: "SIZE_BROKER_INFO = 16"
definition DB_OPEN_PAYLOAD_SIZE :: usize where [simp]: "DB_OPEN_PAYLOAD_SIZE = 628"
definition CLIENT_INFO_EXCHANGE_SIZE :: usize where [simp]: "CLIENT_INFO_EXCHANGE_SIZE = 10"
definition BROKER_RESPONSE_SIZE :: usize where [simp]: "BROKER_RESPONSE_SIZE = 4"
definition DB_NAME_SIZE :: usize where [simp]: "DB_NAME_SIZE = 32"
definition DB_USER_SIZE :: usize where [simp]: "DB_USER_SIZE = 32"
definition DB_PASSWORD_SIZE :: usize where [simp]: "DB_PASSWORD_SIZE = 32"
definition DB_EXTENDED_SIZE :: usize where [simp]: "DB_EXTENDED_SIZE = 512"
definition DB_RESERVED_SIZE :: usize where [simp]: "DB_RESERVED_SIZE = 20"
definition DEFAULT_FETCH_SIZE :: i32 where "DEFAULT_FETCH_SIZE = 100"
definition SIZE_OID :: usize where [simp]: "SIZE_OID = 8"
definition SIZE_BYTE :: usize where [simp]: "SIZE_BYTE = 1"
definition SIZE_SHORT :: usize where [simp]: "SIZE_SHORT = 2"
definition SIZE_INT :: usize where [simp]: "SIZE_INT = 4"
definition SIZE_LONG :: usize where [simp]: "SIZE_LONG = 8"
definition SIZE_FLOAT :: usize where [simp]: "SIZE_FLOAT = 4"
definition SIZE_DOUBLE :: usize where [simp]: "SIZE_DOUBLE = 8"
definition SIZE_DATETIME :: usize where [simp]: "SIZE_DATETIME = 14"
definition PREPARE_NORMAL :: u8 where "PREPARE_NORMAL = 0x00"
definition PREPARE_HOLDABLE :: u8 where "PREPARE_HOLDABLE = 0x08"
definition EXECUTE_NORMAL :: u8 where "EXECUTE_NORMAL = 0x00"
definition EXECUTE_QUERY_ALL :: u8 where "EXECUTE_QUERY_ALL = 0x02"

section \<open>Function codes\<close>

datatype function_code =
    FC_EndTran | FC_Prepare | FC_Execute | FC_GetDbParameter | FC_SetDbParameter
  | FC_CloseReqHandle | FC_Fetch | FC_SchemaInfo | FC_GetDbVersion | FC_ExecuteBatch
  | FC_ConClose | FC_GetLastInsertId | FC_PrepareAndExecute

text \<open>\<open>code as u8\<close>\<close>

fun function_code_u8 :: "function_code \<Rightarrow> u8" where
  "function_code_u8 FC_EndTran = 1"
| "function_code_u8 FC_Prepare = 2"
| "function_code_u8 FC_Execute = 3"
| "function_code_u8 FC_GetDbParameter = 4"
| "function_code_u8 FC_SetDbParameter = 5"
| "function_code_u8 FC_CloseReqHandle = 6"
| "function_code_u8 FC_Fetch = 8"
| "function_code_u8 FC_SchemaInfo = 9"
| "function_code_u8 FC_GetDbVersion = 15"
| "function_code_u8 FC_ExecuteBatch = 20"
| "function_code_u8 FC_ConClose = 31"
| "function_code_u8 FC_GetLastInsertId = 40"
| "function_code_u8 FC_PrepareAndExecute = 41"

section \<open>Data types\<close>

datatype data_type =
    DT_Null | DT_Char | DT_String | DT_NChar | DT_VarNChar
  | DT_Bit | DT_VarBit | DT_Numeric | DT_Int | DT_Short
  | DT_Monetary | DT_Float | DT_Double | DT_Date | DT_Time
  | DT_Timestamp | DT_Set | DT_Multiset | DT_Sequence | DT_Object
  | DT_Bigint | DT_Datetime | DT_Blob | DT_Clob | DT_Enum

fun data_type_u8 :: "data_type \<Rightarrow> u8" where
  "data_type_u8 DT_Null = 0"
| "data_type_u8 DT_Char = 1"
| "data_type_u8 DT_String = 2"
| "data_type_u8 DT_NChar = 3"
| "data_type_u8 DT_VarNChar = 4"
| "data_type_u8 DT_Bit = 5"
| "data_type_u8 DT_VarBit = 6"
| "data_type_u8 DT_Numeric = 7"
| "data_type_u8 DT_Int = 8"
| "data_type_u8 DT_Short = 9"
| "data_type_u8 DT_Monetary = 10"
| "data_type_u8 DT_Float = 11"
| "data_type_u8 DT_Double = 12"
| "data_type_u8 DT_Date = 13"
| "data_type_u8 DT_Time = 14"
| "data_type_u8 DT_Timestamp = 15"
| "data_type_u8 DT_Set = 16"
| "data_type_u8 DT_Multiset = 17"
| "data_type_u8 DT_Sequence = 18"
| "data_type_u8 DT_Object = 19"
| "data_type_u8 DT_Bigint = 21"
| "data_type_u8 DT_Datetime = 22"
| "data_type_u8 DT_Blob = 23"
| "data_type_u8 DT_Clob = 24"
| "data_type_u8 DT_Enum = 25"

text \<open>\<open>DataType::from_u8\<close>: the match as a table; a byte without an entry is \<open>None\<close>.\<close>

definition data_type_table :: "(u8 \<times> data_type) list" where
  "data_type_table =
     [(0, DT_Null), (1, DT_Char), (2, DT_String), (3, DT_NChar),
      (4, DT_VarNChar), (5, DT_Bit), (6, DT_VarBit), (7, DT_Numeric),
      (8, DT_Int), (9, DT_Short), (10, DT_Monetary), (11, DT_Float),
      (12, DT_Double), (13, DT_Date), (14, DT_Time), (15, DT_Timestamp),
      (16, DT_Set), (17, DT_Multiset), (18, DT_Sequence), (19, DT_Object),
      (21, DT_Bigint), (22, DT_Datetime), (23, DT_Blob), (24, DT_Clob),
      (25, DT_Enum)]"

definition data_type_from_u8 :: "u8 \<Rightarrow> data_type option" where
  "data_type_from_u8 v = map_of data_type_table v"

fun type_name :: "data_type \<Rightarrow> bytes" where
  "type_name DT_Null = bytes_of ''NULL''"
| "type_name DT_Char = bytes_of ''CHAR''"
| "type_name DT_String = bytes_of ''VARCHAR''"
| "type_name DT_NChar = bytes_of ''NCHAR''"
| "type_name DT_VarNChar = bytes_of ''VARNCHAR''"
| "type_name DT_Bit = bytes_of ''BIT''"
| "type_name DT_VarBit = bytes_of ''VARBIT''"
| "type_name DT_Numeric = bytes_of ''NUMERIC''"
| "type_name DT_Int = bytes_of ''INTEGER''"
| "type_name DT_Short = bytes_of ''SMALLINT''"
| "type_name DT_Monetary = bytes_of ''MONETARY''"
| "type_name DT_Float = bytes_of ''FLOAT''"
| "type_name DT_Double = bytes_of ''DOUBLE''"
| "type_name DT_Date = bytes_of ''DATE''"
| "type_name DT_Time = bytes_of ''TIME''"
| "type_name DT_Timestamp = bytes_of ''TIMESTAMP''"
| "type_name DT_Set = bytes_of ''SET''"
| "type_name DT_Multiset = bytes_of ''MULTISET''"
| "type_name DT_Sequence = bytes_of ''SEQUENCE''"
| "type_name DT_Object = bytes_of ''OBJECT''"
| "type_name DT_Bigint = bytes_of ''BIGINT''"
| "type_name DT_Datetime = bytes_of ''DATETIME''"
| "type_name DT_Blob = bytes_of ''BLOB''"
| "type_name DT_Clob = bytes_of ''CLOB''"
| "type_name DT_Enum = bytes_of ''ENUM''"

section \<open>Statement and transaction types\<close>

datatype statement_type =
    ST_AlterClass | ST_AlterSerial | ST_CommitWork | ST_RegisterDb | ST_CreateClass
  | ST_CreateIndex | ST_CreateTrigger | ST_CreateSerial | ST_DropDatabase | ST_DropClass
  | ST_DropIndex | ST_DropLabel | ST_DropTrigger | ST_DropSerial | ST_Evaluate
  | ST_RenameClass | ST_RollbackWork | ST_Grant | ST_Revoke | ST_Statistics
  | ST_Insert | ST_Select | ST_Update | ST_Delete | ST_Call
  | ST_CallSP | ST_Unknown

fun statement_type_u8 :: "statement_type \<Rightarrow> u8" where
  "statement_type_u8 ST_AlterClass = 0"
| "statement_type_u8 ST_AlterSerial = 1"
| "statement_type_u8 ST_CommitWork = 2"
| "statement_type_u8 ST_RegisterDb = 3"
| "statement_type_u8 ST_CreateClass = 4"
| "statement_type_u8 ST_CreateIndex = 5"
| "statement_type_u8 ST_CreateTrigger = 6"
| "statement_type_u8 ST_CreateSerial = 7"
| "statement_type_u8 ST_DropDatabase = 8"
| "statement_type_u8 ST_DropClass = 9"
| "statement_type_u8 ST_DropIndex = 10"
| "statement_type_u8 ST_DropLabel = 11"
| "statement_type_u8 ST_DropTrigger = 12"
| "statement_type_u8 ST_DropSerial = 13"
| "statement_type_u8 ST_Evaluate = 14"
| "statement_type_u8 ST_RenameClass = 15"
| "statement_type_u8 ST_RollbackWork = 16"
| "statement_type_u8 ST_Grant = 17"
| "statement_type_u8 ST_Revoke = 18"
| "statement_type_u8 ST_Statistics = 19"
| "statement_type_u8 ST_Insert = 20"
| "statement_type_u8 ST_Select = 21"
| "statement_type_u8 ST_Update = 22"
| "statement_type_u8 ST_Delete = 23"
| "statement_type_u8 ST_Call = 24"
| "statement_type_u8 ST_CallSP = 0x7E"
| "statement_type_u8 ST_Unknown = 0x7F"

text \<open>\<open>StatementType::from_u8\<close>: every byte outside the table is \<open>Unknown\<close>.\<close>

definition statement_type_table :: "(u8 \<times> statement_type) list" where
  "statement_type_table =
     [(0, ST_AlterClass), (1, ST_AlterSerial), (2, ST_CommitWork), (3, ST_RegisterDb),
      (4, ST_CreateClass), (5, ST_CreateIndex), (6, ST_CreateTrigger), (7, ST_CreateSerial),
      (8, ST_DropDatabase), (9, ST_DropClass), (10, ST_DropIndex), (11, ST_DropLabel),
      (12, ST_DropTrigger), (13, ST_DropSerial), (14, ST_Evaluate), (15, ST_RenameClass),
      (16, ST_RollbackWork), (17, ST_Grant), (18, ST_Revoke), (19, ST_Statistics),
      (20, ST_Insert), (21, ST_Select), (22, ST_Update), (23, ST_Delete),
      (24, ST_Call), (0x7E, ST_CallSP)]"

definition statement_type_from_u8 :: "u8 \<Rightarrow> statement_type" where
  "statement_type_from_u8 v =
     (case map_of statement_type_table v of Some t \<Rightarrow> t | None \<Rightarrow> ST_Unknown)"

definition is_select :: "statement_type \<Rightarrow> bool" where
  "is_select t \<longleftrightarrow> t = ST_Select"

definition is_call :: "statement_type \<Rightarrow> bool" where
  "is_call t \<longleftrightarrow> t = ST_Call \<or> t = ST_CallSP"

datatype transaction_type = Commit | Rollback

fun transaction_type_u8 :: "transaction_type \<Rightarrow> u8" where
  "transaction_type_u8 Commit = 1"
| "transaction_type_u8 Rollback = 2"

section \<open>The wire codes are faithful\<close>

lemma data_type_from_u8_code [simp]: "data_type_from_u8 (data_type_u8 d) = Some d"
  by (cases d) (simp_all add: data_type_from_u8_def data_type_table_def)

lemma data_type_from_u8_Some: "data_type_from_u8 v = Some d \<Longrightarrow> data_type_u8 d = v"
  by (auto simp: data_type_from_u8_def data_type_table_def split: if_splits)

lemma statement_type_from_u8_code [simp]: "statement_type_from_u8 (statement_type_u8 t) = t"
  by (cases t) (simp_all add: statement_type_from_u8_def statement_type_table_def)

lemma inj_data_type_u8: "inj data_type_u8"
  by (rule inj_onI) (metis data_type_from_u8_code option.inject)

text \<open>Data types in the order of their codes: the table lists every one of them, once.\<close>

instantiation data_type :: linorder
begin

definition less_eq_data_type :: "data_type \<Rightarrow> data_type \<Rightarrow> bool" where
  "s \<le> t \<longleftrightarrow> data_type_u8 s \<le> data_type_u8 t"

definition less_data_type :: "data_type \<Rightarrow> data_type \<Rightarrow> bool" where
  "s < t \<longleftrightarrow> data_type_u8 s < data_type_u8 t"

instance
  by standard (auto simp: less_eq_data_type_def less_data_type_def dest: injD [OF inj_data_type_u8])

end

lemma UNIV_data_type: "UNIV = set (map snd data_type_table)"
proof -
  have "d \<in> set (map snd data_type_table)" for d
    using data_type_from_u8_code [of d] by (force simp: data_type_from_u8_def dest: map_of_SomeD)
  then show ?thesis by blast
qed

lemma data_type_table_complete: "map snd data_type_table = sorted_list_of_set UNIV"
proof -
  have "sorted_wrt (<) (map snd data_type_table)"
    by (simp add: data_type_table_def less_data_type_def)
  then have "sorted_list_of_set (set (map snd data_type_table)) = map snd data_type_table"
    by (simp only: strict_sorted_iff sorted_list_of_set.idem_if_sorted_distinct)
  then show ?thesis by (simp add: UNIV_data_type)
qed

lemma inj_statement_type_u8: "inj statement_type_u8"
  by (rule inj_onI) (metis statement_type_from_u8_code)

lemma data_type_u8_below: "data_type_u8 d < 0x80"
  by (cases d) simp_all

end
