(* ===== verification/Errors.thy ===== *)
theory Errors
  imports Constants
begin

text \<open>
  \<open>crates/cubrid-protocol/src/error.rs\<close>: the protocol error and its \<open>Display\<close> text, which the
  \<open>thiserror\<close> derive generates from the attributes. \<open>std::io::Error\<close> is represented by its
  kind; its text, which the operating system words, is the parameter \<open>io\<close> of what prints it.
\<close>

datatype io_error =
    Io_UnexpectedEof | Io_TimedOut | Io_WouldBlock | Io_ConnectionReset | Io_BrokenPipe
  | Io_ConnectionRefused | Io_AddrNotAvailable | Io_Other

datatype protocol_error =
    PE_Io io_error
  | PE_InvalidPacket bytes
  | PE_ServerError i32 bytes
  | PE_AuthenticationFailed bytes
  | PE_UnsupportedType u8
  | PE_InvalidDsn bytes
  | PE_ConnectionClosed
  | PE_UnexpectedEof usize usize

fun display_protocol_error :: "(io_error \<Rightarrow> bytes) \<Rightarrow> protocol_error \<Rightarrow> bytes" where
  "display_protocol_error io (PE_Io e) = bytes_of ''I/O error: '' @ io e"
| "display_protocol_error io (PE_InvalidPacket m) = bytes_of ''invalid packet: '' @ m"
| "display_protocol_error io (PE_ServerError code message) =
     bytes_of ''server error '' @ fmt_int (sint code) @ bytes_of '': '' @ message"
| "display_protocol_error io (PE_AuthenticationFailed m) = bytes_of ''authentication failed: '' @ m"
| "display_protocol_error io (PE_UnsupportedType t) =
     bytes_of ''unsupported data type: '' @ fmt_int (uint t)"
| "display_protocol_error io (PE_InvalidDsn m) = bytes_of ''invalid DSN: '' @ m"
| "display_protocol_error io PE_ConnectionClosed = bytes_of ''connection closed''"
| "display_protocol_error io (PE_UnexpectedEof expected available) =
     bytes_of ''unexpected end of data: expected '' @ fmt_int (int expected)
       @ bytes_of '' bytes, got '' @ fmt_int (int available)"

text \<open>
  The text of \<open>Utf8Error\<close> as \<open>format!("invalid UTF-8: {e}")\<close> shows it.
\<close>

definition utf8_error_msg :: "utf8_error \<Rightarrow> bytes" where
  "utf8_error_msg e =
     (case error_len e of
        Some l \<Rightarrow> bytes_of ''invalid utf-8 sequence of '' @ fmt_int (int l)
                    @ bytes_of '' bytes from index '' @ fmt_int (int (valid_up_to e))
      | None \<Rightarrow> bytes_of ''incomplete utf-8 byte sequence from index ''
                    @ fmt_int (int (valid_up_to e)))"

definition invalid_utf8 :: "utf8_error \<Rightarrow> protocol_error" where
  "invalid_utf8 e = PE_InvalidPacket (bytes_of ''invalid UTF-8: '' @ utf8_error_msg e)"

end
