(* ===== verification/Values.thy ===== *)
theory Values
  imports Errors
begin

text \<open>
  \<open>crates/cubrid-protocol/src/value.rs\<close>: the \<open>Value\<close> enum, its accessors, its
  \<open>Display\<close> text and the \<open>From\<close> conversions. Floats are bit patterns; the shortest
  decimal text that Rust prints for a float is a parameter (\<open>float_fmt\<close>), so every
  statement about text holds for any float printer.
\<close>

section \<open>The enum\<close>

datatype db_value =
    V_Null
  | V_Bool bool
  | V_Short i16
  | V_Int i32
  | V_Long i64
  | V_Float f32
  | V_Double f64
  | V_String bytes
  | V_Bytes bytes
  | V_Date i16 i16 i16
  | V_Time i16 i16 i16
  | V_Timestamp i16 i16 i16 i16 i16 i16
  | V_Datetime i16 i16 i16 i16 i16 i16 i16

record float_fmt =
  show_f32 :: "f32 \<Rightarrow> bytes"
  show_f64 :: "f64 \<Rightarrow> bytes"

section \<open>Accessors\<close>

fun is_null :: "db_value \<Rightarrow> bool" where
  "is_null V_Null = True"
| "is_null _ = False"

fun as_i64 :: "db_value \<Rightarrow> i64 option" where
  "as_i64 (V_Short v) = Some (scast v)"
| "as_i64 (V_Int v) = Some (scast v)"
| "as_i64 (V_Long v) = Some v"
| "as_i64 (V_Bool v) = Some (if v then 1 else 0)"
| "as_i64 _ = None"

text \<open>
  \<open>*v as f64\<close>: the widening conversion of IEEE single to double precision. A subnormal
  single is normalised; a NaN is quieted and keeps its payload.
\<close>

fun top_bit :: "nat \<Rightarrow> f32 \<Rightarrow> nat" where
  "top_bit 0 m = 0"
| "top_bit (Suc n) m = (if bit m (Suc n) then Suc n else top_bit n m)"

definition f32_as_f64 :: "f32 \<Rightarrow> f64" where
  "f32_as_f64 v =
     (let s = push_bit 63 (ucast (drop_bit 31 v));
          e = drop_bit 23 v AND 0xFF;
          m = v AND 0x7FFFFF
      in if e = 0xFF then
           s OR push_bit 52 0x7FF OR
             (if m = 0 then 0 else push_bit 51 1 OR push_bit 29 (ucast m))
         else if e = 0 then
           (if m = 0 then s
            else let k = top_bit 22 m
                 in s OR push_bit 52 (word_of_nat (874 + k))
                      OR take_bit 52 (push_bit (52 - k) (ucast m)))
         else s OR push_bit 52 (ucast e + 896) OR push_bit 29 (ucast m))"

fun as_f64 :: "db_value \<Rightarrow> f64 option" where
  "as_f64 (V_Float v) = Some (f32_as_f64 v)"
| "as_f64 (V_Double v) = Some v"
| "as_f64 _ = None"

fun as_str :: "db_value \<Rightarrow> bytes option" where
  "as_str (V_String v) = Some v"
| "as_str _ = None"

fun value_as_bytes :: "db_value \<Rightarrow> bytes option" where
  "value_as_bytes (V_Bytes v) = Some v"
| "value_as_bytes _ = None"

section \<open>Display\<close>

definition show_date :: "i16 \<Rightarrow> i16 \<Rightarrow> i16 \<Rightarrow> bytes" where
  "show_date y m d =
     fmt_int_pad 4 (sint y) @ [45] @ fmt_int_pad 2 (sint m) @ [45] @ fmt_int_pad 2 (sint d)"

definition show_time :: "i16 \<Rightarrow> i16 \<Rightarrow> i16 \<Rightarrow> bytes" where
  "show_time h m s =
     fmt_int_pad 2 (sint h) @ [58] @ fmt_int_pad 2 (sint m) @ [58] @ fmt_int_pad 2 (sint s)"

fun display_value :: "float_fmt \<Rightarrow> db_value \<Rightarrow> bytes" where
  "display_value ff V_Null = bytes_of ''NULL''"
| "display_value ff (V_Bool v) = (if v then bytes_of ''true'' else bytes_of ''false'')"
| "display_value ff (V_Short v) = fmt_int (sint v)"
| "display_value ff (V_Int v) = fmt_int (sint v)"
| "display_value ff (V_Long v) = fmt_int (sint v)"
| "display_value ff (V_Float v) = show_f32 ff v"
| "display_value ff (V_Double v) = show_f64 ff v"
| "display_value ff (V_String v) = v"
| "display_value ff (V_Bytes v) = bytes_of ''<'' @ fmt_int (int (length v)) @ bytes_of '' bytes>''"
| "display_value ff (V_Date y m d) = show_date y m d"
| "display_value ff (V_Time h m s) = show_time h m s"
| "display_value ff (V_Timestamp y mo d h mi s) = show_date y mo d @ [32] @ show_time h mi s"
| "display_value ff (V_Datetime y mo d h mi s ms) =
     show_date y mo d @ [32] @ show_time h mi s @ [46] @ fmt_int_pad 3 (sint ms)"

section \<open>Conversions from Rust types\<close>

definition value_from_bool :: "bool \<Rightarrow> db_value" where "value_from_bool v = V_Bool v"
definition value_from_i16 :: "i16 \<Rightarrow> db_value" where "value_from_i16 v = V_Short v"
definition value_from_i32 :: "i32 \<Rightarrow> db_value" where "value_from_i32 v = V_Int v"
definition value_from_i64 :: "i64 \<Rightarrow> db_value" where "value_from_i64 v = V_Long v"
definition value_from_f32 :: "f32 \<Rightarrow> db_value" where "value_from_f32 v = V_Float v"
definition value_from_f64 :: "f64 \<Rightarrow> db_value" where "value_from_f64 v = V_Double v"
definition value_from_string :: "bytes \<Rightarrow> db_value" where "value_from_string v = V_String v"
definition value_from_str :: "bytes \<Rightarrow> db_value" where "value_from_str v = V_String v"
definition value_from_bytes :: "bytes \<Rightarrow> db_value" where "value_from_bytes v = V_Bytes v"

definition value_from_option :: "('a \<Rightarrow> db_value) \<Rightarrow> 'a option \<Rightarrow> db_value" where
  "value_from_option into v = (case v of Some inner \<Rightarrow> into inner | None \<Rightarrow> V_Null)"

end
