(* ===== verification/Result_Types.thy ===== *)
theory Result_Types
  imports Values
begin

text \<open>
  \<open>crates/cubrid-protocol/src/types.rs\<close>: the structures that the response parsers return.
\<close>

record column_metadata =
  column_type :: data_type
  scale :: i16
  precision :: i32
  name :: bytes
  real_name :: bytes
  table_name :: bytes
  is_nullable :: bool
  default_value :: bytes
  is_auto_increment :: bool
  is_unique_key :: bool
  is_primary_key :: bool
  is_foreign_key :: bool

record result_info =
  stmt_type :: statement_type
  result_count :: i32
  oid :: bytes

type_synonym row = "db_value list"

record prepare_and_execute_result =
  pae_query_handle :: i32
  pae_statement_type :: statement_type
  pae_bind_count :: i32
  pae_columns :: "column_metadata list"
  pae_total_tuple_count :: i32
  pae_result_infos :: "result_info list"
  pae_tuple_count :: i32
  pae_rows :: "row list"

record prepare_result =
  prep_query_handle :: i32
  prep_statement_type :: statement_type
  prep_bind_count :: i32
  prep_columns :: "column_metadata list"

record execute_result =
  exec_total_tuple_count :: i32
  exec_result_infos :: "result_info list"
  exec_tuple_count :: i32
  exec_rows :: "row list"

record fetch_result =
  fetch_tuple_count :: i32
  fetch_rows :: "row list"

end
