(* ===== verification/Packet_Writer.thy ===== *)
theory Packet_Writer
  imports Result_Types
begin

text \<open>
  \<open>crates/cubrid-protocol/src/codec.rs\<close>, first half: \<open>PacketWriter\<close>. A writer is its
  buffer; each method is a function from the writer to the writer. The length prefixes
  are \<open>n as i32\<close>, which truncates.
\<close>

section \<open>The CAS info token\<close>

text \<open>\<open>[u8; SIZE_CAS_INFO]\<close>\<close>

datatype cas_info = CAS u8 u8 u8 u8

fun cas_bytes :: "cas_info \<Rightarrow> bytes" where
  "cas_bytes (CAS a b c d) = [a, b, c, d]"

lemma length_cas_bytes [simp]: "length (cas_bytes c) = 4"
  by (cases c) simp

lemma cas_bytes_inject [simp]: "cas_bytes c = cas_bytes d \<longleftrightarrow> c = d"
  by (cases c; cases d) simp

section \<open>The writer\<close>

record packet_writer =
  buf :: bytes

definition writer_new :: packet_writer where
  "writer_new = \<lparr>buf = []\<rparr>"

text \<open>\<open>Default for PacketWriter\<close> is \<open>new\<close>.\<close>

definition writer_default :: packet_writer where
  "writer_default = writer_new"

definition with_capacity :: "usize \<Rightarrow> packet_writer" where
  "with_capacity cap = \<lparr>buf = []\<rparr>"

definition writer_len :: "packet_writer \<Rightarrow> usize" where
  "writer_len w = length (buf w)"

definition writer_is_empty :: "packet_writer \<Rightarrow> bool" where
  "writer_is_empty w \<longleftrightarrow> buf w = []"

definition as_bytes :: "packet_writer \<Rightarrow> bytes" where
  "as_bytes w = buf w"

definition into_bytes :: "packet_writer \<Rightarrow> bytes" where
  "into_bytes w = buf w"

definition writer_clear :: "packet_writer \<Rightarrow> packet_writer" where
  "writer_clear w = w\<lparr>buf := []\<rparr>"

text \<open>\<open>buf.extend_from_slice\<close>\<close>

definition extend :: "bytes \<Rightarrow> packet_writer \<Rightarrow> packet_writer" where
  "extend bs w = w\<lparr>buf := buf w @ bs\<rparr>"

subsection \<open>Raw writes\<close>

definition write_byte :: "u8 \<Rightarrow> packet_writer \<Rightarrow> packet_writer" where
  "write_byte v = extend [v]"

definition write_short :: "i16 \<Rightarrow> packet_writer \<Rightarrow> packet_writer" where
  "write_short v = extend (be_bytes 2 v)"

definition write_int :: "i32 \<Rightarrow> packet_writer \<Rightarrow> packet_writer" where
  "write_int v = extend (be_bytes 4 v)"

definition write_long :: "i64 \<Rightarrow> packet_writer \<Rightarrow> packet_writer" where
  "write_long v = extend (be_bytes 8 v)"

definition write_float :: "f32 \<Rightarrow> packet_writer \<Rightarrow> packet_writer" where
  "write_float v = extend (be_bytes 4 v)"

definition write_double :: "f64 \<Rightarrow> packet_writer \<Rightarrow> packet_writer" where
  "write_double v = extend (be_bytes 8 v)"

definition write_raw_bytes :: "bytes \<Rightarrow> packet_writer \<Rightarrow> packet_writer" where
  "write_raw_bytes v = extend v"

definition write_filler :: "usize \<Rightarrow> packet_writer \<Rightarrow> packet_writer" where
  "write_filler count = extend (replicate count 0)"

definition write_fixed_string :: "bytes \<Rightarrow> usize \<Rightarrow> packet_writer \<Rightarrow> packet_writer" where
  "write_fixed_string s len w =
     (if length s \<ge> len then extend (take len s) w
      else write_filler (len - length s) (extend s w))"

definition write_null_term_string :: "bytes \<Rightarrow> packet_writer \<Rightarrow> packet_writer" where
  "write_null_term_string s w =
     extend [0x00] (extend s (write_int (usize_as_i32 (length s + 1)) w))"

subsection \<open>Length-prefixed writes\<close>

definition add_byte :: "u8 \<Rightarrow> packet_writer \<Rightarrow> packet_writer" where
  "add_byte v w = write_byte v (write_int (usize_as_i32 SIZE_BYTE) w)"

definition add_short :: "i16 \<Rightarrow> packet_writer \<Rightarrow> packet_writer" where
  "add_short v w = write_short v (write_int (usize_as_i32 SIZE_SHORT) w)"

definition add_int :: "i32 \<Rightarrow> packet_writer \<Rightarrow> packet_writer" where
  "add_int v w = write_int v (write_int (usize_as_i32 SIZE_INT) w)"

definition add_long :: "i64 \<Rightarrow> packet_writer \<Rightarrow> packet_writer" where
  "add_long v w = write_long v (write_int (usize_as_i32 SIZE_LONG) w)"

definition add_float :: "f32 \<Rightarrow> packet_writer \<Rightarrow> packet_writer" where
  "add_float v w = write_float v (write_int (usize_as_i32 SIZE_FLOAT) w)"

definition add_double :: "f64 \<Rightarrow> packet_writer \<Rightarrow> packet_writer" where
  "add_double v w = write_double v (write_int (usize_as_i32 SIZE_DOUBLE) w)"

definition add_bytes :: "bytes \<Rightarrow> packet_writer \<Rightarrow> packet_writer" where
  "add_bytes v w = extend v (write_int (usize_as_i32 (length v)) w)"

definition add_null :: "packet_writer \<Rightarrow> packet_writer" where
  "add_null = write_int 0"

definition add_cache_time :: "packet_writer \<Rightarrow> packet_writer" where
  "add_cache_time w = write_int 0 (write_int 0 (write_int (usize_as_i32 SIZE_LONG) w))"

subsection \<open>Framing\<close>

definition build_header :: "usize \<Rightarrow> cas_info \<Rightarrow> bytes" where
  "build_header data_length cas = be_bytes 4 (usize_as_u32 data_length) @ cas_bytes cas"

definition build_request :: "bytes \<Rightarrow> cas_info \<Rightarrow> bytes" where
  "build_request payload cas = build_header (length payload) cas @ payload"

text \<open>\<open>parse_protocol_header\<close>, on the eight bytes of its array argument.\<close>

definition parse_protocol_header :: "bytes \<Rightarrow> usize \<times> cas_info" where
  "parse_protocol_header data =
     (unat (be_word (take 4 data) :: u32), CAS (data ! 4) (data ! 5) (data ! 6) (data ! 7))"

section \<open>What a write appends\<close>

text \<open>An argument of a request: its length and its bytes.\<close>

definition prefixed :: "bytes \<Rightarrow> bytes" where
  "prefixed v = be_bytes 4 (usize_as_i32 (length v)) @ v"

lemmas write_defs =
  extend_def write_byte_def write_short_def write_int_def write_long_def write_float_def
  write_double_def write_raw_bytes_def write_filler_def write_null_term_string_def
  add_byte_def add_short_def add_int_def add_long_def add_float_def add_double_def
  add_bytes_def add_null_def add_cache_time_def

lemma buf_writes [simp]:
  "buf writer_new = []"
  "buf (with_capacity n) = []"
  "buf (extend bs w) = buf w @ bs"
  "buf (write_byte b w) = buf w @ [b]"
  "buf (write_short s w) = buf w @ be_bytes 2 s"
  "buf (write_int i w) = buf w @ be_bytes 4 i"
  "buf (write_long l w) = buf w @ be_bytes 8 l"
  "buf (write_float f w) = buf w @ be_bytes 4 f"
  "buf (write_double d w) = buf w @ be_bytes 8 d"
  "buf (write_raw_bytes bs w) = buf w @ bs"
  "buf (write_filler n w) = buf w @ replicate n 0"
  by (simp_all add: write_defs writer_new_def with_capacity_def)

lemma buf_adds [simp]:
  "buf (write_null_term_string s w) = buf w @ prefixed (s @ [0])"
  "buf (add_byte b w) = buf w @ prefixed [b]"
  "buf (add_short s' w) = buf w @ prefixed (be_bytes 2 s')"
  "buf (add_int i w) = buf w @ prefixed (be_bytes 4 i)"
  "buf (add_long l w) = buf w @ prefixed (be_bytes 8 l)"
  "buf (add_float f w) = buf w @ prefixed (be_bytes 4 f)"
  "buf (add_double d w) = buf w @ prefixed (be_bytes 8 d)"
  "buf (add_bytes bs w) = buf w @ prefixed bs"
  "buf (add_null w) = buf w @ prefixed []"
  "buf (add_cache_time w) = buf w @ prefixed (be_bytes 4 (0 :: i32) @ be_bytes 4 (0 :: i32))"
  by (simp_all add: write_defs prefixed_def usize_as_i32_def)

lemma buf_write_fixed_string [simp]:
  "buf (write_fixed_string s n w) = buf w @ take n s @ replicate (n - length s) 0"
  by (simp add: write_fixed_string_def)

lemma length_prefixed [simp]: "length (prefixed v) = 4 + length v"
  by (simp add: prefixed_def)

lemma as_bytes_buf [simp]: "as_bytes w = buf w" and into_bytes_buf [simp]: "into_bytes w = buf w"
  by (simp_all add: as_bytes_def into_bytes_def)

section \<open>Frames\<close>

lemma length_build_header [simp]: "length (build_header n cas) = 8"
  by (simp add: build_header_def)

lemma parse_build_header:
  "n < 2 ^ 32 \<Longrightarrow> parse_protocol_header (build_header n cas @ body) = (n, cas)"
  by (cases cas)
    (simp add: parse_protocol_header_def build_header_def usize_as_u32_def nth_append
      unat_of_nat take_bit_nat_eq_self)

text \<open>
  A request frame is read back by its header: the length field is the length of the
  payload (modulo \<open>2 ^ 32\<close>, the width of the field), the token is the connection's, and the
  payload follows unchanged.
\<close>

theorem request_frame_header:
  "parse_protocol_header (take 8 (build_request payload cas)) = (length payload mod 2 ^ 32, cas)
    \<and> drop 8 (build_request payload cas) = payload"
  by (cases cas)
    (simp add: parse_protocol_header_def build_request_def build_header_def usize_as_u32_def
      nth_append unat_of_nat take_bit_eq_mod)

end
