(* ===== verification/Packet_Reader.thy ===== *)
theory Packet_Reader
  imports Packet_Writer
begin

text \<open>
  \<open>crates/cubrid-protocol/src/codec.rs\<close>, second half: \<open>PacketReader\<close>. A parser is an
  action on the reader. Indexing and slicing are checked, so a read out of bounds would
  be a panic of the model; the contracts below show that none of the primitives panics,
  and state which bytes each one accepts.
\<close>

section \<open>The reader\<close>

record reader =
  rdata :: bytes
  rpos :: usize

type_synonym 'a parser = "(reader, protocol_error, 'a) action"

definition reader_new :: "bytes \<Rightarrow> reader" where
  "reader_new data = \<lparr>rdata = data, rpos = 0\<rparr>"

definition position :: "reader \<Rightarrow> usize" where
  "position r = rpos r"

definition remaining :: "reader \<Rightarrow> usize" where
  "remaining r = length (rdata r) - rpos r"

text \<open>\<open>data[pos + i]\<close>, \<open>data[pos..pos + n]\<close> and \<open>pos += n\<close>\<close>

definition data_at :: "usize \<Rightarrow> u8 parser" where
  "data_at i r =
     (if rpos r + i < length (rdata r) then ok (rdata r ! (rpos r + i)) r
      else panic Index_Out_Of_Bounds r)"

definition data_slice :: "usize \<Rightarrow> bytes parser" where
  "data_slice n r =
     (if rpos r + n \<le> length (rdata r) then ok (take n (drop (rpos r) (rdata r))) r
      else panic Slice_Out_Of_Bounds r)"

definition advance :: "usize \<Rightarrow> reader \<Rightarrow> reader" where
  "advance n r = r\<lparr>rpos := rpos r + n\<rparr>"

definition bump :: "usize \<Rightarrow> unit parser" where
  "bump n r = (Inr (), advance n r)"

definition ensure :: "usize \<Rightarrow> unit parser" where
  "ensure count r =
     (if remaining r < count then throw (PE_UnexpectedEof count (remaining r)) r else ok () r)"

subsection \<open>Scalars\<close>

definition parse_byte :: "u8 parser" where
  "parse_byte =
     and_then (ensure 1) (\<lambda>_.
     and_then (data_at 0) (\<lambda>v.
     and_then (bump 1) (\<lambda>_. ok v)))"

definition parse_u_byte :: "u8 parser" where
  "parse_u_byte = parse_byte"

definition parse_short :: "i16 parser" where
  "parse_short =
     and_then (ensure 2) (\<lambda>_.
     and_then (data_at 0) (\<lambda>b0. and_then (data_at 1) (\<lambda>b1.
     and_then (bump 2) (\<lambda>_. ok (be_word [b0, b1])))))"

definition parse_int :: "i32 parser" where
  "parse_int =
     and_then (ensure 4) (\<lambda>_.
     and_then (data_at 0) (\<lambda>b0. and_then (data_at 1) (\<lambda>b1.
     and_then (data_at 2) (\<lambda>b2. and_then (data_at 3) (\<lambda>b3.
     and_then (bump 4) (\<lambda>_. ok (be_word [b0, b1, b2, b3])))))))"

definition parse_long :: "i64 parser" where
  "parse_long =
     and_then (ensure 8) (\<lambda>_.
     and_then (data_slice 8) (\<lambda>bs.
     and_then (bump 8) (\<lambda>_. ok (be_word bs))))"

definition parse_float :: "f32 parser" where
  "parse_float =
     and_then (ensure 4) (\<lambda>_.
     and_then (data_at 0) (\<lambda>b0. and_then (data_at 1) (\<lambda>b1.
     and_then (data_at 2) (\<lambda>b2. and_then (data_at 3) (\<lambda>b3.
     and_then (bump 4) (\<lambda>_. ok (be_word [b0, b1, b2, b3])))))))"

definition parse_double :: "f64 parser" where
  "parse_double =
     and_then (ensure 8) (\<lambda>_.
     and_then (data_slice 8) (\<lambda>bs.
     and_then (bump 8) (\<lambda>_. ok (be_word bs))))"

subsection \<open>Byte strings\<close>

definition parse_raw_bytes :: "usize \<Rightarrow> bytes parser" where
  "parse_raw_bytes count =
     and_then (ensure count) (\<lambda>_.
     and_then (data_slice count) (\<lambda>v.
     and_then (bump count) (\<lambda>_. ok v)))"

text \<open>\<open>raw.iter().rposition(|&b| b != 0).map_or(0, |p| p + 1)\<close>\<close>

fun rposition :: "(u8 \<Rightarrow> bool) \<Rightarrow> bytes \<Rightarrow> nat option" where
  "rposition p [] = None"
| "rposition p (b # bs) =
     (case rposition p bs of Some i \<Rightarrow> Some (Suc i) | None \<Rightarrow> if p b then Some 0 else None)"

definition string_end :: "bytes \<Rightarrow> usize" where
  "string_end raw = (case rposition (\<lambda>b. b \<noteq> 0) raw of None \<Rightarrow> 0 | Some p \<Rightarrow> p + 1)"

definition lift_utf8 :: "utf8_error + bytes \<Rightarrow> bytes parser" where
  "lift_utf8 res = (case res of Inl e \<Rightarrow> throw (invalid_utf8 e) | Inr s \<Rightarrow> ok s)"

definition parse_null_term_string :: "usize \<Rightarrow> bytes parser" where
  "parse_null_term_string len =
     (if len = 0 then ok []
      else
        and_then (ensure len) (\<lambda>_.
        and_then (data_slice len) (\<lambda>raw.
        and_then (bump len) (\<lambda>_.
        lift_utf8 (from_utf8 (take (string_end raw) raw))))))"

definition skip :: "usize \<Rightarrow> unit parser" where
  "skip count = and_then (ensure count) (\<lambda>_. bump count)"

definition parse_cas_info :: "cas_info parser" where
  "parse_cas_info =
     and_then (ensure SIZE_CAS_INFO) (\<lambda>_.
     and_then (data_slice SIZE_CAS_INFO) (\<lambda>bs.
     and_then (bump SIZE_CAS_INFO) (\<lambda>_.
     ok (CAS (bs ! 0) (bs ! 1) (bs ! 2) (bs ! 3)))))"

definition read_error :: "usize \<Rightarrow> (i32 \<times> bytes) parser" where
  "read_error response_length =
     and_then parse_int (\<lambda>code.
     let msg_len = response_length - SIZE_INT in
     and_then (if msg_len > 0 then parse_null_term_string msg_len else ok []) (\<lambda>message.
     ok (code, message)))"

subsection \<open>Dates and times\<close>

definition parse_date :: "(i16 \<times> i16 \<times> i16) parser" where
  "parse_date =
     and_then parse_short (\<lambda>year. and_then parse_short (\<lambda>month.
     and_then parse_short (\<lambda>day. ok (year, month, day))))"

definition parse_time :: "(i16 \<times> i16 \<times> i16) parser" where
  "parse_time =
     and_then parse_short (\<lambda>hour. and_then parse_short (\<lambda>minute.
     and_then parse_short (\<lambda>second. ok (hour, minute, second))))"

definition parse_timestamp :: "(i16 \<times> i16 \<times> i16 \<times> i16 \<times> i16 \<times> i16) parser" where
  "parse_timestamp =
     and_then parse_short (\<lambda>year. and_then parse_short (\<lambda>month.
     and_then parse_short (\<lambda>day. and_then parse_short (\<lambda>hour.
     and_then parse_short (\<lambda>minute. and_then parse_short (\<lambda>second.
     ok (year, month, day, hour, minute, second)))))))"

definition parse_datetime :: "(i16 \<times> i16 \<times> i16 \<times> i16 \<times> i16 \<times> i16 \<times> i16) parser" where
  "parse_datetime =
     and_then parse_short (\<lambda>year. and_then parse_short (\<lambda>month.
     and_then parse_short (\<lambda>day. and_then parse_short (\<lambda>hour.
     and_then parse_short (\<lambda>minute. and_then parse_short (\<lambda>second.
     and_then parse_short (\<lambda>ms.
     ok (year, month, day, hour, minute, second, ms))))))))"

section \<open>The unread bytes\<close>

definition rest :: "reader \<Rightarrow> bytes" where
  "rest r = drop (rpos r) (rdata r)"

lemma rest_new [simp]: "rest (reader_new bs) = bs"
  by (simp add: rest_def reader_new_def)

lemma rest_advance [simp]: "rest (advance n r) = drop n (rest r)"
  by (simp add: rest_def advance_def add.commute)

lemma advance_simps [simp]:
  "rdata (advance n r) = rdata r"
  "rpos (advance n r) = rpos r + n"
  "advance 0 r = r"
  "advance m (advance n r) = advance (n + m) r"
  by (simp_all add: advance_def add.assoc)

lemma remaining_rest: "remaining r = length (rest r)"
  by (simp add: remaining_def rest_def)

text \<open>
  All fixed-size primitives have one shape: with enough bytes left they take \<open>n\<close> bytes
  and convert them, otherwise they report how many were expected and how many there are,
  and leave the position where it was.
\<close>

definition fixed_read :: "usize \<Rightarrow> (bytes \<Rightarrow> 'a) \<Rightarrow> 'a parser \<Rightarrow> bool" where
  "fixed_read n f p \<longleftrightarrow>
     (\<forall>r. p r = (if n \<le> length (rest r) then (Inr (f (take n (rest r))), advance n r)
                 else (Inl (Err (PE_UnexpectedEof n (length (rest r)))), r)))"

lemmas parse_defs = and_then_def ensure_def data_at_def data_slice_def bump_def
  ok_def throw_def panic_def remaining_rest

lemma data_at_rest:
  "data_at i r = (if i < length (rest r) then (Inr (rest r ! i), r)
                  else (Inl (Panic Index_Out_Of_Bounds), r))"
  by (auto simp: data_at_def rest_def)

lemma data_slice_rest: "n \<le> length (rest r) \<Longrightarrow> 0 < n \<Longrightarrow> data_slice n r = (Inr (take n (rest r)), r)"
  by (auto simp: data_slice_def rest_def)

lemma ensure_rest:
  "ensure n r = (if n \<le> length (rest r) then (Inr (), r)
                 else (Inl (Err (PE_UnexpectedEof n (length (rest r)))), r))"
  by (simp add: ensure_def remaining_rest)

lemma take_nths:
  "1 \<le> length xs \<Longrightarrow> take 1 xs = [xs ! 0]"
  "2 \<le> length xs \<Longrightarrow> take 2 xs = [xs ! 0, xs ! 1]"
  "4 \<le> length xs \<Longrightarrow> take 4 xs = [xs ! 0, xs ! 1, xs ! 2, xs ! 3]"
  by (auto simp: list_eq_iff_nth_eq nth_Cons' numeral_nat less_Suc_eq)

lemma fixed_parse_byte: "fixed_read 1 hd parse_byte"
  by (auto simp: fixed_read_def parse_byte_def and_then_def ensure_rest data_at_rest bump_def
      hd_conv_nth take_nths(1) [simplified])

lemma fixed_parse_short: "fixed_read 2 be_word parse_short"
  by (auto simp: fixed_read_def parse_short_def and_then_def ensure_rest data_at_rest bump_def
      take_nths)

lemma fixed_parse_int: "fixed_read 4 be_word parse_int"
  by (auto simp: fixed_read_def parse_int_def and_then_def ensure_rest data_at_rest bump_def
      take_nths)

lemma fixed_parse_long: "fixed_read 8 be_word parse_long"
  by (auto simp: fixed_read_def parse_long_def and_then_def ensure_rest data_slice_rest bump_def)

lemma fixed_parse_float: "fixed_read 4 be_word parse_float"
  by (auto simp: fixed_read_def parse_float_def and_then_def ensure_rest data_at_rest bump_def
      take_nths)

lemma fixed_parse_double: "fixed_read 8 be_word parse_double"
  by (auto simp: fixed_read_def parse_double_def and_then_def ensure_rest data_slice_rest bump_def)

end
