(* ===== verification/Wire_Codec.thy ===== *)
theory Wire_Codec
  imports Packet_Reader
begin

text \<open>
  The contracts between the packet reader and its clients: which bytes a parser accepts
  for a value (\<open>decodes\<close>), that a parser stays inside the packet, never moves back and
  panics at most in the named ways (\<open>tame\<close>), both closed under sequencing; the locales
  \<open>wire_codec\<close> and \<open>exact_codec\<close> with their consequences for lists and for unique
  decodability; and their interpretation on the primitives of \<open>PacketReader\<close>.
\<close>

named_theorems tame_intros \<open>parsers that are tame, and how tameness composes\<close>

section \<open>What a parser accepts\<close>

definition decodes :: "'a parser \<Rightarrow> 'a \<Rightarrow> bytes \<Rightarrow> bool" where
  "decodes p x bs \<longleftrightarrow> (\<forall>r ts. rest r = bs @ ts \<longrightarrow> p r = (Inr x, advance (length bs) r))"

lemma decodesD: "decodes p x bs \<Longrightarrow> rest r = bs @ ts \<Longrightarrow> p r = (Inr x, advance (length bs) r)"
  by (simp add: decodes_def)

lemma decodes_run: "decodes p x bs \<Longrightarrow> p (reader_new (bs @ ts)) = (Inr x, advance (length bs) (reader_new (bs @ ts)))"
  by (rule decodesD) simp_all

lemma decodes_ok: "decodes (ok x) x []"
  by (simp add: decodes_def)

lemma decodes_bind:
  assumes p: "decodes p x bs" and f: "decodes (f x) y cs"
  shows "decodes (and_then p f) y (bs @ cs)"
  unfolding decodes_def
proof (intro allI impI)
  fix r ts
  assume "rest r = (bs @ cs) @ ts"
  then have r: "rest r = bs @ cs @ ts" by simp
  then have "and_then p f r = f x (advance (length bs) r)"
    by (simp add: and_then_Inr [OF decodesD [OF p]])
  also have "\<dots> = (Inr y, advance (length (bs @ cs)) r)"
    using decodesD [OF f, of "advance (length bs) r" ts] r by simp
  finally show "and_then p f r = (Inr y, advance (length (bs @ cs)) r)" .
qed

lemma decodes_last: "decodes p x bs \<Longrightarrow> decodes (f x) y [] \<Longrightarrow> decodes (and_then p f) y bs"
  using decodes_bind [of p x bs f y "[]"] by simp

lemma decodes_fixed: "fixed_read n f p \<Longrightarrow> length bs = n \<Longrightarrow> f bs = x \<Longrightarrow> decodes p x bs"
  by (auto simp: fixed_read_def decodes_def)

lemma decodes_times_do:
  "list_all2 (\<lambda>x bs. decodes p x bs) xs bss \<Longrightarrow> decodes (times_do (length xs) p) xs (concat bss)"
proof (induction xs bss rule: list_all2_induct)
  case Nil
  show ?case by (simp only: list.size times_do.simps concat.simps decodes_ok)
next
  case (Cons x xs bs bss)
  then show ?case
    by (simp only: list.size add_Suc_right add_0_right times_do.simps concat.simps)
      (rule decodes_bind, assumption, rule decodes_last, assumption, rule decodes_ok)
qed

lemma decodes_map_do:
  "list_all2 (\<lambda>(y, x) bs. decodes (f y) x bs) (zip ys xs) bss \<Longrightarrow> length xs = length ys \<Longrightarrow>
     decodes (map_do f ys) xs (concat bss)"
proof (induction ys arbitrary: xs bss)
  case Nil
  then show ?case by (simp only: list.size length_0_conv zip_Nil list_all2_Nil map_do.simps concat.simps decodes_ok)
next
  case (Cons y ys)
  then obtain x xs' bs bss' where xs: "xs = x # xs'" and bss: "bss = bs # bss'"
    by (cases xs; cases bss) auto
  with Cons have "decodes (f y) x bs" "decodes (map_do f ys) xs' (concat bss')" by auto
  then show ?case
    unfolding xs bss map_do.simps concat.simps
    by (rule decodes_bind [OF _ decodes_last [OF _ decodes_ok]])
qed

lemma decodes_unique:
  assumes "decodes p x bs" and "decodes p y cs" and eq: "bs @ s = cs @ t"
  shows "x = y \<and> s = t"
proof -
  have "p (reader_new (bs @ s)) = (Inr x, advance (length bs) (reader_new (bs @ s)))"
    by (rule decodes_run [OF assms(1)])
  moreover have "p (reader_new (bs @ s)) = (Inr y, advance (length cs) (reader_new (bs @ s)))"
    unfolding eq by (rule decodes_run [OF assms(2)])
  ultimately have "x = y" and "length bs = length cs" by (auto dest: arg_cong [where f = rpos])
  with eq show ?thesis by simp
qed

section \<open>What a parser cannot do\<close>

definition within :: "reader \<Rightarrow> bool" where
  "within r \<longleftrightarrow> rpos r \<le> length (rdata r)"

definition tame :: "panic set \<Rightarrow> 'a parser \<Rightarrow> bool" where
  "tame A p \<longleftrightarrow>
     (\<forall>r. within r \<longrightarrow> within (snd (p r)) \<and> rdata (snd (p r)) = rdata r
        \<and> rpos r \<le> rpos (snd (p r)) \<and> (\<forall>q. fst (p r) = Inl (Panic q) \<longrightarrow> q \<in> A))"

lemma within_new [simp]: "within (reader_new bs)"
  by (simp add: within_def reader_new_def)

lemma within_advance: "within r \<Longrightarrow> n \<le> length (rest r) \<Longrightarrow> within (advance n r)"
  by (auto simp: within_def rest_def)

lemma tameD:
  assumes "tame A p" and "within r" and "p r = (res, r')"
  shows "within r'" and "rdata r' = rdata r" and "rpos r \<le> rpos r'" and "res = Inl (Panic q) \<Longrightarrow> q \<in> A"
  using assms by (auto simp: tame_def)

lemma tame_ok [tame_intros]: "tame A (ok x)"
  and tame_throw [tame_intros]: "tame A (throw e)"
  and tame_panic: "q \<in> A \<Longrightarrow> tame A (panic q)"
  by (simp_all add: tame_def)

lemma tame_bind [tame_intros]:
  assumes p: "tame A p" and f: "\<And>x. tame A (f x)"
  shows "tame A (and_then p f)"
  unfolding tame_def
proof (intro allI impI)
  fix r
  assume r: "within r"
  obtain res r1 where p1: "p r = (res, r1)" by (cases "p r")
  note 1 = tameD [OF p r p1]
  show "within (snd (and_then p f r)) \<and> rdata (snd (and_then p f r)) = rdata r
      \<and> rpos r \<le> rpos (snd (and_then p f r))
      \<and> (\<forall>q. fst (and_then p f r) = Inl (Panic q) \<longrightarrow> q \<in> A)"
  proof (cases res)
    case (Inl e)
    with p1 1 show ?thesis by (auto simp: and_then_Inl)
  next
    case (Inr x)
    obtain res2 r2 where f2: "f x r1 = (res2, r2)" by (cases "f x r1")
    note 2 = tameD [OF f 1(1) f2]
    from p1 Inr f2 1 2 show ?thesis by (auto simp: and_then_Inr)
  qed
qed

lemma tame_if [tame_intros]: "(b \<Longrightarrow> tame A p) \<Longrightarrow> (\<not> b \<Longrightarrow> tame A q) \<Longrightarrow> tame A (if b then p else q)"
  by simp

lemma tame_option [tame_intros]:
  "tame A p \<Longrightarrow> (\<And>x. tame A (f x)) \<Longrightarrow> tame A (case opt of None \<Rightarrow> p | Some x \<Rightarrow> f x)"
  by (cases opt) simp_all

lemma tame_prod [tame_intros]: "(\<And>x y. tame A (f x y)) \<Longrightarrow> tame A (case z of (x, y) \<Rightarrow> f x y)"
  by (cases z) simp

lemma tame_times_do [tame_intros]: "tame A p \<Longrightarrow> tame A (times_do n p)"
  by (induction n) (auto intro!: tame_intros)

lemma tame_map_do [tame_intros]: "(\<And>y. tame A (f y)) \<Longrightarrow> tame A (map_do f ys)"
  by (induction ys) (auto intro!: tame_intros)

lemma tame_mono: "tame A p \<Longrightarrow> A \<subseteq> B \<Longrightarrow> tame B p"
  by (auto simp: tame_def)

lemma tame_fixed: "fixed_read n f p \<Longrightarrow> tame A p"
  by (auto simp: tame_def fixed_read_def within_advance)

section \<open>The interface of a codec\<close>

locale wire_codec =
  fixes enc :: "'a \<Rightarrow> bytes" and dec :: "'a parser" and valid :: "'a \<Rightarrow> bool"
  assumes decodes_enc: "valid x \<Longrightarrow> decodes dec x (enc x)"
    and tame_dec: "tame {} dec"
begin

lemma dec_enc: "valid x \<Longrightarrow> fst (dec (reader_new (enc x @ ts))) = Inr x"
  by (simp add: decodes_run [OF decodes_enc])

lemma decodes_list:
  "list_all valid xs \<Longrightarrow> decodes (times_do (length xs) dec) xs (concat (map enc xs))"
  by (rule decodes_times_do) (simp add: list_all2_map2 list_all2_same list_all_iff decodes_enc)

lemma decodes_list_n:
  "list_all valid xs \<Longrightarrow> n = length xs \<Longrightarrow> decodes (times_do n dec) xs (concat (map enc xs))"
  by (simp add: decodes_list)

lemma uniquely_decodable: "valid x \<Longrightarrow> valid y \<Longrightarrow> enc x @ s = enc y @ t \<Longrightarrow> x = y \<and> s = t"
  by (rule decodes_unique [OF decodes_enc decodes_enc])

lemma never_panics: "fst (dec (reader_new bs)) \<noteq> Inl (Panic q)"
  using tame_dec by (auto simp: tame_def)

end

locale exact_codec = wire_codec +
  assumes dec_sound: "dec r = (Inr x, r') \<Longrightarrow>
    valid x \<and> (\<exists>ts. rest r = enc x @ ts) \<and> r' = advance (length (enc x)) r"
begin

lemma dec_iff:
  "dec r = (Inr x, r') \<longleftrightarrow> valid x \<and> (\<exists>ts. rest r = enc x @ ts) \<and> r' = advance (length (enc x)) r"
  using dec_sound decodesD [OF decodes_enc] by blast

lemma dec_list_sound:
  "times_do n dec r = (Inr xs, r') \<Longrightarrow>
     length xs = n \<and> list_all valid xs \<and> (\<exists>ts. rest r = concat (map enc xs) @ ts)"
proof (induction n arbitrary: r xs)
  case 0
  then show ?case by simp
next
  case (Suc n)
  from Suc.prems obtain x r1 ys where x: "dec r = (Inr x, r1)"
    and ys: "times_do n dec r1 = (Inr ys, r')" and xs: "xs = x # ys"
    by (auto elim!: and_then_eq_InrE)
  from dec_sound [OF x] obtain ts where r: "valid x" "rest r = enc x @ ts"
    "r1 = advance (length (enc x)) r" by blast
  with Suc.IH [OF ys] show ?case by (auto simp: xs)
qed

end

section \<open>The primitives implement the interface\<close>

lemma exact_fixed:
  assumes fx: "fixed_read n f p" and f: "\<And>x. length (e x) = n \<and> f (e x) = x"
    and e: "\<And>bs. length bs = n \<Longrightarrow> e (f bs) = bs"
  shows "exact_codec e p (\<lambda>_. True)"
proof
  fix x :: 'a
  show "decodes p x (e x)" using fx f by (auto intro: decodes_fixed)
  show "tame {} p" by (rule tame_fixed [OF fx])
  fix r r'
  assume "p r = (Inr x, r')"
  with fx have n: "n \<le> length (rest r)" "x = f (take n (rest r))" "r' = advance n r"
    by (auto simp: fixed_read_def split: if_splits)
  then have "e x = take n (rest r)" using e by simp
  with n show "True \<and> (\<exists>ts. rest r = e x @ ts) \<and> r' = advance (length (e x)) r"
    by (auto intro: exI [of _ "drop n (rest r)"])
qed

interpretation byte: exact_codec "\<lambda>b. [b]" parse_byte "\<lambda>_. True"
  by (rule exact_fixed [OF fixed_parse_byte]) (auto simp: length_Suc_conv)

interpretation short: exact_codec "be_bytes 2" parse_short "\<lambda>_. True"
  by (rule exact_fixed [OF fixed_parse_short]) (simp_all add: be_bytes_be_word)

interpretation int32: exact_codec "be_bytes 4" parse_int "\<lambda>_. True"
  by (rule exact_fixed [OF fixed_parse_int]) (simp_all add: be_bytes_be_word)

interpretation long: exact_codec "be_bytes 8" parse_long "\<lambda>_. True"
  by (rule exact_fixed [OF fixed_parse_long]) (simp_all add: be_bytes_be_word)

interpretation single: exact_codec "be_bytes 4" parse_float "\<lambda>_. True"
  by (rule exact_fixed [OF fixed_parse_float]) (simp_all add: be_bytes_be_word)

interpretation double: exact_codec "be_bytes 8" parse_double "\<lambda>_. True"
  by (rule exact_fixed [OF fixed_parse_double]) (simp_all add: be_bytes_be_word)

lemmas tame_scalars [tame_intros] =
  tame_fixed [OF fixed_parse_byte] tame_fixed [OF fixed_parse_short] tame_fixed [OF fixed_parse_int]
  tame_fixed [OF fixed_parse_long] tame_fixed [OF fixed_parse_float] tame_fixed [OF fixed_parse_double]

lemmas decodes_scalars =
  byte.decodes_enc [OF TrueI] short.decodes_enc [OF TrueI] int32.decodes_enc [OF TrueI]
  long.decodes_enc [OF TrueI] single.decodes_enc [OF TrueI] double.decodes_enc [OF TrueI]

section \<open>Byte strings, tokens and dates\<close>

lemma fixed_raw_bytes: "0 < n \<Longrightarrow> fixed_read n (\<lambda>bs. bs) (parse_raw_bytes n)"
  by (auto simp: fixed_read_def parse_raw_bytes_def and_then_def ensure_rest data_slice_rest bump_def)

lemma fixed_skip: "fixed_read n (\<lambda>_. ()) (skip n)"
  by (auto simp: fixed_read_def skip_def and_then_def ensure_rest bump_def)

lemma fixed_cas_info:
  "fixed_read 4 (\<lambda>bs. CAS (bs ! 0) (bs ! 1) (bs ! 2) (bs ! 3)) parse_cas_info"
  by (auto simp: fixed_read_def parse_cas_info_def and_then_def ensure_rest data_slice_rest bump_def)

lemma data_slice_within:
  "within r \<Longrightarrow> n \<le> length (rest r) \<Longrightarrow> data_slice n r = (Inr (take n (rest r)), r)"
  by (auto simp: data_slice_def rest_def within_def)

lemma tame_raw_bytes [tame_intros]: "tame A (parse_raw_bytes n)"
  by (auto simp: tame_def parse_raw_bytes_def and_then_def ensure_rest data_slice_within bump_def
      within_advance)

lemma tame_string [tame_intros]: "tame A (parse_null_term_string n)"
  by (auto simp: tame_def parse_null_term_string_def and_then_def ensure_rest data_slice_within
      bump_def within_advance lift_utf8_def split: sum.splits)

lemmas tame_tokens [tame_intros] = tame_fixed [OF fixed_skip] tame_fixed [OF fixed_cas_info]

lemma tame_u_byte [tame_intros]: "tame A parse_u_byte"
  by (simp add: parse_u_byte_def tame_scalars)

lemma tame_read_error [tame_intros]: "tame A (read_error n)"
  unfolding read_error_def Let_def by (intro tame_intros)

lemma tame_dates [tame_intros]:
  "tame A parse_date" "tame A parse_time" "tame A parse_timestamp" "tame A parse_datetime"
  unfolding parse_date_def parse_time_def parse_timestamp_def parse_datetime_def
  by (intro tame_intros)+

lemma decodes_raw_bytes: "length bs = n \<Longrightarrow> bs \<noteq> [] \<Longrightarrow> decodes (parse_raw_bytes n) bs bs"
  by (rule decodes_fixed [OF fixed_raw_bytes]) auto

lemma decodes_skip: "length bs = n \<Longrightarrow> decodes (skip n) () bs"
  by (rule decodes_fixed [OF fixed_skip]) simp_all

lemma decodes_cas_info: "decodes parse_cas_info cas (cas_bytes cas)"
  by (rule decodes_fixed [OF fixed_cas_info]) (cases cas; simp)+

text \<open>
  A string on the wire is its bytes followed by zeros up to the announced length. It is
  read back when it is UTF-8 and does not itself end in a zero byte.
\<close>

definition wf_str :: "bytes \<Rightarrow> bool" where
  "wf_str s \<longleftrightarrow> utf8_valid s \<and> (s = [] \<or> last s \<noteq> 0)"

lemma rposition_zeros: "rposition (\<lambda>b. b \<noteq> 0) (replicate k 0) = None"
  by (induction k) simp_all

lemma rposition_append:
  "rposition p (xs @ ys) = (case rposition p ys of Some i \<Rightarrow> Some (length xs + i) | None \<Rightarrow> rposition p xs)"
  by (induction xs) (auto split: option.splits)

lemma string_end_zeros: "s = [] \<or> last s \<noteq> 0 \<Longrightarrow> string_end (s @ replicate k 0) = length s"
  by (cases s rule: rev_cases) (simp_all add: string_end_def rposition_append rposition_zeros)

lemma decodes_string:
  assumes s: "wf_str s" and n: "n = length s + k"
  shows "decodes (parse_null_term_string n) s (s @ replicate k 0)"
  unfolding decodes_def
proof (intro allI impI)
  fix r ts
  assume r: "rest r = (s @ replicate k 0) @ ts"
  have "string_end (s @ replicate k 0) = length s"
    using s by (intro string_end_zeros) (simp add: wf_str_def)
  then show "parse_null_term_string n r = (Inr s, advance (length (s @ replicate k 0)) r)"
    using r s n
    by (auto simp: parse_null_term_string_def and_then_def ensure_rest data_slice_rest bump_def
        lift_utf8_def from_utf8_def wf_str_def)
qed

lemma decodes_dates:
  "decodes parse_date (y, mo, d) (be_bytes 2 y @ be_bytes 2 mo @ be_bytes 2 d)"
  "decodes parse_time (h, mi, s) (be_bytes 2 h @ be_bytes 2 mi @ be_bytes 2 s)"
  "decodes parse_timestamp (y, mo, d, h, mi, s)
     (be_bytes 2 y @ be_bytes 2 mo @ be_bytes 2 d @ be_bytes 2 h @ be_bytes 2 mi @ be_bytes 2 s)"
  "decodes parse_datetime (y, mo, d, h, mi, s, ms)
     (be_bytes 2 y @ be_bytes 2 mo @ be_bytes 2 d @ be_bytes 2 h @ be_bytes 2 mi @ be_bytes 2 s
      @ be_bytes 2 ms)"
  unfolding parse_date_def parse_time_def parse_timestamp_def parse_datetime_def
  by (rule decodes_bind decodes_last decodes_scalars decodes_ok)+

section \<open>What the reader accepts\<close>

text \<open>
  The scalar readers accept exactly the big-endian encodings, at any position of any
  packet: they return a value if and only if the next bytes are its encoding, and then move
  past exactly those bytes.
\<close>

theorem scalars_exact:
  "(parse_byte r = (Inr b, r') \<longleftrightarrow> (\<exists>ts. rest r = b # ts) \<and> r' = advance 1 r)
    \<and> (parse_short r = (Inr s, r') \<longleftrightarrow> (\<exists>ts. rest r = be_bytes 2 s @ ts) \<and> r' = advance 2 r)
    \<and> (parse_int r = (Inr i, r') \<longleftrightarrow> (\<exists>ts. rest r = be_bytes 4 i @ ts) \<and> r' = advance 4 r)
    \<and> (parse_long r = (Inr l, r') \<longleftrightarrow> (\<exists>ts. rest r = be_bytes 8 l @ ts) \<and> r' = advance 8 r)
    \<and> (parse_float r = (Inr f, r') \<longleftrightarrow> (\<exists>ts. rest r = be_bytes 4 f @ ts) \<and> r' = advance 4 r)
    \<and> (parse_double r = (Inr d, r') \<longleftrightarrow> (\<exists>ts. rest r = be_bytes 8 d @ ts) \<and> r' = advance 8 r)"
  by (simp add: byte.dec_iff short.dec_iff int32.dec_iff long.dec_iff single.dec_iff double.dec_iff)

text \<open>
  Strings of the wire read back, with any number of zero bytes of padding and whatever
  follows: the reader returns the text without the padding and stops behind it. The text may
  be any UTF-8 string that does not itself end in a zero byte.
\<close>

theorem null_term_string_roundtrip:
  assumes "utf8_valid s" and "s = [] \<or> last s \<noteq> 0" and "rest r = s @ replicate k 0 @ ts"
  shows "parse_null_term_string (length s + k) r = (Inr s, advance (length s + k) r)"
  using decodesD [OF decodes_string [of s "length s + k" k], of r ts] assms by (simp add: wf_str_def)

theorem null_term_string_roundtrip_witness:
  "parse_null_term_string (length (bytes_of ''ok'') + 1) (reader_new (bytes_of ''ok'' @ [0, 7])) =
     (Inr (bytes_of ''ok''), advance (length (bytes_of ''ok'') + 1) (reader_new (bytes_of ''ok'' @ [0, 7])))"
  by (rule null_term_string_roundtrip [where ts = "[7]"])
    (simp_all add: bytes_of_def utf8_check_Suc utf8_tail_ascii)

end
