(* ===== verification/Requests.thy ===== *)
theory Requests
  imports Packet_Writer
begin

text \<open>
  \<open>crates/cubrid-protocol/src/request.rs\<close>: the request builders and the encoding of bind
  parameters. The arithmetic on \<open>i32\<close> wraps, as in a release build. The receiving side is
  specified independently of the builders by \<open>request_of\<close>, which reads a frame as a CAS
  token, a function code and a list of length-prefixed arguments.
\<close>

section \<open>Bind parameters\<close>

fun encode_one_param :: "db_value \<Rightarrow> packet_writer \<Rightarrow> packet_writer" where
  "encode_one_param V_Null w = write_int 0 w"
| "encode_one_param (V_Bool v) w =
     (let w = write_int (usize_as_i32 (1 + SIZE_SHORT)) w;
          w = write_byte (data_type_u8 DT_Short) w
      in write_short (if v then 1 else 0) w)"
| "encode_one_param (V_Short v) w =
     (let w = write_int (usize_as_i32 (1 + SIZE_SHORT)) w;
          w = write_byte (data_type_u8 DT_Short) w
      in write_short v w)"
| "encode_one_param (V_Int v) w =
     (let w = write_int (usize_as_i32 (1 + SIZE_INT)) w;
          w = write_byte (data_type_u8 DT_Int) w
      in write_int v w)"
| "encode_one_param (V_Long v) w =
     (let w = write_int (usize_as_i32 (1 + SIZE_LONG)) w;
          w = write_byte (data_type_u8 DT_Bigint) w
      in write_long v w)"
| "encode_one_param (V_Float v) w =
     (let w = write_int (usize_as_i32 (1 + SIZE_FLOAT)) w;
          w = write_byte (data_type_u8 DT_Float) w
      in write_float v w)"
| "encode_one_param (V_Double v) w =
     (let w = write_int (usize_as_i32 (1 + SIZE_DOUBLE)) w;
          w = write_byte (data_type_u8 DT_Double) w
      in write_double v w)"
| "encode_one_param (V_String v) w =
     (let w = write_int (usize_as_i32 (1 + length v + 1)) w;
          w = write_byte (data_type_u8 DT_String) w;
          w = write_raw_bytes v w
      in write_byte 0x00 w)"
| "encode_one_param (V_Bytes v) w =
     (let w = write_int (usize_as_i32 (1 + length v)) w;
          w = write_byte (data_type_u8 DT_VarBit) w
      in write_raw_bytes v w)"
| "encode_one_param (V_Date y mo d) w =
     (let w = write_int (usize_as_i32 (1 + SIZE_DATETIME)) w;
          w = write_byte (data_type_u8 DT_Datetime) w;
          w = write_short y w; w = write_short mo w; w = write_short d w;
          w = write_short 0 w; w = write_short 0 w; w = write_short 0 w
      in write_short 0 w)"
| "encode_one_param (V_Datetime y mo d h mi s ms) w =
     (let w = write_int (usize_as_i32 (1 + SIZE_DATETIME)) w;
          w = write_byte (data_type_u8 DT_Datetime) w;
          w = write_short y w; w = write_short mo w; w = write_short d w;
          w = write_short h w; w = write_short mi w; w = write_short s w
      in write_short ms w)"
| "encode_one_param (V_Time h mi s) w =
     (let w = write_int (usize_as_i32 (1 + SIZE_DATETIME)) w;
          w = write_byte (data_type_u8 DT_Time) w;
          w = write_short 0 w; w = write_short 0 w; w = write_short 0 w;
          w = write_short h w; w = write_short mi w; w = write_short s w
      in write_short 0 w)"
| "encode_one_param (V_Timestamp y mo d h mi s) w =
     (let w = write_int (usize_as_i32 (1 + SIZE_DATETIME)) w;
          w = write_byte (data_type_u8 DT_Timestamp) w;
          w = write_short y w; w = write_short mo w; w = write_short d w;
          w = write_short h w; w = write_short mi w; w = write_short s w
      in write_short 0 w)"

definition encode_bind_params :: "db_value list \<Rightarrow> bytes" where
  "encode_bind_params params =
     (if params = [] then []
      else into_bytes (fold encode_one_param params (with_capacity (length params * 16))))"

section \<open>Requests\<close>

definition write_prepare_and_execute :: "bytes \<Rightarrow> bool \<Rightarrow> cas_info \<Rightarrow> bytes" where
  "write_prepare_and_execute sql auto_commit cas =
     (let w = with_capacity 256;
          w = write_byte (function_code_u8 FC_PrepareAndExecute) w;
          w = add_int 3 w;
          w = write_null_term_string sql w;
          w = add_byte PREPARE_NORMAL w;
          w = add_byte (if auto_commit then 1 else 0) w;
          w = add_byte EXECUTE_QUERY_ALL w;
          w = add_int 0 w;
          w = add_int 0 w;
          w = write_int 0 w;
          w = write_int (usize_as_i32 SIZE_LONG) w;
          w = write_int 0 w;
          w = write_int 0 w;
          w = add_int 0 w
      in build_request (as_bytes w) cas)"

definition write_prepare :: "bytes \<Rightarrow> bool \<Rightarrow> cas_info \<Rightarrow> bytes" where
  "write_prepare sql auto_commit cas =
     (let w = with_capacity 128;
          w = write_byte (function_code_u8 FC_Prepare) w;
          w = write_null_term_string sql w;
          w = add_byte PREPARE_NORMAL w;
          w = add_byte (if auto_commit then 1 else 0) w
      in build_request (as_bytes w) cas)"

definition write_execute ::
  "i32 \<Rightarrow> statement_type \<Rightarrow> db_value list \<Rightarrow> bool \<Rightarrow> cas_info \<Rightarrow> bytes" where
  "write_execute query_handle st args auto_commit cas =
     (let fetch_flag = (if is_select st then 1 else 0);
          w = with_capacity 256;
          w = write_byte (function_code_u8 FC_Execute) w;
          w = add_int query_handle w;
          w = add_byte EXECUTE_NORMAL w;
          w = add_int 0 w;
          w = add_int 0 w;
          bind_data = encode_bind_params args;
          w = (if bind_data = [] then write_int 0 w else add_bytes bind_data w);
          w = write_int 1 w;
          w = write_byte fetch_flag w;
          w = add_byte (if auto_commit then 1 else 0) w;
          w = add_byte 1 w;
          w = add_cache_time w;
          w = add_int 0 w
      in build_request (as_bytes w) cas)"

definition write_fetch :: "i32 \<Rightarrow> i32 \<Rightarrow> i32 \<Rightarrow> cas_info \<Rightarrow> bytes" where
  "write_fetch query_handle current_tuple_count fetch_size cas =
     (let w = with_capacity 64;
          w = write_byte (function_code_u8 FC_Fetch) w;
          w = add_int query_handle w;
          w = add_int (current_tuple_count + 1) w;
          w = add_int fetch_size w;
          w = add_byte 0 w;
          w = add_int 0 w
      in build_request (as_bytes w) cas)"

definition write_close_req_handle :: "i32 \<Rightarrow> cas_info \<Rightarrow> bytes" where
  "write_close_req_handle query_handle cas =
     (let w = writer_new;
          w = write_byte (function_code_u8 FC_CloseReqHandle) w;
          w = add_int query_handle w
      in build_request (as_bytes w) cas)"

definition write_get_last_insert_id :: "cas_info \<Rightarrow> bytes" where
  "write_get_last_insert_id cas =
     (let w = writer_new;
          w = write_byte (function_code_u8 FC_GetLastInsertId) w
      in build_request (as_bytes w) cas)"

section \<open>How a request is read\<close>

text \<open>
  The arguments of a request body: each one a non-negative 32-bit length and that many
  bytes. \<open>None\<close> when the body does not divide this way.
\<close>

function args_of :: "bytes \<Rightarrow> bytes list option" where
  "args_of bs =
     (if bs = [] then Some []
      else
        let n = nat (sint (be_word (take 4 bs) :: i32))
        in if length bs < 4 + n \<or> sint (be_word (take 4 bs) :: i32) < 0 then None
           else map_option ((#) (take n (drop 4 bs))) (args_of (drop (4 + n) bs)))"
  by pat_completeness auto
termination
  by (relation "measure length") auto

declare args_of.simps [simp del]

definition request_of :: "bytes \<Rightarrow> (cas_info \<times> u8 \<times> bytes list) option" where
  "request_of frame =
     (if length frame < 9 then None
      else
        let (n, cas) = parse_protocol_header (take 8 frame)
        in if n \<noteq> length frame - 8 then None
           else map_option (\<lambda>args. (cas, frame ! 8, args)) (args_of (drop 9 frame)))"

lemma args_of_Nil [simp]: "args_of [] = Some []"
  by (simp add: args_of.simps)

lemma args_of_prefixed [simp]:
  "length v < 2 ^ 31 \<Longrightarrow> args_of (prefixed v @ bs) = map_option ((#) v) (args_of bs)"
  by (subst args_of.simps) (simp add: prefixed_def Let_def sint_usize_as_i32)

lemma args_of_prefixed_last [simp]: "length v < 2 ^ 31 \<Longrightarrow> args_of (prefixed v) = Some [v]"
  using args_of_prefixed [of v "[]"] by simp

lemma args_of_concat:
  "list_all (\<lambda>v. length v < 2 ^ 31) vs \<Longrightarrow> args_of (concat (map prefixed vs)) = Some vs"
  by (induction vs) simp_all

lemma request_of_build:
  assumes "length body < 2 ^ 32 - 1" and "args_of body = Some args"
  shows "request_of (build_request (fc # body) cas) = Some (cas, fc, args)"
proof -
  let ?n = "length (fc # body)"
  have "parse_protocol_header (take 8 (build_header ?n cas @ fc # body)) = (?n, cas)"
    using assms(1) parse_build_header [of ?n cas "[]"] by simp
  then show ?thesis
    using assms(2) by (simp add: request_of_def build_request_def nth_append)
qed

text \<open>A raw zero is an argument of length zero, and the raw cache time is the argument that
  \<open>add_cache_time\<close> writes.\<close>

lemma prefixed_Nil: "prefixed [] = be_bytes 4 (0 :: i32)"
  by (simp add: prefixed_def usize_as_i32_def)

lemma prefixed_8: "length v = 8 \<Longrightarrow> prefixed v = be_bytes 4 (8 :: i32) @ v"
  and prefixed_1: "prefixed [b] = be_bytes 4 (1 :: i32) @ [b]"
  by (simp_all add: prefixed_def usize_as_i32_def)

section \<open>Bind parameters as arguments\<close>

text \<open>The argument of a parameter: nothing for \<open>NULL\<close>, else its type code and its bytes.\<close>

fun param_arg :: "db_value \<Rightarrow> bytes" where
  "param_arg V_Null = []"
| "param_arg (V_Bool v) = 9 # be_bytes 2 (if v then 1 else 0 :: i16)"
| "param_arg (V_Short v) = 9 # be_bytes 2 v"
| "param_arg (V_Int v) = 8 # be_bytes 4 v"
| "param_arg (V_Long v) = 21 # be_bytes 8 v"
| "param_arg (V_Float v) = 11 # be_bytes 4 v"
| "param_arg (V_Double v) = 12 # be_bytes 8 v"
| "param_arg (V_String v) = 2 # v @ [0]"
| "param_arg (V_Bytes v) = 6 # v"
| "param_arg (V_Date y mo d) = 22 # concat (map (be_bytes 2) [y, mo, d, 0, 0, 0, 0])"
| "param_arg (V_Datetime y mo d h mi s ms) =
     22 # concat (map (be_bytes 2) [y, mo, d, h, mi, s, ms])"
| "param_arg (V_Time h mi s) = 14 # concat (map (be_bytes 2) [0, 0, 0, h, mi, s, 0])"
| "param_arg (V_Timestamp y mo d h mi s) =
     15 # concat (map (be_bytes 2) [y, mo, d, h, mi, s, 0])"

lemma buf_encode_one_param: "buf (encode_one_param v w) = buf w @ prefixed (param_arg v)"
  by (cases v) (simp_all add: Let_def prefixed_def usize_as_i32_def add.commute)

lemma buf_fold_encode:
  "buf (fold encode_one_param vs w) = buf w @ concat (map (\<lambda>v. prefixed (param_arg v)) vs)"
  by (induction vs arbitrary: w) (simp_all add: buf_encode_one_param)

lemma encode_bind_params_concat:
  "encode_bind_params vs = concat (map prefixed (map param_arg vs))"
  by (simp add: encode_bind_params_def buf_fold_encode o_def)

lemma args_of_bind_params:
  "list_all (\<lambda>v. length (param_arg v) < 2 ^ 31) vs \<Longrightarrow>
     args_of (encode_bind_params vs) = Some (map param_arg vs)"
  by (simp add: encode_bind_params_concat args_of_concat list_all_iff del: map_map)

lemma encode_bind_params_Nil_iff: "encode_bind_params vs = [] \<longleftrightarrow> vs = []"
  by (cases vs) (simp_all add: encode_bind_params_concat prefixed_def)

section \<open>What the server receives\<close>

lemma prefixed_0: "be_bytes 4 (0 :: i32) @ bs = prefixed [] @ bs"
  by (simp add: prefixed_def usize_as_i32_def)

lemma prefixed_raw_byte: "be_bytes 4 (1 :: i32) @ b # bs = prefixed [b] @ bs"
  by (simp add: prefixed_def usize_as_i32_def)

lemma prefixed_cache_time:
  "be_bytes 4 (usize_as_i32 8) @ prefixed [] @ prefixed [] @ bs =
     prefixed (be_bytes 4 (0 :: i32) @ be_bytes 4 (0 :: i32)) @ bs"
  by (simp add: prefixed_def usize_as_i32_def)

lemmas request_simps = prefixed_0 prefixed_raw_byte prefixed_cache_time Let_def request_of_build as_bytes_buf function_code_u8.simps

definition bool_byte :: "bool \<Rightarrow> u8" where
  "bool_byte b = (if b then 1 else 0)"

text \<open>
  The FC=41 request is one frame with the connection's CAS token whose body is the
  function code and exactly ten arguments: the argument count 3, the SQL text with its
  terminating zero, the prepare flag, auto-commit, the execute flag, two zero size limits,
  an empty bind list, the cache time and the timeout. In particular the raw writes of the
  builder (the null bind list and the cache time) divide into arguments as the server reads
  them.
\<close>

theorem prepare_and_execute_request:
  assumes "length sql < 2 ^ 31 - 1"
  shows "request_of (write_prepare_and_execute sql auto_commit cas) =
    Some (cas, 41,
      [be_bytes 4 (3 :: i32), sql @ [0], [0], [bool_byte auto_commit], [2],
       be_bytes 4 (0 :: i32), be_bytes 4 (0 :: i32), [],
       be_bytes 4 (0 :: i32) @ be_bytes 4 (0 :: i32), be_bytes 4 (0 :: i32)])"
  using assms
  by (simp add: write_prepare_and_execute_def request_simps PREPARE_NORMAL_def
      EXECUTE_QUERY_ALL_def bool_byte_def)

theorem prepare_and_execute_request_witness:
  "request_of (write_prepare_and_execute (bytes_of ''SELECT 1'') True (CAS 1 2 3 4)) =
    Some (CAS 1 2 3 4, 41,
      [be_bytes 4 (3 :: i32), bytes_of ''SELECT 1'' @ [0], [0], [bool_byte True], [2],
       be_bytes 4 (0 :: i32), be_bytes 4 (0 :: i32), [],
       be_bytes 4 (0 :: i32) @ be_bytes 4 (0 :: i32), be_bytes 4 (0 :: i32)])"
  by (rule prepare_and_execute_request) simp

lemma param_args_short:
  "length (encode_bind_params vs) < 2 ^ 31 \<Longrightarrow> list_all (\<lambda>v. length (param_arg v) < 2 ^ 31) vs"
  by (induction vs) (simp_all add: encode_bind_params_concat)

text \<open>
  The FC=3 request is one frame whose body is the function code and ten arguments: the
  query handle, the flag, two limits, the bind list, the fetch flag (set exactly for a
  SELECT), auto-commit, forward-only, cache time and timeout; and the bind list itself
  divides into one argument per parameter, empty for \<open>NULL\<close> and else the type code and the
  value, so that with no parameters it is the empty argument.
\<close>

theorem execute_request:
  assumes "length (encode_bind_params args) < 2 ^ 31"
  shows "request_of (write_execute h st args auto_commit cas) =
      Some (cas, 3,
        [be_bytes 4 h, [0], be_bytes 4 (0 :: i32), be_bytes 4 (0 :: i32), encode_bind_params args,
         [bool_byte (st = ST_Select)], [bool_byte auto_commit], [1],
         be_bytes 4 (0 :: i32) @ be_bytes 4 (0 :: i32), be_bytes 4 (0 :: i32)])
    \<and> args_of (encode_bind_params args) = Some (map param_arg args)"
proof
  show "args_of (encode_bind_params args) = Some (map param_arg args)"
    by (rule args_of_bind_params [OF param_args_short [OF assms]])
  have body: "buf (if encode_bind_params args = [] then write_int 0 w
      else add_bytes (encode_bind_params args) w) = buf w @ prefixed (encode_bind_params args)" for w
    by (simp add: prefixed_Nil)
  show "request_of (write_execute h st args auto_commit cas) =
      Some (cas, 3,
        [be_bytes 4 h, [0], be_bytes 4 (0 :: i32), be_bytes 4 (0 :: i32), encode_bind_params args,
         [bool_byte (st = ST_Select)], [bool_byte auto_commit], [1],
         be_bytes 4 (0 :: i32) @ be_bytes 4 (0 :: i32), be_bytes 4 (0 :: i32)])"
    using assms
    by (simp add: write_execute_def body request_simps EXECUTE_NORMAL_def bool_byte_def
        is_select_def)
qed

theorem execute_request_witness:
  "request_of (write_execute 7 ST_Insert [V_Int 5, V_Null] False (CAS 1 2 3 4)) =
      Some (CAS 1 2 3 4, 3,
        [be_bytes 4 (7 :: i32), [0], be_bytes 4 (0 :: i32), be_bytes 4 (0 :: i32),
         encode_bind_params [V_Int 5, V_Null],
         [bool_byte (ST_Insert = ST_Select)], [bool_byte False], [1],
         be_bytes 4 (0 :: i32) @ be_bytes 4 (0 :: i32), be_bytes 4 (0 :: i32)])
    \<and> args_of (encode_bind_params [V_Int 5, V_Null]) = Some (map param_arg [V_Int 5, V_Null])"
  by (rule execute_request) (simp add: encode_bind_params_concat)

text \<open>
  The remaining statement requests: FC=2 carries the SQL text, the flag and auto-commit;
  FC=8 asks for the rows from the one-based position after the \<open>current\<close> rows already
  received (the sum wraps at the width of \<open>i32\<close>); FC=6 names the handle; FC=40 has no
  argument. Each is one well-formed frame with the connection's token.
\<close>

theorem statement_requests:
  assumes "length sql < 2 ^ 31 - 1"
  shows "request_of (write_prepare sql auto_commit cas) =
      Some (cas, 2, [sql @ [0], [0], [bool_byte auto_commit]])
    \<and> request_of (write_fetch h current n cas) =
      Some (cas, 8, [be_bytes 4 h, be_bytes 4 (current + 1), be_bytes 4 n, [0], be_bytes 4 (0 :: i32)])
    \<and> request_of (write_close_req_handle h cas) = Some (cas, 6, [be_bytes 4 h])
    \<and> request_of (write_get_last_insert_id cas) = Some (cas, 40, [])"
  using assms
  by (simp add: write_prepare_def write_fetch_def write_close_req_handle_def
      write_get_last_insert_id_def request_simps PREPARE_NORMAL_def bool_byte_def)

theorem statement_requests_witness:
  "request_of (write_prepare (bytes_of ''SELECT ?'') True (CAS 0 0 0 1)) =
      Some (CAS 0 0 0 1, 2, [bytes_of ''SELECT ?'' @ [0], [0], [bool_byte True]])
    \<and> request_of (write_fetch 3 100 100 (CAS 0 0 0 1)) =
      Some (CAS 0 0 0 1, 8, [be_bytes 4 (3 :: i32), be_bytes 4 (100 + 1 :: i32),
        be_bytes 4 (100 :: i32), [0], be_bytes 4 (0 :: i32)])
    \<and> request_of (write_close_req_handle 3 (CAS 0 0 0 1)) =
      Some (CAS 0 0 0 1, 6, [be_bytes 4 (3 :: i32)])
    \<and> request_of (write_get_last_insert_id (CAS 0 0 0 1)) = Some (CAS 0 0 0 1, 40, [])"
  by (rule statement_requests) simp

end
