(* ===== verification/Handshake.thy ===== *)
theory Handshake
  imports Wire_Codec Requests
begin

text \<open>
  \<open>crates/cubrid-protocol/src/handshake.rs\<close>: the broker handshake, the database
  authentication and the connection-level requests, with their response parsers. The
  parsers run on the bytes that follow the length field of a frame.
\<close>

section \<open>Shared steps of the response parsers\<close>

definition remaining_now :: "usize parser" where
  "remaining_now r = ok (remaining r) r"

text \<open>
  \<open>let (code, message) = reader.read_error(reader.remaining())?;
  return Err(ProtocolError::ServerError { code, message });\<close>
\<close>

definition return_server_error :: "'a parser" where
  "return_server_error =
     and_then remaining_now (\<lambda>n.
     and_then (read_error n) (\<lambda>(code, message). throw (PE_ServerError code message)))"

definition run_parser :: "'a parser \<Rightarrow> bytes \<Rightarrow> (protocol_error, 'a) outcome" where
  "run_parser p data = fst (p (reader_new data))"

section \<open>Broker handshake\<close>

definition write_client_info_exchange :: bytes where
  "write_client_info_exchange =
     (let buf = replicate CLIENT_INFO_EXCHANGE_SIZE 0;
          buf = BROKER_MAGIC @ drop 5 buf;
          buf = buf[5 := CLIENT_TYPE_JDBC]
      in buf[6 := CAS_VERSION])"

definition parse_client_info_exchange :: "bytes \<Rightarrow> i32" where
  "parse_client_info_exchange data = be_word data"

section \<open>Opening the database\<close>

definition write_open_database :: "bytes \<Rightarrow> bytes \<Rightarrow> bytes \<Rightarrow> bytes" where
  "write_open_database database user password =
     (let w = with_capacity DB_OPEN_PAYLOAD_SIZE;
          w = write_fixed_string database DB_NAME_SIZE w;
          w = write_fixed_string user DB_USER_SIZE w;
          w = write_fixed_string password DB_PASSWORD_SIZE w;
          w = write_filler DB_EXTENDED_SIZE w;
          w = write_filler DB_RESERVED_SIZE w
      in into_bytes w)"

record open_database_result =
  odr_cas_info :: cas_info
  odr_proto_version :: i32
  odr_session_id :: i32

definition parse_open_database_body :: "open_database_result parser" where
  "parse_open_database_body =
     and_then parse_cas_info (\<lambda>cas.
     and_then parse_int (\<lambda>response_code.
     if sint response_code < 0 then return_server_error
     else
       and_then (parse_raw_bytes SIZE_BROKER_INFO) (\<lambda>broker_bytes.
       let proto_version = ucast (broker_bytes ! 4 AND 0x3F) in
       and_then parse_int (\<lambda>session_id.
       ok \<lparr>odr_cas_info = cas, odr_proto_version = proto_version, odr_session_id = session_id\<rparr>))))"

definition parse_open_database :: "bytes \<Rightarrow> (protocol_error, open_database_result) outcome" where
  "parse_open_database data = run_parser parse_open_database_body data"

section \<open>Connection requests\<close>

definition write_con_close :: "cas_info \<Rightarrow> bytes" where
  "write_con_close cas =
     (let w = writer_new;
          w = write_byte (function_code_u8 FC_ConClose) w
      in build_request (as_bytes w) cas)"

definition write_end_tran :: "transaction_type \<Rightarrow> cas_info \<Rightarrow> bytes" where
  "write_end_tran tran_type cas =
     (let w = writer_new;
          w = write_byte (function_code_u8 FC_EndTran) w;
          w = add_byte (transaction_type_u8 tran_type) w
      in build_request (as_bytes w) cas)"

definition write_get_db_version :: "bool \<Rightarrow> cas_info \<Rightarrow> bytes" where
  "write_get_db_version auto_commit cas =
     (let w = writer_new;
          w = write_byte (function_code_u8 FC_GetDbVersion) w;
          w = add_byte (if auto_commit then 1 else 0) w
      in build_request (as_bytes w) cas)"

definition parse_get_db_version_body :: "(bytes \<times> cas_info) parser" where
  "parse_get_db_version_body =
     and_then parse_cas_info (\<lambda>cas.
     and_then parse_int (\<lambda>code.
     if sint code < 0 then return_server_error
     else
       and_then remaining_now (\<lambda>version_len.
       and_then (if version_len > 0 then parse_null_term_string version_len else ok []) (\<lambda>version.
       ok (version, cas)))))"

definition parse_get_db_version :: "bytes \<Rightarrow> (protocol_error, bytes \<times> cas_info) outcome" where
  "parse_get_db_version data = run_parser parse_get_db_version_body data"

section \<open>Lemmas on the shared steps\<close>

lemma tame_remaining_now [tame_intros]: "tame A remaining_now"
  by (simp add: tame_def remaining_now_def)

lemma tame_return_server_error [tame_intros]: "tame A return_server_error"
  unfolding return_server_error_def by (intro tame_intros)

lemma run_decodes: "decodes p x bs \<Longrightarrow> run_parser p bs = Inr x"
  using decodes_run [of p x bs "[]"] by (simp add: run_parser_def)

lemma run_tame: "tame A p \<Longrightarrow> run_parser p data = Inl (Panic q) \<Longrightarrow> q \<in> A"
  by (auto simp: tame_def run_parser_def dest: spec [of _ "reader_new data"])

text \<open>
  An error response: the token, a negative response code, the error code and a message with
  its zero padding up to the end of the frame. \<open>errs p cas e bs\<close> says that the parser \<open>p\<close>,
  run on all the bytes \<open>bs\<close>, reports \<open>e\<close>.
\<close>

definition error_body :: "cas_info \<Rightarrow> i32 \<Rightarrow> i32 \<Rightarrow> bytes \<Rightarrow> nat \<Rightarrow> bytes" where
  "error_body cas rc code message k =
     cas_bytes cas @ be_bytes 4 rc @ be_bytes 4 code @ message @ replicate k 0"

lemma decodes_stepI: "decodes p x bs \<Longrightarrow> rest r = bs @ ts \<Longrightarrow> and_then p f r = f x (advance (length bs) r)"
  by (simp add: and_then_Inr [OF decodesD])

lemma read_error_rest:
  assumes m: "wf_str message" and r: "rest r = be_bytes 4 code @ message @ replicate k 0"
  shows "fst (read_error (length (rest r)) r) = Inr (code, message)"
proof -
  have "and_then parse_int f r = f code (advance 4 r)" for f :: "i32 \<Rightarrow> (i32 \<times> bytes) parser"
    using decodes_stepI [OF decodes_scalars(3) r] by simp
  moreover have "parse_null_term_string (length message + k) (advance 4 r)
      = (Inr message, advance (length message + k) (advance 4 r))"
    using decodesD [OF decodes_string [OF m refl], of "advance 4 r" k "[]"] r by simp
  ultimately show ?thesis
    by (cases "length message + k = 0") (simp_all add: read_error_def Let_def r and_then_def)
qed

lemma return_server_error_rest:
  assumes "wf_str message" and "rest r = be_bytes 4 code @ message @ replicate k 0"
  shows "fst (return_server_error r) = Inl (Err (PE_ServerError code message))"
  using read_error_rest [OF assms]
  by (auto simp: return_server_error_def and_then_def remaining_now_def remaining_rest
      split: prod.splits sum.splits)

text \<open>The head that all response parsers share.\<close>

definition response_head :: "(cas_info \<Rightarrow> i32 \<Rightarrow> 'a parser) \<Rightarrow> 'a parser" where
  "response_head body =
     and_then parse_cas_info (\<lambda>cas.
     and_then parse_int (\<lambda>rc. if sint rc < 0 then return_server_error else body cas rc))"

lemma tame_response_head [tame_intros]:
  "(\<And>cas rc. 0 \<le> sint rc \<Longrightarrow> tame A (body cas rc)) \<Longrightarrow> tame A (response_head body)"
  unfolding response_head_def by (intro tame_intros) simp_all

lemma decodes_response_head:
  assumes "decodes (body cas rc) x bs" and "0 \<le> sint rc"
  shows "decodes (response_head body) x (cas_bytes cas @ be_bytes 4 rc @ bs)"
  unfolding response_head_def using assms
  by (intro decodes_bind [OF decodes_cas_info] decodes_bind [OF decodes_scalars(3)]) simp

lemma response_head_run:
  "response_head body (reader_new (cas_bytes cas @ be_bytes 4 rc @ bs)) =
     (if sint rc < 0 then return_server_error else body cas rc)
       (advance 8 (reader_new (cas_bytes cas @ be_bytes 4 rc @ bs)))"
proof -
  let ?r = "reader_new (cas_bytes cas @ be_bytes 4 rc @ bs)"
  have "response_head body ?r =
      and_then parse_int (\<lambda>rc. if sint rc < 0 then return_server_error else body cas rc) (advance 4 ?r)"
    unfolding response_head_def
    by (subst decodes_stepI [OF decodes_cas_info, of _ cas "be_bytes 4 rc @ bs"]) simp_all
  also have "\<dots> = (if sint rc < 0 then return_server_error else body cas rc) (advance 8 ?r)"
    by (subst decodes_stepI [OF decodes_scalars(3), of _ rc bs]) simp_all
  finally show ?thesis .
qed

lemma response_head_error:
  assumes "sint rc < 0" and "wf_str message"
  shows "run_parser (response_head body) (error_body cas rc code message k)
      = Inl (Err (PE_ServerError code message))"
  using assms by (simp add: run_parser_def error_body_def response_head_run return_server_error_rest)

lemma response_head_negative:
  assumes "sint (rc :: i32) < 0"
  shows "run_parser (response_head body) (cas_bytes cas @ be_bytes 4 rc @ bs) \<noteq> Inr x"
proof -
  have "fst (return_server_error r) \<noteq> Inr x" for r
    by (auto simp: return_server_error_def and_then_def remaining_now_def split: prod.splits sum.splits)
  with assms show ?thesis by (simp add: run_parser_def response_head_run)
qed

lemma handshake_heads:
  "parse_open_database_body = response_head (\<lambda>cas rc.
       and_then (parse_raw_bytes SIZE_BROKER_INFO) (\<lambda>broker_bytes.
       and_then parse_int (\<lambda>session_id.
       ok \<lparr>odr_cas_info = cas, odr_proto_version = ucast (broker_bytes ! 4 AND 0x3F),
            odr_session_id = session_id\<rparr>)))"
  "parse_get_db_version_body = response_head (\<lambda>cas rc.
       and_then remaining_now (\<lambda>version_len.
       and_then (if version_len > 0 then parse_null_term_string version_len else ok []) (\<lambda>version.
       ok (version, cas))))"
  unfolding parse_open_database_body_def parse_get_db_version_body_def response_head_def Let_def
  by (rule refl)+

section \<open>The requests of the handshake\<close>

definition fixed_field :: "nat \<Rightarrow> bytes \<Rightarrow> bytes" where
  "fixed_field n s = take n s @ replicate (n - length s) 0"

lemma length_fixed_field [simp]: "length (fixed_field n s) = n"
  by (simp add: fixed_field_def)

lemma write_open_database_fields:
  "write_open_database database user password =
     fixed_field 32 database @ fixed_field 32 user @ fixed_field 32 password @ replicate 532 0"
  by (simp add: write_open_database_def Let_def fixed_field_def flip: replicate_add)

lemma fixed_field_inject:
  assumes "length s \<le> n" "length s' \<le> n" and "0 \<notin> set s" "0 \<notin> set s'"
    and eq: "fixed_field n s = fixed_field n s'"
  shows "s = s'"
proof -
  have "takeWhile (\<lambda>b. b \<noteq> 0) (fixed_field n x) = x" if "length x \<le> n" "0 \<notin> set x" for x :: bytes
    using that
    by (subst fixed_field_def, subst takeWhile_append2) (auto simp: takeWhile_replicate)
  with assms show ?thesis by metis
qed

text \<open>
  C39. The OpenDatabase request is always 628 bytes, whatever the credentials: three fields
  of 32 bytes for the database, the user and the password, each the first 32 bytes of its text
  and zeros behind a shorter one, then 532 zeros. A longer text is cut and moves no other field.
  And two sets of credentials of at most 32 bytes each, without zero bytes, that give the same
  request are equal: no credential is confused with another.
\<close>

theorem open_database_request:
  "length (write_open_database db user pw) = 628
    \<and> take 32 (write_open_database db user pw) = take 32 db @ replicate (32 - length db) 0
    \<and> take 32 (drop 32 (write_open_database db user pw)) = take 32 user @ replicate (32 - length user) 0
    \<and> take 32 (drop 64 (write_open_database db user pw)) = take 32 pw @ replicate (32 - length pw) 0
    \<and> drop 96 (write_open_database db user pw) = replicate 532 0
    \<and> ((\<forall>s \<in> {db, user, pw, db', user', pw'}. length s \<le> 32 \<and> 0 \<notin> set s) \<longrightarrow>
         (write_open_database db user pw = write_open_database db' user' pw' \<longleftrightarrow>
           db = db' \<and> user = user' \<and> pw = pw'))"
proof -
  have "write_open_database db user pw = write_open_database db' user' pw' \<longleftrightarrow>
      db = db' \<and> user = user' \<and> pw = pw'"
    if "\<forall>s \<in> {db, user, pw, db', user', pw'}. length s \<le> 32 \<and> 0 \<notin> set s"
  proof -
    have "s = s'" if "fixed_field 32 s = fixed_field 32 s'"
      "s \<in> {db, user, pw}" "s' \<in> {db', user', pw'}" for s s'
      using that \<open>\<forall>s \<in> {db, user, pw, db', user', pw'}. length s \<le> 32 \<and> 0 \<notin> set s\<close>
      by (intro fixed_field_inject [of s 32 s']) auto
    then show ?thesis by (auto simp: write_open_database_fields)
  qed
  then show ?thesis
    unfolding fixed_field_def [symmetric] by (simp add: write_open_database_fields)
qed

theorem open_database_request_witness:
  "(write_open_database (bytes_of ''demodb'') (bytes_of ''dba'') [] =
      write_open_database (bytes_of ''demodb'') (bytes_of ''db'') [] \<longleftrightarrow>
      bytes_of ''demodb'' = bytes_of ''demodb'' \<and> bytes_of ''dba'' = bytes_of ''db'' \<and> [] = ([] :: bytes))
    \<and> length (write_open_database (replicate 40 65) (bytes_of ''dba'') []) = 628"
  using open_database_request [of "bytes_of ''demodb''" "bytes_of ''dba''" "[]" "bytes_of ''demodb''"
      "bytes_of ''db''" "[]"] open_database_request [of "replicate 40 65" "bytes_of ''dba''" "[]" "[]" "[]" "[]"]
  by (simp add: bytes_of_def)

lemma low_six_bits: "(ucast (b AND 0x3F :: u8) :: i32) = word_of_nat (unat b mod 64)"
proof -
  have "b AND 0x3F = take_bit 6 b"
    by (simp add: take_bit_eq_mask mask_eq_exp_minus_1)
  then have "unat (b AND 0x3F) = take_bit 6 (unat b)"
    by (simp only: unsigned_take_bit_eq)
  then have "unat (b AND 0x3F) = unat b mod 64"
    by (simp add: take_bit_eq_mod)
  then show ?thesis by (metis of_nat_unat)
qed

lemma parse_open_response_extra:
  assumes "0 \<le> sint (rc :: i32)" and "length broker = 16"
  shows "parse_open_database (cas_bytes cas @ be_bytes 4 rc @ broker @ be_bytes 4 session @ extra) =
    Inr \<lparr>odr_cas_info = cas, odr_proto_version = word_of_nat (unat (broker ! 4) mod 64),
         odr_session_id = session\<rparr>"
proof -
  let ?out = "\<lparr>odr_cas_info = cas, odr_proto_version = ucast (broker ! 4 AND 0x3F),
    odr_session_id = session\<rparr>"
  have "broker \<noteq> []" using assms(2) by auto
  with assms have "decodes parse_open_database_body ?out
      (cas_bytes cas @ be_bytes 4 rc @ broker @ be_bytes 4 session)"
    unfolding handshake_heads
    by (intro decodes_response_head decodes_bind [OF decodes_raw_bytes]
        decodes_last [OF decodes_scalars(3)] decodes_ok) simp_all
  from decodes_run [OF this, of extra] show ?thesis
    by (simp add: parse_open_database_def run_parser_def low_six_bits)
qed

text \<open>
  The OpenDatabase response parser returns the CAS token, the protocol version as the
  low six bits of the fifth byte of the broker information, and the session id, whatever
  bytes follow.
\<close>

theorem open_database_response:
  assumes "0 \<le> sint (rc :: i32)" and "length broker = 16"
  shows "parse_open_database (cas_bytes cas @ be_bytes 4 rc @ broker @ be_bytes 4 session @ extra) =
    Inr \<lparr>odr_cas_info = cas, odr_proto_version = word_of_nat (unat (broker ! 4) mod 64),
         odr_session_id = session\<rparr>"
  by (rule parse_open_response_extra [OF assms])

theorem open_database_response_witness:
  "parse_open_database (cas_bytes (CAS 1 2 3 4) @ be_bytes 4 (0 :: i32) @
      [0, 0, 0, 0, 0xCC, 0, 0, 0, 0, 0, 0, 0, 0, 0, 0, 0] @ be_bytes 4 (77 :: i32) @ []) =
    Inr \<lparr>odr_cas_info = CAS 1 2 3 4,
         odr_proto_version = word_of_nat (unat ([0, 0, 0, 0, 0xCC, 0, 0, 0, 0, 0, 0, 0, 0, 0, 0, 0 :: u8] ! 4) mod 64),
         odr_session_id = 77\<rparr>"
  by (rule open_database_response) simp_all

end
