(* ===== verification/Responses.thy ===== *)
theory Responses
  imports Handshake
begin

text \<open>
  \<open>crates/cubrid-protocol/src/response.rs\<close>: the parsers of the response bodies. Each loop
  over a count from the wire first reserves \<open>count as usize\<close> elements, as the code does,
  and then runs the body \<open>count\<close> times (\<open>for _ in 0..count\<close>). What the parsers do on
  arbitrary bytes is proved here; \<open>Response_Format\<close> proves that they invert the format.
\<close>

section \<open>Column metadata\<close>

text \<open>\<open>let n = reader.parse_int()? as usize; reader.parse_null_term_string(n)?\<close>\<close>

definition parse_sized_string :: "bytes parser" where
  "parse_sized_string = and_then parse_int (\<lambda>len. parse_null_term_string (i32_as_usize len))"

definition parse_flag :: "bool parser" where
  "parse_flag = and_then parse_byte (\<lambda>b. ok (b = 1))"

definition parse_one_column :: "column_metadata parser" where
  "parse_one_column =
     and_then parse_byte (\<lambda>legacy_type.
     and_then (if legacy_type AND 0x80 \<noteq> 0 then parse_byte else ok legacy_type) (\<lambda>col_type.
     and_then (case data_type_from_u8 col_type of
                 None \<Rightarrow> throw (PE_UnsupportedType col_type) | Some t \<Rightarrow> ok t) (\<lambda>dt.
     and_then parse_short (\<lambda>scale.
     and_then parse_int (\<lambda>precision.
     and_then parse_sized_string (\<lambda>name.
     and_then parse_sized_string (\<lambda>real_name.
     and_then parse_sized_string (\<lambda>table_name.
     and_then parse_flag (\<lambda>is_nullable.
     and_then parse_sized_string (\<lambda>default_value.
     and_then parse_flag (\<lambda>is_auto_increment.
     and_then parse_flag (\<lambda>is_unique_key.
     and_then parse_flag (\<lambda>is_primary_key.
     and_then parse_byte (\<lambda>_.
     and_then parse_byte (\<lambda>_.
     and_then parse_flag (\<lambda>is_foreign_key.
     and_then parse_byte (\<lambda>_.
     ok \<lparr>column_type = dt, scale = scale, precision = precision, name = name,
          real_name = real_name, table_name = table_name, is_nullable = is_nullable,
          default_value = default_value, is_auto_increment = is_auto_increment,
          is_unique_key = is_unique_key, is_primary_key = is_primary_key,
          is_foreign_key = is_foreign_key\<rparr>)))))))))))))))))"

definition parse_column_metadata :: "i32 \<Rightarrow> column_metadata list parser" where
  "parse_column_metadata count =
     and_then (vec_with_capacity (i32_as_usize count)) (\<lambda>_.
     times_do (nat (sint count)) parse_one_column)"

section \<open>Result infos\<close>

definition parse_one_result_info :: "result_info parser" where
  "parse_one_result_info =
     and_then parse_byte (\<lambda>stmt_type_byte.
     let st = statement_type_from_u8 stmt_type_byte in
     and_then parse_int (\<lambda>count.
     and_then (parse_raw_bytes SIZE_OID) (\<lambda>oid.
     and_then parse_int (\<lambda>_.
     and_then parse_int (\<lambda>_.
     ok \<lparr>stmt_type = st, result_count = count, oid = oid\<rparr>)))))"

definition parse_result_infos :: "i32 \<Rightarrow> result_info list parser" where
  "parse_result_infos count =
     and_then (vec_with_capacity (i32_as_usize count)) (\<lambda>_.
     times_do (nat (sint count)) parse_one_result_info)"

section \<open>Values and rows\<close>

fun read_value :: "data_type \<Rightarrow> usize \<Rightarrow> db_value parser" where
  "read_value DT_Char n = and_then (parse_null_term_string n) (\<lambda>s. ok (V_String s))"
| "read_value DT_String n = and_then (parse_null_term_string n) (\<lambda>s. ok (V_String s))"
| "read_value DT_NChar n = and_then (parse_null_term_string n) (\<lambda>s. ok (V_String s))"
| "read_value DT_VarNChar n = and_then (parse_null_term_string n) (\<lambda>s. ok (V_String s))"
| "read_value DT_Enum n = and_then (parse_null_term_string n) (\<lambda>s. ok (V_String s))"
| "read_value DT_Numeric n = and_then (parse_null_term_string n) (\<lambda>s. ok (V_String s))"
| "read_value DT_Short n = and_then parse_short (\<lambda>v. ok (V_Short v))"
| "read_value DT_Int n = and_then parse_int (\<lambda>v. ok (V_Int v))"
| "read_value DT_Bigint n = and_then parse_long (\<lambda>v. ok (V_Long v))"
| "read_value DT_Float n = and_then parse_float (\<lambda>v. ok (V_Float v))"
| "read_value DT_Double n = and_then parse_double (\<lambda>v. ok (V_Double v))"
| "read_value DT_Monetary n = and_then parse_double (\<lambda>v. ok (V_Double v))"
| "read_value DT_Date n = and_then parse_date (\<lambda>(y, mo, d). ok (V_Date y mo d))"
| "read_value DT_Time n = and_then parse_time (\<lambda>(h, mi, s). ok (V_Time h mi s))"
| "read_value DT_Datetime n =
     and_then parse_datetime (\<lambda>(y, mo, d, h, mi, s, ms). ok (V_Datetime y mo d h mi s ms))"
| "read_value DT_Timestamp n =
     and_then parse_timestamp (\<lambda>(y, mo, d, h, mi, s). ok (V_Timestamp y mo d h mi s))"
| "read_value DT_Bit n = and_then (parse_raw_bytes n) (\<lambda>bs. ok (V_Bytes bs))"
| "read_value DT_VarBit n = and_then (parse_raw_bytes n) (\<lambda>bs. ok (V_Bytes bs))"
| "read_value DT_Blob n = and_then (parse_raw_bytes n) (\<lambda>bs. ok (V_Bytes bs))"
| "read_value DT_Clob n = and_then (parse_raw_bytes n) (\<lambda>bs. ok (V_Bytes bs))"
| "read_value DT_Null n = ok V_Null"
| "read_value DT_Set n = and_then (parse_raw_bytes n) (\<lambda>bs. ok (V_Bytes bs))"
| "read_value DT_Multiset n = and_then (parse_raw_bytes n) (\<lambda>bs. ok (V_Bytes bs))"
| "read_value DT_Sequence n = and_then (parse_raw_bytes n) (\<lambda>bs. ok (V_Bytes bs))"
| "read_value DT_Object n = and_then (parse_raw_bytes n) (\<lambda>bs. ok (V_Bytes bs))"

text \<open>The body of the loop over the columns of one row.\<close>

definition parse_cell :: "bool \<Rightarrow> column_metadata \<Rightarrow> db_value parser" where
  "parse_cell is_call_type col =
     and_then parse_int (\<lambda>size.
     if sint size \<le> 0 then ok V_Null
     else
       let actual_size = i32_as_usize size; col_type = column_type col in
       if is_call_type \<or> col_type = DT_Null then
         and_then parse_byte (\<lambda>type_byte.
         let actual_size = actual_size - 1 in
         if actual_size = 0 then ok V_Null
         else
           (case data_type_from_u8 type_byte of
              Some dt \<Rightarrow> read_value dt actual_size
            | None \<Rightarrow> and_then (parse_raw_bytes actual_size) (\<lambda>bs. ok (V_Bytes bs))))
       else read_value col_type actual_size)"

definition parse_one_row :: "bool \<Rightarrow> column_metadata list \<Rightarrow> row parser" where
  "parse_one_row is_call_type columns =
     and_then parse_int (\<lambda>_.
     and_then (skip SIZE_OID) (\<lambda>_.
     map_do (parse_cell is_call_type) columns))"

definition parse_row_data ::
  "i32 \<Rightarrow> column_metadata list \<Rightarrow> statement_type \<Rightarrow> row list parser" where
  "parse_row_data tuple_count columns st =
     (let is_call_type = is_call st in
      and_then (vec_with_capacity (i32_as_usize tuple_count)) (\<lambda>_.
      times_do (nat (sint tuple_count)) (parse_one_row is_call_type columns)))"

section \<open>Response parsers\<close>

text \<open>
  The optional fields after the result infos, and the rows that a SELECT response carries.
  \<open>parse_execute\<close> reads rows only when columns are known (\<open>need_columns\<close>).
\<close>

definition parse_version_fields :: "i32 \<Rightarrow> unit parser" where
  "parse_version_fields proto_version =
     and_then (if sint proto_version > 1 then and_then parse_byte (\<lambda>_. ok ()) else ok ()) (\<lambda>_.
     (if sint proto_version > 4 then and_then parse_int (\<lambda>_. ok ()) else ok ()))"

definition parse_inline_rows ::
  "bool \<Rightarrow> column_metadata list \<Rightarrow> statement_type \<Rightarrow> (i32 \<times> row list) parser" where
  "parse_inline_rows need_columns columns st =
     and_then remaining_now (\<lambda>rem.
     if is_select st \<and> rem \<ge> SIZE_INT * 2 then
       and_then parse_int (\<lambda>_.
       and_then parse_int (\<lambda>tuple_count.
       if sint tuple_count > 0 \<and> (need_columns \<longrightarrow> columns \<noteq> []) then
         and_then (parse_row_data tuple_count columns st) (\<lambda>rows. ok (tuple_count, rows))
       else ok (tuple_count, [])))
     else ok (0, []))"

definition parse_prepare_and_execute_body ::
  "i32 \<Rightarrow> (prepare_and_execute_result \<times> cas_info) parser" where
  "parse_prepare_and_execute_body proto_version =
     response_head (\<lambda>cas query_handle.
     and_then parse_int (\<lambda>_.
     and_then parse_byte (\<lambda>stmt_type_byte.
     let st = statement_type_from_u8 stmt_type_byte in
     and_then parse_int (\<lambda>bind_count.
     and_then parse_byte (\<lambda>_.
     and_then parse_int (\<lambda>col_count.
     and_then (parse_column_metadata col_count) (\<lambda>columns.
     and_then parse_int (\<lambda>total_tuple_count.
     and_then parse_byte (\<lambda>_.
     and_then parse_int (\<lambda>result_count.
     and_then (parse_result_infos result_count) (\<lambda>result_infos.
     and_then (parse_version_fields proto_version) (\<lambda>_.
     and_then (parse_inline_rows False columns st) (\<lambda>(tuple_count, rows).
     ok (\<lparr>pae_query_handle = query_handle, pae_statement_type = st, pae_bind_count = bind_count,
           pae_columns = columns, pae_total_tuple_count = total_tuple_count,
           pae_result_infos = result_infos, pae_tuple_count = tuple_count, pae_rows = rows\<rparr>,
         cas))))))))))))))"

definition parse_prepare_and_execute ::
  "bytes \<Rightarrow> i32 \<Rightarrow> (protocol_error, prepare_and_execute_result \<times> cas_info) outcome" where
  "parse_prepare_and_execute data proto_version =
     run_parser (parse_prepare_and_execute_body proto_version) data"

definition parse_prepare_body :: "(prepare_result \<times> cas_info) parser" where
  "parse_prepare_body =
     response_head (\<lambda>cas query_handle.
     and_then parse_int (\<lambda>_.
     and_then parse_byte (\<lambda>stmt_type_byte.
     let st = statement_type_from_u8 stmt_type_byte in
     and_then parse_int (\<lambda>bind_count.
     and_then parse_byte (\<lambda>_.
     and_then parse_int (\<lambda>col_count.
     and_then (parse_column_metadata col_count) (\<lambda>columns.
     ok (\<lparr>prep_query_handle = query_handle, prep_statement_type = st,
           prep_bind_count = bind_count, prep_columns = columns\<rparr>, cas))))))))"

definition parse_prepare :: "bytes \<Rightarrow> (protocol_error, prepare_result \<times> cas_info) outcome" where
  "parse_prepare data = run_parser parse_prepare_body data"

definition parse_execute_body ::
  "column_metadata list \<Rightarrow> statement_type \<Rightarrow> i32 \<Rightarrow> (execute_result \<times> cas_info) parser" where
  "parse_execute_body columns st proto_version =
     response_head (\<lambda>cas total_tuple_count.
     and_then parse_byte (\<lambda>_.
     and_then parse_int (\<lambda>result_count.
     and_then (parse_result_infos result_count) (\<lambda>result_infos.
     and_then (parse_version_fields proto_version) (\<lambda>_.
     and_then (parse_inline_rows True columns st) (\<lambda>(tuple_count, rows).
     ok (\<lparr>exec_total_tuple_count = total_tuple_count, exec_result_infos = result_infos,
           exec_tuple_count = tuple_count, exec_rows = rows\<rparr>, cas)))))))"

definition parse_execute ::
  "bytes \<Rightarrow> column_metadata list \<Rightarrow> statement_type \<Rightarrow> i32 \<Rightarrow>
     (protocol_error, execute_result \<times> cas_info) outcome" where
  "parse_execute data columns st proto_version =
     run_parser (parse_execute_body columns st proto_version) data"

definition parse_fetch_body ::
  "column_metadata list \<Rightarrow> statement_type \<Rightarrow> (fetch_result \<times> cas_info) parser" where
  "parse_fetch_body columns st =
     response_head (\<lambda>cas _.
     and_then parse_int (\<lambda>tuple_count.
     and_then (if sint tuple_count > 0 \<and> columns \<noteq> [] then parse_row_data tuple_count columns st
               else ok []) (\<lambda>rows.
     ok (\<lparr>fetch_tuple_count = tuple_count, fetch_rows = rows\<rparr>, cas))))"

definition parse_fetch ::
  "bytes \<Rightarrow> column_metadata list \<Rightarrow> statement_type \<Rightarrow>
     (protocol_error, fetch_result \<times> cas_info) outcome" where
  "parse_fetch data columns st = run_parser (parse_fetch_body columns st) data"

definition parse_get_last_insert_id_body :: "(bytes \<times> cas_info) parser" where
  "parse_get_last_insert_id_body =
     response_head (\<lambda>cas code.
     and_then (if sint code > 0 then parse_null_term_string (i32_as_usize code) else ok []) (\<lambda>id.
     ok (id, cas)))"

definition parse_get_last_insert_id :: "bytes \<Rightarrow> (protocol_error, bytes \<times> cas_info) outcome" where
  "parse_get_last_insert_id data = run_parser parse_get_last_insert_id_body data"

section \<open>Panics\<close>

lemma tame_with_capacity:
  "tame {Capacity_Overflow} (vec_with_capacity n)"
  "n \<le> isize_MAX \<Longrightarrow> tame A (vec_with_capacity n)"
  by (simp_all add: vec_with_capacity_def tame_ok tame_panic)

lemma capacity_of_count: "0 \<le> sint n \<Longrightarrow> i32_as_usize n \<le> isize_MAX"
  using sint_i32_bounds [of n] by (simp add: i32_as_usize_nonneg isize_MAX_def)

lemma capacity_of_negative: "sint n < 0 \<Longrightarrow> i32_as_usize n > isize_MAX"
  using i32_as_usize_neg [of n] by (simp add: isize_MAX_def)

lemma tame_columns [tame_intros]: "tame A parse_one_column"
  unfolding parse_one_column_def parse_sized_string_def parse_flag_def
  by (intro tame_intros)

lemma tame_result_info [tame_intros]: "tame A parse_one_result_info"
  unfolding parse_one_result_info_def Let_def by (intro tame_intros)

lemma tame_read_value [tame_intros]: "tame A (read_value dt n)"
  by (cases dt) (auto intro!: tame_intros)

lemma tame_cell [tame_intros]: "tame A (parse_cell c col)"
  unfolding parse_cell_def Let_def by (intro tame_intros)

lemma tame_row [tame_intros]: "tame A (parse_one_row c cols)"
  unfolding parse_one_row_def by (intro tame_intros)

lemma tame_counted [tame_intros]:
  "tame {Capacity_Overflow} (parse_column_metadata n)"
  "tame {Capacity_Overflow} (parse_result_infos n)"
  "0 \<le> sint n \<Longrightarrow> tame A (parse_row_data n cols st)"
  unfolding parse_column_metadata_def parse_result_infos_def parse_row_data_def Let_def
  by (auto intro!: tame_intros tame_with_capacity capacity_of_count)

lemma tame_inline_rows [tame_intros]:
  "tame A (parse_inline_rows nc cols st)" "tame A (parse_version_fields v)"
  unfolding parse_inline_rows_def parse_version_fields_def by (auto intro!: tame_intros)

lemma tame_open_database_body: "tame {} parse_open_database_body"
  unfolding handshake_heads by (intro tame_intros; simp)

lemma tame_get_db_version_body: "tame {} parse_get_db_version_body"
  unfolding handshake_heads by (intro tame_intros; simp)

lemma tame_fetch_body: "tame {} (parse_fetch_body cols st)"
  unfolding parse_fetch_body_def by (intro tame_intros; simp)

lemma tame_last_insert_id_body: "tame {} parse_get_last_insert_id_body"
  unfolding parse_get_last_insert_id_body_def by (intro tame_intros; simp)

lemma tame_prepare_and_execute_body: "tame {Capacity_Overflow} (parse_prepare_and_execute_body v)"
  unfolding parse_prepare_and_execute_body_def Let_def by (intro tame_intros; simp)

lemma tame_prepare_body: "tame {Capacity_Overflow} parse_prepare_body"
  unfolding parse_prepare_body_def Let_def by (intro tame_intros; simp)

lemma tame_execute_body: "tame {Capacity_Overflow} (parse_execute_body cols st v)"
  unfolding parse_execute_body_def by (intro tame_intros; simp)

lemmas tame_bodies =
  tame_open_database_body tame_get_db_version_body tame_fetch_body tame_last_insert_id_body
  tame_prepare_and_execute_body tame_prepare_body tame_execute_body

fun panics_of :: "('e, 'a) outcome \<Rightarrow> panic set" where
  "panics_of (Inl (Panic q)) = {q}"
| "panics_of (Inl (Err e)) = {}"
| "panics_of (Inr x) = {}"

lemma panics_of_tame: "tame A p \<Longrightarrow> panics_of (run_parser p data) \<subseteq> A"
  using run_tame [of A p data] by (cases "run_parser p data" rule: panics_of.cases) auto

text \<open>
  C2. No byte sequence from the network makes a response parser panic, with one exception:
  no parser ever indexes or slices outside the packet, and the only panic, in the parsers
  that reserve room for a count from the wire (FC=41, FC=2 and FC=3), is the capacity overflow.
  The parsers of the handshake, of FC=8, FC=15 and FC=40 never panic.
\<close>

theorem parsers_do_not_panic:
  "panics_of (parse_open_database data) = {}
   \<and> panics_of (parse_get_db_version data) = {}
   \<and> panics_of (parse_fetch data cols st) = {}
   \<and> panics_of (parse_get_last_insert_id data) = {}
   \<and> panics_of (parse_prepare_and_execute data v) \<subseteq> {Capacity_Overflow}
   \<and> panics_of (parse_prepare data) \<subseteq> {Capacity_Overflow}
   \<and> panics_of (parse_execute data cols st v) \<subseteq> {Capacity_Overflow}"
  using tame_bodies [THEN panics_of_tame [where data = data]]
  unfolding parse_open_database_def parse_get_db_version_def parse_fetch_def
    parse_get_last_insert_id_def parse_prepare_and_execute_def parse_prepare_def parse_execute_def
  by blast

text \<open>
  C38. The exception is real: a prepare response that announces a negative number of columns
  makes the parser panic, whatever else it holds; a negative number of results in an
  execute response does the same. No error is returned to the caller.
\<close>

theorem negative_count_panics:
  assumes "0 \<le> sint (h :: i32)" and "sint (n :: i32) < 0"
  shows "parse_prepare (cas_bytes cas @ be_bytes 4 h @ be_bytes 4 (lifetime :: i32) @ [ty]
           @ be_bytes 4 (binds :: i32) @ [upd] @ be_bytes 4 n @ extra) = Inl (Panic Capacity_Overflow)
    \<and> parse_execute (cas_bytes cas @ be_bytes 4 h @ [reuse] @ be_bytes 4 n @ extra) cols st v
        = Inl (Panic Capacity_Overflow)"
proof
  note step = decodes_stepI [OF decodes_scalars(3)] decodes_stepI [OF decodes_scalars(1)]
  show "parse_prepare (cas_bytes cas @ be_bytes 4 h @ be_bytes 4 (lifetime :: i32) @ [ty]
           @ be_bytes 4 (binds :: i32) @ [upd] @ be_bytes 4 n @ extra) = Inl (Panic Capacity_Overflow)"
    using assms
    by (simp add: parse_prepare_def run_parser_def parse_prepare_body_def response_head_run Let_def
        step(1) [of _ lifetime] step(1) [of _ binds] step(1) [of _ n] step(2) [of _ ty]
        step(2) [of _ upd] parse_column_metadata_def vec_with_capacity_def capacity_of_negative
        and_then_Inl)
  show "parse_execute (cas_bytes cas @ be_bytes 4 h @ [reuse] @ be_bytes 4 n @ extra) cols st v
        = Inl (Panic Capacity_Overflow)"
    using assms
    by (simp add: parse_execute_def run_parser_def parse_execute_body_def response_head_run
        step(1) [of _ n] step(2) [of _ reuse] parse_result_infos_def vec_with_capacity_def
        capacity_of_negative)
qed

theorem negative_count_panics_witness:
  "parse_prepare (cas_bytes (CAS 0 0 0 1) @ be_bytes 4 (1 :: i32) @ be_bytes 4 (0 :: i32) @ [21]
           @ be_bytes 4 (0 :: i32) @ [0] @ be_bytes 4 (- 1 :: i32) @ []) = Inl (Panic Capacity_Overflow)
    \<and> parse_execute (cas_bytes (CAS 0 0 0 1) @ be_bytes 4 (1 :: i32) @ [0] @ be_bytes 4 (- 1 :: i32) @ [])
        [] ST_Select 1 = Inl (Panic Capacity_Overflow)"
  by (rule negative_count_panics) simp_all

section \<open>Error responses\<close>

lemmas bodies_as_heads = handshake_heads parse_fetch_body_def parse_get_last_insert_id_body_def
  parse_prepare_and_execute_body_def parse_prepare_body_def parse_execute_body_def

lemmas parsers_as_runs = parse_open_database_def parse_get_db_version_def parse_fetch_def
  parse_get_last_insert_id_def parse_prepare_and_execute_def parse_prepare_def parse_execute_def

end
