(* ===== verification/Response_Format.thy ===== *)
theory Response_Format
  imports Responses
begin

text \<open>
  The wire format of the responses, as the comments of
  \<open>crates/cubrid-protocol/src/response.rs\<close> give it, and the proof that the parsers invert
  it: strings, column metadata, result infos, cells, rows and whole responses.
\<close>

section \<open>Strings, columns and result infos\<close>

text \<open>A string field: its length with the terminating zero, the bytes, the zero.\<close>

definition string_ok :: "bytes \<Rightarrow> bool" where
  "string_ok s \<longleftrightarrow> wf_str s \<and> length s < 2 ^ 31 - 2"

definition enc_string :: "bytes \<Rightarrow> bytes" where
  "enc_string s = prefixed (s @ [0])"

lemma i32_as_usize_usize_as_i32 [simp]: "n < 2 ^ 31 \<Longrightarrow> i32_as_usize (usize_as_i32 n) = n"
  by (rule i32_as_usize_as_i32)

lemma decodes_sized_string: "string_ok s \<Longrightarrow> decodes parse_sized_string s (enc_string s)"
  unfolding parse_sized_string_def enc_string_def prefixed_def
  using decodes_string [of s "length s + 1" 1]
  by (intro decodes_bind [OF decodes_scalars(3)]) (simp add: string_ok_def)

lemma tame_sized_string [tame_intros]: "tame A parse_sized_string"
  unfolding parse_sized_string_def by (intro tame_intros)

interpretation sized_string: wire_codec enc_string parse_sized_string string_ok
  by unfold_locales (simp_all add: decodes_sized_string tame_sized_string)

lemma decodes_ok_eq: "x = y \<Longrightarrow> decodes (ok x) y []"
  by (simp only: decodes_ok)

lemma decodes_flag: "decodes parse_flag b [bool_byte b]"
  unfolding parse_flag_def
  by (rule decodes_last [OF decodes_scalars(1)]) (simp add: bool_byte_def decodes_ok del: ok_apply)

text \<open>
  A column: its type code, directly or behind a byte with the marker bit, and the fields in
  the order of the comment of \<open>parse_column_metadata\<close>; the three skipped bytes are arbitrary.
\<close>

definition column_ok :: "column_metadata \<Rightarrow> bool" where
  "column_ok c \<longleftrightarrow> list_all string_ok [name c, real_name c, table_name c, default_value c]"

definition enc_column :: "u8 option \<Rightarrow> u8 \<times> u8 \<times> u8 \<Rightarrow> column_metadata \<Rightarrow> bytes" where
  "enc_column marker pad c =
     (case marker of None \<Rightarrow> [] | Some m \<Rightarrow> [0x80 OR m]) @ [data_type_u8 (column_type c)]
     @ be_bytes 2 (scale c) @ be_bytes 4 (precision c)
     @ enc_string (name c) @ enc_string (real_name c) @ enc_string (table_name c)
     @ [bool_byte (is_nullable c)] @ enc_string (default_value c)
     @ [bool_byte (is_auto_increment c)] @ [bool_byte (is_unique_key c)]
     @ [bool_byte (is_primary_key c)] @ [fst pad] @ [fst (snd pad)]
     @ [bool_byte (is_foreign_key c)] @ [snd (snd pad)]"

lemma marker_is_extended: "(0x80 OR m) AND 0x80 \<noteq> (0 :: u8)"
proof -
  have "bit ((0x80 OR m) AND 0x80 :: u8) 7" by (simp add: bit_simps)
  then show ?thesis by (metis bit_0_eq bot_apply bot_bool_def)
qed

lemma data_type_u8_not_extended: "data_type_u8 t AND 0x80 = 0"
  by (cases t) simp_all

lemma decodes_column_type:
  fixes marker :: "u8 option"
  assumes "decodes (f t) x bs"
  shows "decodes (and_then parse_byte (\<lambda>legacy_type.
     and_then (if legacy_type AND 0x80 \<noteq> 0 then parse_byte else ok legacy_type) (\<lambda>col_type.
     and_then (case data_type_from_u8 col_type of
                 None \<Rightarrow> throw (PE_UnsupportedType col_type) | Some t \<Rightarrow> ok t) f))) x
     (((case marker of None \<Rightarrow> [] | Some m \<Rightarrow> [0x80 OR m]) @ [data_type_u8 t]) @ bs)"
proof (cases marker)
  case (Some m)
  have "decodes (and_then parse_byte (\<lambda>col_type.
     and_then (case data_type_from_u8 col_type of
                 None \<Rightarrow> throw (PE_UnsupportedType col_type) | Some t \<Rightarrow> ok t) f)) x
     ([data_type_u8 t] @ bs)"
    using assms by (intro decodes_bind [OF decodes_scalars(1)]) auto
  then have "decodes (and_then parse_byte (\<lambda>legacy_type.
     and_then (if legacy_type AND 0x80 \<noteq> 0 then parse_byte else ok legacy_type) (\<lambda>col_type.
     and_then (case data_type_from_u8 col_type of
                 None \<Rightarrow> throw (PE_UnsupportedType col_type) | Some t \<Rightarrow> ok t) f))) x
     ([0x80 OR m] @ [data_type_u8 t] @ bs)"
    by (intro decodes_bind [OF decodes_scalars(1)]) (simp add: marker_is_extended)
  with Some show ?thesis by simp
next
  case None
  have "decodes (and_then parse_byte (\<lambda>legacy_type.
     and_then (if legacy_type AND 0x80 \<noteq> 0 then parse_byte else ok legacy_type) (\<lambda>col_type.
     and_then (case data_type_from_u8 col_type of
                 None \<Rightarrow> throw (PE_UnsupportedType col_type) | Some t \<Rightarrow> ok t) f))) x
     ([data_type_u8 t] @ bs)"
    using assms
    by (intro decodes_bind [OF decodes_scalars(1)]) (auto simp: data_type_u8_not_extended)
  with None show ?thesis by simp
qed

lemma decodes_one_column:
  assumes "column_ok c"
  shows "decodes parse_one_column c (enc_column marker pad c)"
proof -
  have s: "string_ok (name c)" "string_ok (real_name c)" "string_ok (table_name c)"
    "string_ok (default_value c)"
    using assms by (simp_all add: column_ok_def)
  show ?thesis
    unfolding parse_one_column_def enc_column_def append_assoc [symmetric, of _ "[data_type_u8 _]"]
    by (rule decodes_column_type decodes_bind decodes_last decodes_scalars decodes_flag
        s [THEN decodes_sized_string] decodes_ok_eq)+ simp
qed

interpretation column: wire_codec "enc_column marker pad" parse_one_column column_ok
  for marker :: "u8 option" and pad :: "u8 \<times> u8 \<times> u8"
  by unfold_locales (simp_all add: decodes_one_column tame_columns)

text \<open>A result info; the cache time after the object identifier is arbitrary.\<close>

definition result_info_ok :: "result_info \<Rightarrow> bool" where
  "result_info_ok i \<longleftrightarrow> length (oid i) = 8"

definition enc_result_info :: "i32 \<Rightarrow> i32 \<Rightarrow> result_info \<Rightarrow> bytes" where
  "enc_result_info sec usec i =
     [statement_type_u8 (stmt_type i)] @ be_bytes 4 (result_count i) @ oid i
     @ be_bytes 4 sec @ be_bytes 4 usec"

lemma decodes_one_result_info:
  assumes "result_info_ok i"
  shows "decodes parse_one_result_info i (enc_result_info sec usec i)"
proof -
  have o: "length (oid i) = SIZE_OID" "oid i \<noteq> []"
    using assms by (auto simp: result_info_ok_def)
  show ?thesis
    unfolding parse_one_result_info_def enc_result_info_def Let_def
    by (rule decodes_bind decodes_last decodes_scalars decodes_raw_bytes [OF o]
        decodes_ok_eq)+ simp_all
qed

interpretation result_info: wire_codec "enc_result_info sec usec" parse_one_result_info result_info_ok
  for sec usec :: i32
  by unfold_locales (simp_all add: decodes_one_result_info tame_result_info)

lemma decodes_counted:
  assumes "decodes (times_do (length xs) p) xs bs" and "length xs < 2 ^ 31"
  shows "decodes (and_then (vec_with_capacity (i32_as_usize (usize_as_i32 (length xs)))) (\<lambda>_.
           times_do (nat (sint (usize_as_i32 (length xs)))) p)) xs bs"
  using assms by (simp add: vec_with_capacity_def isize_MAX_def sint_usize_as_i32)

lemma decodes_columns:
  "list_all column_ok cs \<Longrightarrow> length cs < 2 ^ 31 \<Longrightarrow>
     decodes (parse_column_metadata (usize_as_i32 (length cs))) cs
       (concat (map (enc_column marker pad) cs))"
  unfolding parse_column_metadata_def by (intro decodes_counted column.decodes_list)

lemma decodes_result_infos:
  "list_all result_info_ok infos \<Longrightarrow> length infos < 2 ^ 31 \<Longrightarrow>
     decodes (parse_result_infos (usize_as_i32 (length infos))) infos
       (concat (map (enc_result_info sec usec) infos))"
  unfolding parse_result_infos_def by (intro decodes_counted result_info.decodes_list)

section \<open>Cells\<close>

text \<open>The bytes of a value in a row, and the column types under which they are read back.\<close>

fun enc_value :: "db_value \<Rightarrow> bytes" where
  "enc_value (V_Short v) = be_bytes 2 v"
| "enc_value (V_Int v) = be_bytes 4 v"
| "enc_value (V_Long v) = be_bytes 8 v"
| "enc_value (V_Float v) = be_bytes 4 v"
| "enc_value (V_Double v) = be_bytes 8 v"
| "enc_value (V_String s) = s @ [0]"
| "enc_value (V_Bytes bs) = bs"
| "enc_value (V_Date y mo d) = be_bytes 2 y @ be_bytes 2 mo @ be_bytes 2 d"
| "enc_value (V_Time h mi s) = be_bytes 2 h @ be_bytes 2 mi @ be_bytes 2 s"
| "enc_value (V_Timestamp y mo d h mi s) =
     be_bytes 2 y @ be_bytes 2 mo @ be_bytes 2 d @ be_bytes 2 h @ be_bytes 2 mi @ be_bytes 2 s"
| "enc_value (V_Datetime y mo d h mi s ms) =
     be_bytes 2 y @ be_bytes 2 mo @ be_bytes 2 d @ be_bytes 2 h @ be_bytes 2 mi @ be_bytes 2 s
     @ be_bytes 2 ms"
| "enc_value _ = []"

fun fits :: "data_type \<Rightarrow> db_value \<Rightarrow> bool" where
  "fits t (V_Short v) = (t = DT_Short)"
| "fits t (V_Int v) = (t = DT_Int)"
| "fits t (V_Long v) = (t = DT_Bigint)"
| "fits t (V_Float v) = (t = DT_Float)"
| "fits t (V_Double v) = (t \<in> {DT_Double, DT_Monetary})"
| "fits t (V_String s) =
     (t \<in> {DT_Char, DT_String, DT_NChar, DT_VarNChar, DT_Enum, DT_Numeric} \<and> string_ok s)"
| "fits t (V_Bytes bs) =
     (t \<in> {DT_Bit, DT_VarBit, DT_Blob, DT_Clob, DT_Set, DT_Multiset, DT_Sequence, DT_Object}
      \<and> bs \<noteq> [] \<and> length bs < 2 ^ 31 - 1)"
| "fits t (V_Date y mo d) = (t = DT_Date)"
| "fits t (V_Time h mi s) = (t = DT_Time)"
| "fits t (V_Timestamp y mo d h mi s) = (t = DT_Timestamp)"
| "fits t (V_Datetime y mo d h mi s ms) = (t = DT_Datetime)"
| "fits t V_Null = False"
| "fits t (V_Bool b) = False"

lemma fits_length: "fits t v \<Longrightarrow> 0 < length (enc_value v) \<and> length (enc_value v) < 2 ^ 31 - 1"
  by (cases v) (auto simp: string_ok_def)

lemma decodes_value: "fits t v \<Longrightarrow> n = length (enc_value v) \<Longrightarrow> decodes (read_value t n) v (enc_value v)"
  using decodes_string [where k = 1 and s = "case v of V_String s \<Rightarrow> s | _ \<Rightarrow> []" and n = n]
  by (cases v)
    (auto simp: string_ok_def intro!: decodes_last decodes_scalars decodes_raw_bytes decodes_dates
      decodes_ok_eq)

text \<open>
  A cell of a typed column, and a cell that names its own type (in CALL results and in
  columns of type \<open>NULL\<close>).
\<close>

definition self_typed :: "bool \<Rightarrow> column_metadata \<Rightarrow> bool" where
  "self_typed is_call_type col \<longleftrightarrow> is_call_type \<or> column_type col = DT_Null"

definition enc_cell :: "bool \<Rightarrow> column_metadata \<Rightarrow> data_type \<times> db_value \<Rightarrow> bytes" where
  "enc_cell is_call_type col = (\<lambda>(t, v).
     if v = V_Null then be_bytes 4 (0 :: i32)
     else prefixed ((if self_typed is_call_type col then [data_type_u8 t] else []) @ enc_value v))"

definition cell_ok :: "bool \<Rightarrow> column_metadata \<Rightarrow> data_type \<times> db_value \<Rightarrow> bool" where
  "cell_ok is_call_type col = (\<lambda>(t, v).
     v = V_Null \<or> (fits t v \<and> (\<not> self_typed is_call_type col \<longrightarrow> t = column_type col)))"

lemma decodes_cell:
  assumes "cell_ok c col (t, v)"
  shows "decodes (parse_cell c col) v (enc_cell c col (t, v))"
proof (cases "v = V_Null")
  case True
  then show ?thesis
    unfolding parse_cell_def enc_cell_def
    by (simp del: ok_apply) (rule decodes_last [OF decodes_scalars(3)], simp add: decodes_ok del: ok_apply)
next
  case False
  with assms have f: "fits t v" and ty: "\<not> self_typed c col \<Longrightarrow> column_type col = t"
    by (auto simp: cell_ok_def)
  note len = fits_length [OF f]
  show ?thesis
  proof (cases "self_typed c col")
    case True
    let ?body = "data_type_u8 t # enc_value v"
    have "decodes (parse_cell c col) v (be_bytes 4 (usize_as_i32 (length ?body)) @ [data_type_u8 t] @ enc_value v)"
      unfolding parse_cell_def Let_def
      using True len
      by (intro decodes_bind [OF decodes_scalars(3)])
        (auto simp: self_typed_def sint_usize_as_i32
          intro!: decodes_bind [OF decodes_scalars(1), of _ "data_type_u8 t", simplified] decodes_value [OF f])
    with True False show ?thesis by (simp add: enc_cell_def prefixed_def)
  next
    case nst: False
    have "decodes (parse_cell c col) v (be_bytes 4 (usize_as_i32 (length (enc_value v))) @ enc_value v)"
      unfolding parse_cell_def Let_def
      using nst len ty f
      by (intro decodes_bind [OF decodes_scalars(3)])
        (auto simp: self_typed_def sint_usize_as_i32 intro!: decodes_value)
    with nst False show ?thesis by (simp add: enc_cell_def prefixed_def)
  qed
qed

section \<open>Rows\<close>

text \<open>A row on the wire: its index, its object identifier and its typed cells.\<close>

type_synonym wire_row = "i32 \<times> bytes \<times> (data_type \<times> db_value) list"

definition row_values :: "wire_row \<Rightarrow> row" where
  "row_values = (\<lambda>(idx, oid, cells). map snd cells)"

definition enc_row :: "bool \<Rightarrow> column_metadata list \<Rightarrow> wire_row \<Rightarrow> bytes" where
  "enc_row c cols = (\<lambda>(idx, oid, cells).
     be_bytes 4 idx @ oid @ concat (map2 (enc_cell c) cols cells))"

definition row_ok :: "bool \<Rightarrow> column_metadata list \<Rightarrow> wire_row \<Rightarrow> bool" where
  "row_ok c cols = (\<lambda>(idx, oid, cells). length oid = 8 \<and> list_all2 (cell_ok c) cols cells)"

lemma decodes_cells:
  "list_all2 (cell_ok c) cols cells \<Longrightarrow>
     decodes (map_do (parse_cell c) cols) (map snd cells) (concat (map2 (enc_cell c) cols cells))"
proof (induction cols cells rule: list_all2_induct)
  case Nil
  show ?case by (simp only: map_do.simps zip_Nil list.map concat.simps decodes_ok)
next
  case (Cons col cols cell cells)
  obtain t v where cell: "cell = (t, v)" by (cases cell)
  from Cons have "decodes (parse_cell c col) v (enc_cell c col cell)"
    by (simp add: cell decodes_cell)
  from decodes_bind [OF this decodes_last [OF Cons.IH decodes_ok]]
  show ?case by (simp add: cell del: ok_apply)
qed

lemma decodes_row:
  assumes "row_ok c cols w"
  shows "decodes (parse_one_row c cols) (row_values w) (enc_row c cols w)"
proof -
  obtain idx oid cells where w: "w = (idx, oid, cells)" by (cases w)
  with assms have o: "length oid = SIZE_OID" and cs: "list_all2 (cell_ok c) cols cells"
    by (simp_all add: row_ok_def)
  show ?thesis
    unfolding parse_one_row_def enc_row_def row_values_def w prod.case
    by (rule decodes_bind decodes_scalars decodes_skip [OF o] decodes_cells [OF cs])+
qed

lemma decodes_rows:
  assumes "list_all (row_ok (is_call st) cols) ws" and "length ws < 2 ^ 31"
  shows "decodes (parse_row_data (usize_as_i32 (length ws)) cols st) (map row_values ws)
           (concat (map (enc_row (is_call st) cols) ws))"
proof -
  have "decodes (times_do (length (map row_values ws)) (parse_one_row (is_call st) cols))
      (map row_values ws) (concat (map (enc_row (is_call st) cols) ws))"
    using assms(1)
    by (intro decodes_times_do)
      (simp add: list_all2_map1 list_all2_map2 list_all2_same list_all_iff decodes_row)
  from decodes_counted [OF this] assms(2) show ?thesis
    by (simp add: parse_row_data_def Let_def)
qed

section \<open>Responses\<close>

definition enc_version_fields :: "i32 \<Rightarrow> u8 \<Rightarrow> i32 \<Rightarrow> bytes" where
  "enc_version_fields v column_info shard =
     (if sint v > 1 then [column_info] else []) @ (if sint v > 4 then be_bytes 4 shard else [])"

definition enc_inline_rows ::
  "column_metadata list \<Rightarrow> statement_type \<Rightarrow> i32 \<Rightarrow> wire_row list \<Rightarrow> bytes" where
  "enc_inline_rows cols st fetch_code ws =
     (if is_select st
      then be_bytes 4 fetch_code @ be_bytes 4 (usize_as_i32 (length ws))
           @ concat (map (enc_row (is_call st) cols) ws)
      else [])"

lemma decodes_version_fields: "decodes (parse_version_fields v) () (enc_version_fields v ci shard)"
proof -
  have "decodes (and_then parse_byte (\<lambda>_. ok ())) () [ci]"
    and "decodes (and_then parse_int (\<lambda>_. ok ())) () (be_bytes 4 shard)"
    by (rule decodes_last decodes_scalars decodes_ok)+
  then show ?thesis
    unfolding parse_version_fields_def enc_version_fields_def
    by (intro decodes_bind) (auto simp: decodes_ok simp del: ok_apply)
qed

lemma decodes_when_remaining:
  assumes "decodes p x bs" and "n \<le> length bs" and b
  shows "decodes (and_then remaining_now (\<lambda>rem. if b \<and> rem \<ge> n then p else q)) x bs"
  using assms
  by (auto simp: decodes_def and_then_def remaining_now_def remaining_rest)

lemma decodes_inline_rows:
  assumes ws: "list_all (row_ok (is_call st) cols) ws" "length ws < 2 ^ 31" "\<not> is_select st \<longrightarrow> ws = []"
    and nc: "nc \<longrightarrow> cols \<noteq> []"
  shows "decodes (parse_inline_rows nc cols st)
      (if is_select st then usize_as_i32 (length ws) else 0, map row_values ws)
      (enc_inline_rows cols st fc ws)"
proof (cases "is_select st")
  case False
  have "decodes (and_then remaining_now (\<lambda>rem. if is_select st \<and> SIZE_INT * 2 \<le> rem then p else ok y)) y []"
    for p :: "(i32 \<times> row list) parser" and y
    using False by (auto simp: decodes_def and_then_def remaining_now_def)
  with False ws show ?thesis
    by (simp add: parse_inline_rows_def enc_inline_rows_def del: ok_apply SIZE_INT_def)
next
  case True
  let ?n = "usize_as_i32 (length ws)"
  have "decodes (if sint ?n > 0 \<and> (nc \<longrightarrow> cols \<noteq> []) then
         and_then (parse_row_data ?n cols st) (\<lambda>rows. ok (?n, rows)) else ok (?n, []))
       (?n, map row_values ws) (concat (map (enc_row (is_call st) cols) ws))"
  proof (cases "ws = []")
    case True
    with ws show ?thesis by (simp add: sint_usize_as_i32 decodes_ok del: ok_apply)
  next
    case False
    with ws nc have g: "sint ?n > 0 \<and> (nc \<longrightarrow> cols \<noteq> [])" by (simp add: sint_usize_as_i32)
    show ?thesis
      unfolding if_P [OF g] by (rule decodes_last [OF decodes_rows [OF ws(1,2)] decodes_ok])
  qed
  then have "decodes (and_then parse_int (\<lambda>_. and_then parse_int (\<lambda>n.
       if sint n > 0 \<and> (nc \<longrightarrow> cols \<noteq> []) then
         and_then (parse_row_data n cols st) (\<lambda>rows. ok (n, rows)) else ok (n, []))))
       (?n, map row_values ws)
       (be_bytes 4 fc @ be_bytes 4 ?n @ concat (map (enc_row (is_call st) cols) ws))"
    by (intro decodes_bind [OF decodes_scalars(3)])
  from decodes_when_remaining [OF this _ True] True show ?thesis
    unfolding parse_inline_rows_def enc_inline_rows_def by simp
qed

text \<open>The fields of a response that its parser reads and drops.\<close>

record unread =
  u_lifetime :: i32
  u_updatable :: u8
  u_reusable :: u8
  u_marker :: "u8 option"
  u_pad :: "u8 \<times> u8 \<times> u8"
  u_cache_sec :: i32
  u_cache_usec :: i32
  u_column_info :: u8
  u_shard :: i32
  u_fetch_code :: i32

definition enc_columns :: "unread \<Rightarrow> column_metadata list \<Rightarrow> bytes" where
  "enc_columns u cols =
     be_bytes 4 (usize_as_i32 (length cols)) @ concat (map (enc_column (u_marker u) (u_pad u)) cols)"

definition enc_result_infos :: "unread \<Rightarrow> result_info list \<Rightarrow> bytes" where
  "enc_result_infos u infos =
     be_bytes 4 (usize_as_i32 (length infos))
     @ concat (map (enc_result_info (u_cache_sec u) (u_cache_usec u)) infos)"

definition enc_tail ::
  "unread \<Rightarrow> i32 \<Rightarrow> column_metadata list \<Rightarrow> statement_type \<Rightarrow> result_info list \<Rightarrow> wire_row list \<Rightarrow> bytes" where
  "enc_tail u v cols st infos ws =
     [u_reusable u] @ enc_result_infos u infos @ enc_version_fields v (u_column_info u) (u_shard u)
     @ enc_inline_rows cols st (u_fetch_code u) ws"

definition enc_prepare_and_execute ::
  "unread \<Rightarrow> i32 \<Rightarrow> cas_info \<Rightarrow> prepare_and_execute_result \<Rightarrow> wire_row list \<Rightarrow> bytes" where
  "enc_prepare_and_execute u v cas r ws =
     cas_bytes cas @ be_bytes 4 (pae_query_handle r) @ be_bytes 4 (u_lifetime u)
     @ [statement_type_u8 (pae_statement_type r)] @ be_bytes 4 (pae_bind_count r) @ [u_updatable u]
     @ enc_columns u (pae_columns r) @ be_bytes 4 (pae_total_tuple_count r)
     @ enc_tail u v (pae_columns r) (pae_statement_type r) (pae_result_infos r) ws"

definition enc_prepare :: "unread \<Rightarrow> cas_info \<Rightarrow> prepare_result \<Rightarrow> bytes" where
  "enc_prepare u cas r =
     cas_bytes cas @ be_bytes 4 (prep_query_handle r) @ be_bytes 4 (u_lifetime u)
     @ [statement_type_u8 (prep_statement_type r)] @ be_bytes 4 (prep_bind_count r) @ [u_updatable u]
     @ enc_columns u (prep_columns r)"

definition enc_execute ::
  "unread \<Rightarrow> i32 \<Rightarrow> cas_info \<Rightarrow> column_metadata list \<Rightarrow> statement_type \<Rightarrow> execute_result \<Rightarrow>
     wire_row list \<Rightarrow> bytes" where
  "enc_execute u v cas cols st r ws =
     cas_bytes cas @ be_bytes 4 (exec_total_tuple_count r)
     @ enc_tail u v cols st (exec_result_infos r) ws"

definition enc_fetch ::
  "cas_info \<Rightarrow> i32 \<Rightarrow> column_metadata list \<Rightarrow> statement_type \<Rightarrow> wire_row list \<Rightarrow> bytes" where
  "enc_fetch cas rc cols st ws =
     cas_bytes cas @ be_bytes 4 rc @ be_bytes 4 (usize_as_i32 (length ws))
     @ concat (map (enc_row (is_call st) cols) ws)"

definition columns_ok :: "column_metadata list \<Rightarrow> bool" where
  "columns_ok cols \<longleftrightarrow> list_all column_ok cols \<and> length cols < 2 ^ 31"

definition infos_ok :: "result_info list \<Rightarrow> bool" where
  "infos_ok infos \<longleftrightarrow> list_all result_info_ok infos \<and> length infos < 2 ^ 31"

definition rows_ok :: "column_metadata list \<Rightarrow> statement_type \<Rightarrow> wire_row list \<Rightarrow> bool" where
  "rows_ok cols st ws \<longleftrightarrow> list_all (row_ok (is_call st) cols) ws \<and> length ws < 2 ^ 31"

text \<open>The row count and the rows that a response with the rows \<open>ws\<close> reports.\<close>

definition reported :: "statement_type \<Rightarrow> wire_row list \<Rightarrow> i32 \<times> row list" where
  "reported st ws = (if is_select st then (usize_as_i32 (length ws), map row_values ws) else (0, []))"

lemma decodes_reported:
  assumes "rows_ok cols st ws" and "nc \<longrightarrow> cols \<noteq> []"
  shows "decodes (parse_inline_rows nc cols st) (reported st ws) (enc_inline_rows cols st fc ws)"
proof (cases "is_select st")
  case True
  then show ?thesis
    using decodes_inline_rows [of st cols ws nc fc] assms by (simp add: rows_ok_def reported_def)
next
  case False
  then show ?thesis
    using decodes_inline_rows [of st cols "[]" nc fc] assms(2)
    by (simp add: reported_def enc_inline_rows_def)
qed

lemma decodes_split: "decodes (f x y) z bs \<Longrightarrow> decodes (case (x, y) of (x, y) \<Rightarrow> f x y) z bs"
  by simp

lemma decodes_prepare_and_execute:
  assumes h: "0 \<le> sint (pae_query_handle r)" and c: "columns_ok (pae_columns r)"
    and i: "infos_ok (pae_result_infos r)" and w: "rows_ok (pae_columns r) (pae_statement_type r) ws"
    and r: "(pae_tuple_count r, pae_rows r) = reported (pae_statement_type r) ws"
  shows "decodes (parse_prepare_and_execute_body v) (r, cas) (enc_prepare_and_execute u v cas r ws)"
proof -
  note dc = decodes_columns [OF c [unfolded columns_ok_def, THEN conjunct1]
      c [unfolded columns_ok_def, THEN conjunct2]]
  note di = decodes_result_infos [OF i [unfolded infos_ok_def, THEN conjunct1]
      i [unfolded infos_ok_def, THEN conjunct2]]
  have dr: "decodes (parse_inline_rows False (pae_columns r) (pae_statement_type r))
      (pae_tuple_count r, pae_rows r)
      (enc_inline_rows (pae_columns r) (pae_statement_type r) (u_fetch_code u) ws)"
    unfolding r by (rule decodes_reported [OF w]) simp
  show ?thesis
    unfolding parse_prepare_and_execute_body_def enc_prepare_and_execute_def enc_columns_def
      enc_tail_def enc_result_infos_def Let_def append_assoc
    by (rule decodes_response_head [OF _ h] decodes_bind [OF dc] decodes_bind [OF di]
        decodes_bind [OF decodes_version_fields] decodes_last [OF dr] decodes_bind decodes_scalars
        decodes_split | simp only: statement_type_from_u8_code)+
      (rule decodes_ok_eq, simp)
qed

lemma decodes_prepare:
  assumes h: "0 \<le> sint (prep_query_handle r)" and c: "columns_ok (prep_columns r)"
  shows "decodes parse_prepare_body (r, cas) (enc_prepare u cas r)"
proof -
  note dc = decodes_columns [OF c [unfolded columns_ok_def, THEN conjunct1]
      c [unfolded columns_ok_def, THEN conjunct2]]
  show ?thesis
    unfolding parse_prepare_body_def enc_prepare_def enc_columns_def Let_def append_assoc
    by (rule decodes_response_head [OF _ h] decodes_last [OF dc] decodes_bind decodes_scalars
        | simp only: statement_type_from_u8_code)+
      (rule decodes_ok_eq, simp)
qed

lemma decodes_execute:
  assumes h: "0 \<le> sint (exec_total_tuple_count r)" and i: "infos_ok (exec_result_infos r)"
    and w: "rows_ok cols st ws" and cols: "cols \<noteq> []"
    and r: "(exec_tuple_count r, exec_rows r) = reported st ws"
  shows "decodes (parse_execute_body cols st v) (r, cas) (enc_execute u v cas cols st r ws)"
proof -
  note di = decodes_result_infos [OF i [unfolded infos_ok_def, THEN conjunct1]
      i [unfolded infos_ok_def, THEN conjunct2]]
  have dr: "decodes (parse_inline_rows True cols st) (exec_tuple_count r, exec_rows r)
      (enc_inline_rows cols st (u_fetch_code u) ws)"
    unfolding r by (rule decodes_reported [OF w]) (simp add: cols)
  show ?thesis
    unfolding parse_execute_body_def enc_execute_def enc_tail_def enc_result_infos_def append_assoc
    by (rule decodes_response_head [OF _ h] decodes_bind [OF di]
        decodes_bind [OF decodes_version_fields] decodes_last [OF dr] decodes_bind decodes_scalars
        decodes_split)+
      (rule decodes_ok_eq, simp)
qed

lemma decodes_fetch:
  assumes h: "0 \<le> sint rc" and w: "rows_ok cols st ws" and cols: "cols \<noteq> []"
  shows "decodes (parse_fetch_body cols st)
    (\<lparr>fetch_tuple_count = usize_as_i32 (length ws), fetch_rows = map row_values ws\<rparr>, cas)
    (enc_fetch cas rc cols st ws)"
proof -
  let ?n = "usize_as_i32 (length ws)"
  have w': "list_all (row_ok (is_call st) cols) ws" "length ws < 2 ^ 31"
    using w by (simp_all add: rows_ok_def)
  have "decodes (if sint ?n > 0 \<and> cols \<noteq> [] then parse_row_data ?n cols st else ok [])
      (map row_values ws) (concat (map (enc_row (is_call st) cols) ws))"
  proof (cases "ws = []")
    case True
    then show ?thesis by (simp add: sint_usize_as_i32 decodes_ok del: ok_apply)
  next
    case False
    with w' cols have g: "sint ?n > 0 \<and> cols \<noteq> []" by (simp add: sint_usize_as_i32)
    show ?thesis unfolding if_P [OF g] by (rule decodes_rows [OF w'])
  qed
  from decodes_last [OF this decodes_ok] show ?thesis
    unfolding parse_fetch_body_def enc_fetch_def
    by (intro decodes_response_head [OF _ h] decodes_bind [OF decodes_scalars(3)])
qed

lemma run_decodes_extra: "decodes p x bs \<Longrightarrow> run_parser p (bs @ extra) = Inr x"
  using decodes_run [of p x bs extra] by (simp add: run_parser_def)

section \<open>Concrete data for the witnesses\<close>

definition demo_unread :: unread where
  "demo_unread = \<lparr>u_lifetime = 0, u_updatable = 0, u_reusable = 0, u_marker = Some 1, u_pad = (0, 1, 0),
     u_cache_sec = 0, u_cache_usec = 0, u_column_info = 1, u_shard = 0, u_fetch_code = 0\<rparr>"

definition demo_column :: "data_type \<Rightarrow> bytes \<Rightarrow> column_metadata" where
  "demo_column t n = \<lparr>column_type = t, scale = 0, precision = 10, name = n, real_name = n,
     table_name = [], is_nullable = True, default_value = [], is_auto_increment = False,
     is_unique_key = False, is_primary_key = False, is_foreign_key = False\<rparr>"

definition demo_columns :: "column_metadata list" where
  "demo_columns = [demo_column DT_Int [105, 100], demo_column DT_String [110]]"

definition demo_rows :: "wire_row list" where
  "demo_rows = [(1, replicate 8 0, [(DT_Int, V_Int 7), (DT_String, V_String [97, 98])]),
                (2, replicate 8 0, [(DT_Int, V_Int 8), (DT_String, V_Null)])]"

definition demo_info :: result_info where
  "demo_info = \<lparr>stmt_type = ST_Select, result_count = 2, oid = replicate 8 0\<rparr>"

definition demo_result :: prepare_and_execute_result where
  "demo_result = \<lparr>pae_query_handle = 1, pae_statement_type = ST_Select, pae_bind_count = 0,
     pae_columns = demo_columns, pae_total_tuple_count = 2, pae_result_infos = [demo_info],
     pae_tuple_count = 2, pae_rows = [[V_Int 7, V_String [97, 98]], [V_Int 8, V_Null]]\<rparr>"

lemma demo_ok:
  "columns_ok demo_columns" "infos_ok [demo_info]" "rows_ok demo_columns ST_Select demo_rows"
  "reported ST_Select demo_rows = (2, [[V_Int 7, V_String [97, 98]], [V_Int 8, V_Null]])"
  by (simp_all add: columns_ok_def infos_ok_def rows_ok_def reported_def demo_columns_def demo_rows_def
      demo_column_def demo_info_def column_ok_def result_info_ok_def row_ok_def cell_ok_def
      string_ok_def wf_str_def utf8_check_Suc utf8_tail_ascii is_call_def is_select_def
      self_typed_def row_values_def usize_as_i32_def)

text \<open>
  C3. The FC=41 parser inverts the layout that the comments of \<open>response.rs\<close> give for columns,
  result infos and rows: for every result with a handle that is not negative, with fewer than
  \<open>2 ^ 31\<close> columns, infos and rows, whose strings are UTF-8 and do not end in zero bytes, and whose
  cells fit the column types, it returns exactly that result and the token, for every protocol
  version, whatever the skipped fields and the trailing bytes are, with plain or extended
  column types. (The protocol notes, \<open>docs/PROTOCOL_RESEARCH.md\<close> sections 8 to 10, describe
  another layout for the response, for columns and for dates; the code does not read that one.)
\<close>

theorem prepare_and_execute_roundtrip:
  assumes "0 \<le> sint (pae_query_handle r)" and "columns_ok (pae_columns r)"
    and "infos_ok (pae_result_infos r)" and "rows_ok (pae_columns r) (pae_statement_type r) ws"
    and "(pae_tuple_count r, pae_rows r) = reported (pae_statement_type r) ws"
  shows "parse_prepare_and_execute (enc_prepare_and_execute u v cas r ws @ extra) v = Inr (r, cas)"
  unfolding parse_prepare_and_execute_def
  by (rule run_decodes_extra [OF decodes_prepare_and_execute [OF assms]])

theorem prepare_and_execute_roundtrip_witness:
  "parse_prepare_and_execute
     (enc_prepare_and_execute demo_unread 8 (CAS 1 2 3 4) demo_result demo_rows @ [9]) 8
    = Inr (demo_result, CAS 1 2 3 4)"
  by (rule prepare_and_execute_roundtrip) (simp_all add: demo_result_def demo_ok)

text \<open>
  C14. The FC=2 and FC=3 parsers invert their layouts in the same sense and under the same
  conditions: the prepare response has the head of an FC=41 response, the execute response is
  read with the columns of the prepare response, of which there is at least one, and its
  response code, which is not negative, is the total number of rows. (Section 8 of the protocol
  notes describes both responses differently.)
\<close>

theorem prepare_execute_roundtrip:
  assumes "0 \<le> sint (prep_query_handle p)" and "columns_ok (prep_columns p)"
    and "0 \<le> sint (exec_total_tuple_count r)" and "infos_ok (exec_result_infos r)"
    and "prep_columns p \<noteq> []" and "rows_ok (prep_columns p) (prep_statement_type p) ws"
    and "(exec_tuple_count r, exec_rows r) = reported (prep_statement_type p) ws"
  shows "parse_prepare (enc_prepare u cas p @ extra) = Inr (p, cas)
    \<and> parse_execute (enc_execute u v cas (prep_columns p) (prep_statement_type p) r ws @ extra)
        (prep_columns p) (prep_statement_type p) v = Inr (r, cas)"
  unfolding parse_prepare_def parse_execute_def
  using assms by (intro conjI run_decodes_extra decodes_prepare decodes_execute)

theorem prepare_execute_roundtrip_witness:
  "parse_prepare (enc_prepare demo_unread (CAS 1 2 3 4)
        \<lparr>prep_query_handle = 1, prep_statement_type = ST_Select, prep_bind_count = 0,
         prep_columns = demo_columns\<rparr> @ []) =
      Inr (\<lparr>prep_query_handle = 1, prep_statement_type = ST_Select, prep_bind_count = 0,
         prep_columns = demo_columns\<rparr>, CAS 1 2 3 4)
    \<and> parse_execute (enc_execute demo_unread 1 (CAS 1 2 3 4)
        (prep_columns \<lparr>prep_query_handle = 1, prep_statement_type = ST_Select, prep_bind_count = 0,
         prep_columns = demo_columns\<rparr>)
        (prep_statement_type \<lparr>prep_query_handle = 1, prep_statement_type = ST_Select, prep_bind_count = 0,
         prep_columns = demo_columns\<rparr>)
        \<lparr>exec_total_tuple_count = 2, exec_result_infos = [demo_info], exec_tuple_count = 2,
         exec_rows = [[V_Int 7, V_String [97, 98]], [V_Int 8, V_Null]]\<rparr> demo_rows @ [])
        (prep_columns \<lparr>prep_query_handle = 1, prep_statement_type = ST_Select, prep_bind_count = 0,
         prep_columns = demo_columns\<rparr>)
        (prep_statement_type \<lparr>prep_query_handle = 1, prep_statement_type = ST_Select, prep_bind_count = 0,
         prep_columns = demo_columns\<rparr>) 1
      = Inr (\<lparr>exec_total_tuple_count = 2, exec_result_infos = [demo_info], exec_tuple_count = 2,
         exec_rows = [[V_Int 7, V_String [97, 98]], [V_Int 8, V_Null]]\<rparr>, CAS 1 2 3 4)"
  by (rule prepare_execute_roundtrip) (simp_all add: demo_ok, simp add: demo_columns_def)

text \<open>
  C15. The FC=8 parser returns the rows of a fetch response, in order and complete, with the
  token, for at least one column and fewer than \<open>2 ^ 31\<close> rows whose cells fit the column types:
  each row has an index and an object identifier, which are skipped, and one sized cell per
  column, with dates and times in fields of two bytes. (In the protocol notes, sections 8, 10
  and 16, rows have no index or identifier, dates have fields of four bytes and a flag tells
  whether more rows follow.)
\<close>

theorem fetch_roundtrip:
  assumes "0 \<le> sint rc" and "rows_ok cols st ws" and "cols \<noteq> []"
  shows "parse_fetch (enc_fetch cas rc cols st ws @ extra) cols st =
    Inr (\<lparr>fetch_tuple_count = usize_as_i32 (length ws), fetch_rows = map row_values ws\<rparr>, cas)"
  unfolding parse_fetch_def by (rule run_decodes_extra [OF decodes_fetch [OF assms]])

theorem fetch_roundtrip_witness:
  "parse_fetch (enc_fetch (CAS 1 2 3 4) 0 demo_columns ST_Select demo_rows @ [1, 2])
     demo_columns ST_Select =
    Inr (\<lparr>fetch_tuple_count = usize_as_i32 (length demo_rows), fetch_rows = map row_values demo_rows\<rparr>,
         CAS 1 2 3 4)"
  by (rule fetch_roundtrip) (simp_all add: demo_ok, simp add: demo_columns_def)

section \<open>Bind parameters read back\<close>

text \<open>
  A bind parameter has the shape of a self-typed cell. What the wire changes: a boolean
  becomes a short, a date a datetime at midnight, empty bytes a null, and a string loses the
  zero bytes at its end, as those are taken for the terminator.
\<close>

definition strip_zeros :: "bytes \<Rightarrow> bytes" where
  "strip_zeros s = rev (dropWhile (\<lambda>b. b = 0) (rev s))"

fun reads_back :: "db_value \<Rightarrow> db_value" where
  "reads_back (V_Bool b) = V_Short (if b then 1 else 0)"
| "reads_back (V_Date y mo d) = V_Datetime y mo d 0 0 0 0"
| "reads_back (V_Bytes []) = V_Null"
| "reads_back (V_String s) = V_String (strip_zeros s)"
| "reads_back v = v"

fun wire_type :: "db_value \<Rightarrow> data_type" where
  "wire_type (V_Bool b) = DT_Short"
| "wire_type (V_Short v) = DT_Short"
| "wire_type (V_Int v) = DT_Int"
| "wire_type (V_Long v) = DT_Bigint"
| "wire_type (V_Float v) = DT_Float"
| "wire_type (V_Double v) = DT_Double"
| "wire_type (V_String v) = DT_String"
| "wire_type (V_Bytes v) = DT_VarBit"
| "wire_type (V_Date y mo d) = DT_Datetime"
| "wire_type (V_Datetime y mo d h mi s ms) = DT_Datetime"
| "wire_type _ = DT_Null"

text \<open>The strings of Rust are UTF-8, so what is asked of strings and bytes is their size only.\<close>

fun sendable :: "db_value \<Rightarrow> bool" where
  "sendable (V_String s) = (utf8_valid s \<and> length s < 2 ^ 31 - 2)"
| "sendable (V_Bytes bs) = (length bs < 2 ^ 31 - 1)"
| "sendable (V_Time h mi s) = False"
| "sendable (V_Timestamp y mo d h mi s) = False"
| "sendable _ = True"

lemma strip_zeros_split: "\<exists>k. s = strip_zeros s @ replicate k 0"
proof -
  have "rev s = takeWhile (\<lambda>b. b = 0) (rev s) @ rev (strip_zeros s)" by (simp add: strip_zeros_def)
  then have "s = strip_zeros s @ rev (takeWhile (\<lambda>b. b = 0) (rev s))" by (metis rev_append rev_rev_ident)
  moreover have "replicate (length (takeWhile (\<lambda>b. b = 0) (rev s))) 0 = takeWhile (\<lambda>b. b = 0) (rev s)"
    by (rule replicate_length_same) (auto dest: set_takeWhileD)
  ultimately show ?thesis by (metis rev_replicate)
qed

lemma wf_strip_zeros:
  assumes "utf8_valid s"
  shows "wf_str (strip_zeros s)"
proof -
  obtain k where k: "s = strip_zeros s @ replicate k 0" using strip_zeros_split by blast
  have "utf8_valid (strip_zeros s @ replicate k 0)" unfolding k [symmetric] by (rule assms)
  then have "utf8_valid (strip_zeros s)" by (rule utf8_valid_zeros)
  moreover have "strip_zeros s = [] \<or> last (strip_zeros s) \<noteq> 0"
    using hd_dropWhile [of "\<lambda>b. b = 0" "rev s"] by (auto simp: strip_zeros_def last_rev)
  ultimately show ?thesis by (simp add: wf_str_def)
qed

lemma decodes_string_param:
  assumes "utf8_valid s" and "length s < 2 ^ 31 - 2"
  shows "decodes (parse_cell True col) (V_String (strip_zeros s)) (prefixed (2 # s @ [0]))"
proof -
  obtain k where k: "s = strip_zeros s @ replicate k 0" using strip_zeros_split by blast
  have n: "length s + 1 = length (strip_zeros s) + Suc k" by (subst k) simp
  have z: "s @ [0] = strip_zeros s @ replicate (Suc k) 0"
    by (subst k) (simp add: replicate_append_same)
  have "decodes (read_value DT_String (length s + 1)) (V_String (strip_zeros s)) (s @ [0])"
    unfolding z using decodes_string [OF wf_strip_zeros [OF assms(1)] n]
    by (simp del: ok_apply add: decodes_last decodes_ok)
  then have "decodes (parse_cell True col) (V_String (strip_zeros s))
      (be_bytes 4 (usize_as_i32 (length s + 2)) @ [data_type_u8 DT_String] @ (s @ [0]))"
    unfolding parse_cell_def Let_def
    using assms(2)
    by (intro decodes_bind [OF decodes_scalars(3)])
      (auto simp: sint_usize_as_i32 simp del: data_type_u8.simps read_value.simps ok_apply append_Cons
        intro!: decodes_bind [OF decodes_scalars(1)])
  then show ?thesis by (simp add: prefixed_def)
qed

lemma decodes_empty_cell: "decodes (parse_cell True col) V_Null (prefixed [b])"
proof -
  have "decodes (parse_cell True col) V_Null (be_bytes 4 (1 :: i32) @ [b])"
    unfolding parse_cell_def Let_def
    by (rule decodes_bind [OF decodes_scalars(3)], simp add: i32_as_usize_nonneg del: ok_apply,
        rule decodes_last [OF decodes_scalars(1)], rule decodes_ok)
  then show ?thesis by (simp add: prefixed_def usize_as_i32_def)
qed

lemma decodes_param:
  assumes "sendable v"
  shows "decodes (parse_cell True col) (reads_back v) (prefixed (param_arg v))"
proof (cases "v = V_Null \<or> v = V_Bytes [] \<or> (\<exists>s. v = V_String s)")
  case True
  then show ?thesis
    using assms decodes_cell [of True col DT_Null V_Null] decodes_empty_cell [of col 6]
    by (auto simp: cell_ok_def enc_cell_def prefixed_Nil decodes_string_param)
next
  case False
  with assms have "fits (wire_type v) (reads_back v)"
    and "param_arg v = data_type_u8 (wire_type v) # enc_value (reads_back v)"
    and nn: "reads_back v \<noteq> V_Null"
    by (cases v; cases "case v of V_Bytes bs \<Rightarrow> bs | _ \<Rightarrow> []"; simp)+
  then show ?thesis
    using decodes_cell [of True col "wire_type v" "reads_back v"]
    by (simp add: cell_ok_def enc_cell_def self_typed_def)
qed

lemma decodes_params:
  "list_all sendable vs \<Longrightarrow> length cols = length vs \<Longrightarrow>
     decodes (map_do (parse_cell True) cols) (map reads_back vs) (encode_bind_params vs)"
  unfolding encode_bind_params_concat map_map
  by (rule decodes_map_do)
    (auto simp: list_all2_conv_all_nth list_all_length decodes_param)

text \<open>
  C18. Bind parameters survive the wire: the parameter list of an FC=3 request, read by the
  driver's own reader as one row of self-typed cells, gives back every parameter, with a boolean
  as a short, a date as a datetime at midnight, empty bytes as \<open>NULL\<close> and a string without the
  zero bytes at its end. This holds for all lists without times and timestamps (a time reads
  back as midnight, \<open>bind_time_reads_midnight\<close>) whose strings are shorter than \<open>2 ^ 31 - 2\<close>
  bytes and whose byte strings are shorter than \<open>2 ^ 31 - 1\<close>.
\<close>

theorem bind_params_roundtrip:
  assumes "list_all sendable vs" and "length cols = length vs"
  shows "run_parser (map_do (parse_cell True) cols) (encode_bind_params vs) = Inr (map reads_back vs)"
  by (rule run_decodes [OF decodes_params [OF assms]])

theorem bind_params_roundtrip_witness:
  "run_parser (map_do (parse_cell True) (replicate 4 (demo_column DT_Null [])))
     (encode_bind_params [V_Int (- 5), V_Bool True, V_String [104, 105, 0], V_Date 2024 2 29])
    = Inr (map reads_back [V_Int (- 5), V_Bool True, V_String [104, 105, 0], V_Date 2024 2 29])"
  by (rule bind_params_roundtrip)
    (simp_all add: utf8_check_Suc utf8_tail_ascii)

text \<open>
  Times do not survive: the encoder writes a time in the seven fields of a datetime,
  with the date first, and the parser of a time cell reads the first three fields, so every
  time comes back as midnight.
\<close>

theorem bind_time_reads_midnight:
  "run_parser (parse_cell True col) (encode_bind_params [V_Time h mi s]) = Inr (V_Time 0 0 0)"
proof -
  have "decodes (parse_cell True col) (V_Time 0 0 0)
      (be_bytes 4 (15 :: i32) @ [data_type_u8 DT_Time] @ (be_bytes 2 (0 :: i16) @ be_bytes 2 (0 :: i16) @ be_bytes 2 (0 :: i16)))"
    unfolding parse_cell_def Let_def
    by (intro decodes_bind [OF decodes_scalars(3)])
      (auto simp: i32_as_usize_nonneg simp del: ok_apply append_Cons data_type_u8.simps
        intro!: decodes_bind [OF decodes_scalars(1)] decodes_last [OF decodes_dates(2)] decodes_ok_eq)
  from run_decodes_extra [OF this, of "be_bytes 2 h @ be_bytes 2 mi @ be_bytes 2 s @ be_bytes 2 (0 :: i16)"]
  show ?thesis
    by (simp add: encode_bind_params_concat prefixed_def usize_as_i32_def)
qed

end
