(* ===== verification/Dsn.thy ===== *)
theory Dsn
  imports Rust_Std
begin

text \<open>
  \<open>crates/cubrid-client/src/dsn.rs\<close>: the connection string. \<open>dsn_parse\<close> follows
  \<open>Dsn::parse\<close> step by step: each step is one of its blocks. Strings are their UTF-8 bytes;
  the code only cuts them at ASCII bytes. A timeout is its number of seconds.
\<close>

section \<open>The record and its default\<close>

record dsn =
  host :: bytes
  port :: u16
  database :: bytes
  user :: bytes
  password :: bytes
  auto_commit :: bool
  timeout :: nat

definition dsn_default :: dsn where
  "dsn_default = \<lparr>host = bytes_of ''localhost'', port = 33000, database = [], user = [],
     password = [], auto_commit = True, timeout = 30\<rparr>"

section \<open>Percent decoding\<close>

text \<open>\<open>u8::from_str_radix(std::str::from_utf8(..).unwrap_or(""), 16)\<close>\<close>

definition hex_byte :: "bytes \<Rightarrow> int_error + nat" where
  "hex_byte bs = from_str_radix 255 16 (case from_utf8 bs of Inr s \<Rightarrow> s | Inl _ \<Rightarrow> [])"

fun percent_decode :: "bytes \<Rightarrow> bytes" where
  "percent_decode [] = []"
| "percent_decode (b # bs) =
     (if b = 37 \<and> 2 \<le> length bs then
        (case hex_byte (take 2 bs) of
           Inr v \<Rightarrow> latin1_char (word_of_nat v) @ percent_decode (drop 2 bs)
         | Inl _ \<Rightarrow> latin1_char b @ percent_decode bs)
      else latin1_char b @ percent_decode bs)"

section \<open>Parsing\<close>

definition missing_database :: bytes where
  "missing_database = bytes_of ''database name is required in DSN''"

text \<open>\<open>(&s[..pos], Some(&s[pos + 1..]))\<close>\<close>

definition cut :: "nat \<Rightarrow> bytes \<Rightarrow> bytes \<times> bytes" where
  "cut pos s = (take pos s, drop (pos + 1) s)"

definition split_query :: "bytes \<Rightarrow> bytes \<times> bytes option" where
  "split_query rest =
     (case find_byte 63 rest of
        Some pos \<Rightarrow> let (m, q) = cut pos rest in (m, Some q)
      | None \<Rightarrow> (rest, None))"

definition split_user :: "bytes \<Rightarrow> bytes option \<times> bytes" where
  "split_user main_part =
     (case rfind_byte 64 main_part of
        Some pos \<Rightarrow> let (u, h) = cut pos main_part in (Some u, h)
      | None \<Rightarrow> (None, main_part))"

definition apply_user :: "bytes option \<Rightarrow> dsn \<Rightarrow> dsn" where
  "apply_user user_part result =
     (case user_part of
        None \<Rightarrow> result
      | Some user_info \<Rightarrow>
          (case find_byte 58 user_info of
             Some pos \<Rightarrow>
               let (u, p) = cut pos user_info
               in result\<lparr>user := percent_decode u, password := percent_decode p\<rparr>
           | None \<Rightarrow> result\<lparr>user := percent_decode user_info\<rparr>))"

definition parse_port :: "bytes \<Rightarrow> bytes + u16" where
  "parse_port s =
     (case from_str_radix (2 ^ 16 - 1) 10 s of
        Inr n \<Rightarrow> Inr (word_of_nat n)
      | Inl e \<Rightarrow> Inl (bytes_of ''invalid port: '' @ int_error_msg e))"

definition apply_host_port :: "bytes \<Rightarrow> dsn \<Rightarrow> bytes + dsn" where
  "apply_host_port host_port result =
     (if take 1 host_port = [91] then
        (case find_byte 93 host_port of
           Some end_pos \<Rightarrow>
             (let result = result\<lparr>host := take (end_pos - 1) (drop 1 host_port)\<rparr>
              in if end_pos + 1 < length host_port \<and> host_port ! (end_pos + 1) = 58
                 then (case parse_port (drop (end_pos + 2) host_port) of
                         Inr p \<Rightarrow> Inr (result\<lparr>port := p\<rparr>) | Inl e \<Rightarrow> Inl e)
                 else Inr result)
         | None \<Rightarrow> Inl (bytes_of ''invalid IPv6 address in DSN''))
      else
        (case rfind_byte 58 host_port of
           Some pos \<Rightarrow>
             (let (h, p) = cut pos host_port;
                  result = (if h \<noteq> [] then result\<lparr>host := h\<rparr> else result)
              in case parse_port p of Inr p \<Rightarrow> Inr (result\<lparr>port := p\<rparr>) | Inl e \<Rightarrow> Inl e)
         | None \<Rightarrow> Inr (if host_port \<noteq> [] then result\<lparr>host := host_port\<rparr> else result)))"

definition apply_param :: "bytes \<Rightarrow> dsn \<Rightarrow> bytes + dsn" where
  "apply_param param result =
     (case find_byte 61 param of
        None \<Rightarrow> Inr result
      | Some eq_pos \<Rightarrow>
          (let (key, val) = cut eq_pos param
           in if key = bytes_of ''autocommit'' then
                Inr (result\<lparr>auto_commit :=
                  val \<in> {bytes_of ''true'', bytes_of ''1'', bytes_of ''yes''}\<rparr>)
              else if key = bytes_of ''timeout'' then
                (case from_str_radix (2 ^ 64 - 1) 10 val of
                   Inr n \<Rightarrow> Inr (result\<lparr>timeout := n\<rparr>)
                 | Inl e \<Rightarrow> Inl (bytes_of ''invalid timeout: '' @ int_error_msg e))
              else Inr result))"

fun apply_params :: "bytes list \<Rightarrow> dsn \<Rightarrow> bytes + dsn" where
  "apply_params [] result = Inr result"
| "apply_params (p # ps) result =
     (case apply_param p result of Inl e \<Rightarrow> Inl e | Inr result \<Rightarrow> apply_params ps result)"

definition dsn_parse :: "bytes \<Rightarrow> bytes + dsn" where
  "dsn_parse dsn =
     (case strip_prefix (bytes_of ''cubrid://'') dsn of
        None \<Rightarrow> Inl (bytes_of ''DSN must start with 'cubrid://', got: '' @ dsn)
      | Some rest \<Rightarrow>
          (let (main_part, query_part) = split_query rest;
               (user_part, host_and_db) = split_user main_part;
               result = apply_user user_part dsn_default
           in case find_byte 47 host_and_db of
                None \<Rightarrow> Inl missing_database
              | Some pos \<Rightarrow>
                  (let (host_port, db) = cut pos host_and_db
                   in if db = [] then Inl missing_database
                      else
                        (case apply_host_port host_port (result\<lparr>database := db\<rparr>) of
                           Inl e \<Rightarrow> Inl e
                         | Inr result \<Rightarrow>
                             (case query_part of
                                None \<Rightarrow> Inr result
                              | Some qs \<Rightarrow> apply_params (split_byte 38 qs) result)))))"

section \<open>Percent decoding inverts percent encoding on ASCII text\<close>

definition unreserved :: "u8 \<Rightarrow> bool" where
  "unreserved b \<longleftrightarrow> (48 \<le> b \<and> b \<le> 57) \<or> (65 \<le> b \<and> b \<le> 90) \<or> (97 \<le> b \<and> b \<le> 122)"

definition percent_encode :: "bytes \<Rightarrow> bytes" where
  "percent_encode s = concat (map (\<lambda>b. if unreserved b then [b] else 37 # hex2 b) s)"

lemma cut_append [simp]: "cut (length xs) (xs @ c # ys) = (xs, ys)"
  by (simp add: cut_def)

lemma percent_decode_plain: "b \<noteq> 37 \<Longrightarrow> percent_decode (b # bs) = latin1_char b @ percent_decode bs"
  by simp

lemma percent_decode_no_escape: "37 \<notin> set s \<Longrightarrow> percent_decode s = concat (map latin1_char s)"
  by (induction s) auto

lemma hex_byte_hex2: "hex_byte (hex2 b) = Inr (unat b)"
proof -
  have b: "unat b < 256" using unsigned_less [of b] by simp
  let ?h = "unat b div 16" and ?l = "unat b mod 16"
  have h: "?h < 16" and l: "?l < 16" using b by auto
  note f = hex_digit_facts [OF h] hex_digit_facts [OF l]
  have "from_utf8 (hex2 b) = Inr (hex2 b)"
    using f by (simp add: from_utf8_def hex2_def nibbles utf8_tail_ascii utf8_check_Suc)
  then show ?thesis
    using f b by (simp add: hex_byte_def from_str_radix_def hex2_def nibbles)
qed

lemma percent_decode_escape: "percent_decode (37 # hex2 b @ bs) = latin1_char b @ percent_decode bs"
  by (simp add: hex_byte_hex2 [simplified hex2_def] hex2_def)

lemma percent_decode_encode:
  "percent_decode (percent_encode s @ t) = concat (map latin1_char s) @ percent_decode t"
proof (induction s)
  case Nil
  then show ?case by (simp add: percent_encode_def)
next
  case (Cons b s)
  have "percent_decode ((if unreserved b then [b] else 37 # hex2 b) @ u) = latin1_char b @ percent_decode u" for u
    using percent_decode_escape [of b u] percent_decode_plain [of b u]
    by (cases "b = 37") (auto simp: unreserved_def simp del: percent_decode.simps)
  with Cons show ?case by (simp add: percent_encode_def)
qed

lemma latin1_ascii: "list_all (\<lambda>b. b < 0x80) s \<Longrightarrow> concat (map latin1_char s) = s"
  by (induction s) (auto simp: latin1_char_def)

lemma percent_decode_encode_ascii:
  "list_all (\<lambda>b. b < 0x80) s \<Longrightarrow> percent_decode (percent_encode s) = s"
  using percent_decode_encode [of s "[]"] by (simp add: latin1_ascii)

lemma latin1_length: "length s \<le> length (concat (map latin1_char s))"
  by (induction s) (auto simp: latin1_char_def)

lemma latin1_eq_iff: "concat (map latin1_char s) = s \<longleftrightarrow> list_all (\<lambda>b. b < 0x80) s"
proof
  have "length s < length (concat (map latin1_char s))" if "\<not> list_all (\<lambda>b. b < 0x80) s" for s
    using that latin1_length by (induction s) (auto simp: latin1_char_def intro: le_imp_less_Suc)
  then show "concat (map latin1_char s) = s \<Longrightarrow> list_all (\<lambda>b. b < 0x80) s"
    by (metis less_irrefl)
qed (rule latin1_ascii)

lemma set_percent_encode: "set (percent_encode s) \<subseteq> {b. unreserved b \<or> b = 37}"
proof -
  have "list_all (\<lambda>n. unreserved (hex_digit (word_of_nat n))) [0..<16]"
    by (simp add: upt_rec hex_digit_def unreserved_def)
  then have "unreserved (hex_digit (word_of_nat (n mod 16)))" "m < 16 \<Longrightarrow> unreserved (hex_digit (word_of_nat m))" for m n
    by (simp_all add: list_all_iff)
  moreover have "unat (b :: u8) div 16 < 16" for b
    using unsigned_less [of b, where ?'a = nat] by simp
  ultimately show ?thesis by (auto simp: percent_encode_def hex2_def nibbles)
qed

section \<open>Rendering and parsing\<close>

text \<open>The connection string of a record, with every option written out.\<close>

definition host_text :: "bool \<Rightarrow> bytes \<Rightarrow> bytes" where
  "host_text ipv6 h = (if ipv6 then 91 # h @ [93] else h)"

definition render_query :: "dsn \<Rightarrow> bytes" where
  "render_query d =
     bytes_of ''autocommit'' @ 61 # (if auto_commit d then bytes_of ''true'' else bytes_of ''false'')
     @ 38 # bytes_of ''timeout'' @ 61 # dec_digits (timeout d)"

definition render_dsn :: "bool \<Rightarrow> dsn \<Rightarrow> bytes" where
  "render_dsn ipv6 d =
     bytes_of ''cubrid://'' @ ((percent_encode (user d) @ 58 # percent_encode (password d))
       @ 64 # (host_text ipv6 (host d) @ 58 # dec_digits (unat (port d))) @ 47 # database d)
     @ 63 # render_query d"

definition dsn_ok :: "bool \<Rightarrow> dsn \<Rightarrow> bool" where
  "dsn_ok ipv6 d \<longleftrightarrow>
     list_all (\<lambda>b. b < 0x80) (user d @ password d)
     \<and> set (host d) \<inter> {47, 63, 64} = {}
     \<and> (if ipv6 then 93 \<notin> set (host d) else host d \<noteq> [] \<and> hd (host d) \<noteq> 91)
     \<and> database d \<noteq> [] \<and> set (database d) \<inter> {63, 64} = {}
     \<and> timeout d < 2 ^ 64"

lemma not_in_encode: "\<not> unreserved c \<Longrightarrow> c \<noteq> 37 \<Longrightarrow> c \<notin> set (percent_encode s)"
  using set_percent_encode by blast

lemma not_in_digits: "\<not> unreserved c \<Longrightarrow> c \<notin> set (dec_digits n)"
  using set_dec_digits [of n] by (auto simp: unreserved_def)

lemma parse_port_digits: "parse_port (dec_digits (unat p)) = Inr p"
proof -
  have "unat p \<le> 2 ^ 16 - 1" using unsigned_less [of p, where ?'a = nat] by simp
  then show ?thesis by (simp add: parse_port_def from_str_radix_dec_digits)
qed

lemma apply_host_port_render:
  assumes "dsn_ok ipv6 d"
  shows "apply_host_port (host_text ipv6 (host d) @ 58 # dec_digits (unat (port d))) r =
    Inr (r\<lparr>host := host d, port := port d\<rparr>)"
proof (cases ipv6)
  case True
  then have h: "93 \<notin> set (91 # host d)" using assms by (auto simp: dsn_ok_def)
  from find_byte_append [OF h, of "58 # dec_digits (unat (port d))"] True show ?thesis
    by (simp add: apply_host_port_def host_text_def Let_def nth_append parse_port_digits)
next
  case False
  let ?s = "host d @ 58 # dec_digits (unat (port d))"
  from False assms have h: "host d \<noteq> []" "take 1 ?s \<noteq> [91]"
    by (cases "host d"; auto simp: dsn_ok_def)+
  have "rfind_byte 58 ?s = Some (length (host d))"
    by (rule rfind_byte_append) (simp add: not_in_digits unreserved_def)
  then show ?thesis
    using False h by (simp add: apply_host_port_def host_text_def Let_def parse_port_digits)
qed

lemma apply_params_render:
  assumes "timeout d < 2 ^ 64"
  shows "apply_params (split_byte 38 (render_query d)) r =
    Inr (r\<lparr>auto_commit := auto_commit d, timeout := timeout d\<rparr>)"
proof -
  have "38 \<notin> set (bytes_of ''timeout'' @ 61 # dec_digits (timeout d))"
    by (auto simp: bytes_of_def not_in_digits unreserved_def)
  then have s: "split_byte 38 (render_query d) =
    [bytes_of ''autocommit'' @ 61 # (if auto_commit d then bytes_of ''true'' else bytes_of ''false''),
     bytes_of ''timeout'' @ 61 # dec_digits (timeout d)]"
    unfolding render_query_def
    by (subst append_Cons [symmetric], subst append_assoc [symmetric], subst split_byte_append)
      (auto simp: bytes_of_def split_byte_single)
  have "find_byte 61 (bytes_of ''autocommit'' @ 61 # v) = Some (length (bytes_of ''autocommit''))"
    "find_byte 61 (bytes_of ''timeout'' @ 61 # v) = Some (length (bytes_of ''timeout''))" for v
    by (rule find_byte_append, simp add: bytes_of_def)+
  then show ?thesis
    using assms
    by (simp add: s apply_param_def Let_def del: length_bytes_of)
      (simp add: bytes_of_def from_str_radix_dec_digits)
qed

lemma split_query_render:
  "63 \<notin> set m \<Longrightarrow> split_query (m @ 63 # q) = (m, Some q)"
  by (simp add: split_query_def find_byte_append)

lemma split_user_render:
  "64 \<notin> set h \<Longrightarrow> split_user (u @ 64 # h) = (Some u, h)"
  by (simp add: split_user_def rfind_byte_append)

lemma dsn_parse_render:
  assumes "dsn_ok ipv6 d"
  shows "dsn_parse (render_dsn ipv6 d) = Inr d"
proof -
  let ?u = "percent_encode (user d) @ 58 # percent_encode (password d)"
  let ?hp = "host_text ipv6 (host d) @ 58 # dec_digits (unat (port d))"
  let ?h = "?hp @ 47 # database d"
  note ok = assms [unfolded dsn_ok_def]
  have hp: "c \<notin> set ?hp" if "c \<in> {47, 63, 64}" for c
    using ok that by (auto simp: host_text_def not_in_digits unreserved_def)
  have "63 \<notin> set (?u @ 64 # ?h)" and h: "64 \<notin> set ?h"
    using ok hp [of 63] hp [of 64] by (auto simp: not_in_encode unreserved_def)
  note q = split_query_render [OF this(1)] and u = split_user_render [OF this(2)]
  have f: "find_byte 47 ?h = Some (length ?hp)" by (rule find_byte_append) (rule hp, simp)
  have "find_byte 58 ?u = Some (length (percent_encode (user d)))"
    by (rule find_byte_append) (simp add: not_in_encode unreserved_def)
  then have a: "apply_user (Some ?u) r = r\<lparr>user := user d, password := password d\<rparr>" for r
    using ok by (simp add: apply_user_def percent_decode_encode_ascii)
  have "dsn_parse (render_dsn ipv6 d) =
      (case apply_host_port ?hp (dsn_default\<lparr>user := user d, password := password d, database := database d\<rparr>) of
         Inl e \<Rightarrow> Inl e
       | Inr r \<Rightarrow> apply_params (split_byte 38 (render_query d)) r)"
    unfolding dsn_parse_def render_dsn_def strip_prefix_append option.case q Let_def prod.case u
      f cut_append a
    using ok by simp
  then show ?thesis
    using ok by (simp add: apply_host_port_render [OF assms] apply_params_render)
qed

lemma dsn_roundtrip_demo:
  "dsn_parse (render_dsn False (dsn_default\<lparr>database := [100]\<rparr>)) = Inr (dsn_default\<lparr>database := [100]\<rparr>)"
  by (rule dsn_parse_render) (simp add: dsn_ok_def dsn_default_def bytes_of_def)

text \<open>
  C19. Rendering and parsing a connection string gives the record back: for ASCII users and
  passwords (percent-encoded, so with any of the characters \<open>:@/?%\<close>), a host without
  delimiters or a bracketed IPv6 host, every port, every non-empty database name without
  \<open>?\<close> and \<open>@\<close>, both auto-commit settings and every 64-bit timeout.
\<close>

theorem dsn_roundtrip:
  "dsn_ok ipv6 d \<Longrightarrow> dsn_parse (render_dsn ipv6 d) = Inr d"
  by (rule dsn_parse_render)

theorem dsn_roundtrip_witness:
  "dsn_parse (render_dsn True
     \<lparr>host = bytes_of ''::1'', port = 33000, database = bytes_of ''demodb'', user = bytes_of ''a@b:c'',
      password = bytes_of ''p?/%'', auto_commit = False, timeout = 5\<rparr>) =
   Inr \<lparr>host = bytes_of ''::1'', port = 33000, database = bytes_of ''demodb'', user = bytes_of ''a@b:c'',
      password = bytes_of ''p?/%'', auto_commit = False, timeout = 5\<rparr>"
  by (rule dsn_roundtrip) (simp add: dsn_ok_def bytes_of_def)

section \<open>What an accepted connection string looks like\<close>

lemma apply_user_database [simp]: "database (apply_user u r) = database r"
  by (auto simp: apply_user_def Let_def split: option.splits prod.splits)

lemma apply_host_port_database: "apply_host_port hp r = Inr r' \<Longrightarrow> database r' = database r"
  by (auto simp: apply_host_port_def Let_def split: option.splits prod.splits sum.splits if_splits)

lemma apply_param_database: "apply_param p r = Inr r' \<Longrightarrow> database r' = database r"
  by (auto simp: apply_param_def Let_def split: option.splits prod.splits sum.splits if_splits)

lemma apply_params_database: "apply_params ps r = Inr r' \<Longrightarrow> database r' = database r"
  by (induction ps arbitrary: r) (auto simp: apply_param_database split: sum.splits)

lemma find_byte_split:
  "find_byte c s = Some i \<Longrightarrow> cut i s = (x, y) \<Longrightarrow> s = x @ c # y \<and> c \<notin> set x"
proof (induction s arbitrary: i x y)
  case (Cons b s)
  then show ?case by (cases "b = c") (auto simp: cut_def)
qed simp

lemma rfind_byte_split:
  "rfind_byte c s = Some i \<Longrightarrow> cut i s = (x, y) \<Longrightarrow> s = x @ c # y \<and> c \<notin> set y"
proof (induction s arbitrary: i x y)
  case (Cons b s)
  then show ?case
    by (auto simp: cut_def rfind_byte_None_iff split: option.splits if_splits)
qed simp

lemma split_query_text:
  "split_query s = (m, q) \<Longrightarrow>
     63 \<notin> set m \<and> s = m @ (case q of None \<Rightarrow> [] | Some q \<Rightarrow> 63 # q)"
  by (auto simp: split_query_def Let_def find_byte_None_iff split: option.splits prod.splits
      dest: find_byte_split)

lemma split_user_text:
  "split_user s = (u, h) \<Longrightarrow>
     64 \<notin> set h \<and> s = (case u of None \<Rightarrow> [] | Some u \<Rightarrow> u @ [64]) @ h"
  by (auto simp: split_user_def Let_def rfind_byte_None_iff split: option.splits prod.splits
      dest: rfind_byte_split)

text \<open>
  What the parser accepts starts with the scheme, and the database name it returns is
  not empty, follows a slash, ends at the end of the text or at the first question mark, and
  contains no at-sign.
\<close>

theorem dsn_parse_accepts:
  assumes "dsn_parse s = Inr d"
  shows "\<exists>pre post. s = bytes_of ''cubrid://'' @ pre @ 47 # database d @ post
    \<and> database d \<noteq> [] \<and> 63 \<notin> set (pre @ database d) \<and> 64 \<notin> set (database d)
    \<and> (post = [] \<or> hd post = 63)"
proof -
  from assms obtain rest where s: "strip_prefix (bytes_of ''cubrid://'') s = Some rest"
    by (auto simp: dsn_parse_def split: option.splits)
  then have s': "s = bytes_of ''cubrid://'' @ rest"
    by (auto simp: strip_prefix_def split: if_splits) (metis append_take_drop_id)
  obtain m q where q: "split_query rest = (m, q)" by (cases "split_query rest")
  obtain u h where u: "split_user m = (u, h)" by (cases "split_user m")
  from assms s q u obtain pos hp db r where f: "find_byte 47 h = Some pos" "cut pos h = (hp, db)"
    and db: "db \<noteq> []" and r: "apply_host_port hp ((apply_user u dsn_default)\<lparr>database := db\<rparr>) = Inr r"
    and d: "(case q of None \<Rightarrow> Inr r | Some qs \<Rightarrow> apply_params (split_byte 38 qs) r) = Inr d"
    by (auto simp: dsn_parse_def Let_def split: option.splits prod.splits sum.splits if_splits)
  from d have "database d = database r"
    by (auto simp: apply_params_database split: option.splits)
  with apply_host_port_database [OF r] have "database d = db" by simp
  with s' split_query_text [OF q] split_user_text [OF u] find_byte_split [OF f] db show ?thesis
    by (intro exI [of _ "(case u of None \<Rightarrow> [] | Some u \<Rightarrow> u @ [64]) @ hp"]
        exI [of _ "case q of None \<Rightarrow> [] | Some q \<Rightarrow> 63 # q"]) (auto split: option.splits)
qed

theorem dsn_parse_accepts_witness:
  "\<exists>pre post. render_dsn False (dsn_default\<lparr>database := [100]\<rparr>)
      = bytes_of ''cubrid://'' @ pre @ 47 # database (dsn_default\<lparr>database := [100]\<rparr>) @ post
    \<and> database (dsn_default\<lparr>database := [100]\<rparr>) \<noteq> []
    \<and> 63 \<notin> set (pre @ database (dsn_default\<lparr>database := [100]\<rparr>))
    \<and> 64 \<notin> set (database (dsn_default\<lparr>database := [100]\<rparr>))
    \<and> (post = [] \<or> hd post = 63)"
  by (rule dsn_parse_accepts [OF dsn_roundtrip_demo])

section \<open>What percent decoding computes\<close>

text \<open>
  The bytes that a text escapes: \<open>%\<close> and two hexadecimal digits are one byte (so are \<open>%\<close>, a plus
  sign and one digit), everything else stands for itself.
\<close>

definition hex_pair :: "u8 \<Rightarrow> u8 \<Rightarrow> u8 option" where
  "hex_pair a b =
     (case to_digit 16 b of
        None \<Rightarrow> None
      | Some y \<Rightarrow>
          (case to_digit 16 a of
             Some x \<Rightarrow> Some (word_of_nat (16 * x + y))
           | None \<Rightarrow> if a = 43 then Some (word_of_nat y) else None))"

fun unescape :: "bytes \<Rightarrow> bytes" where
  "unescape (c # a # b # bs) =
     (if c = 37
      then (case hex_pair a b of
              Some v \<Rightarrow> v # unescape bs
            | None \<Rightarrow> c # unescape (a # b # bs))
      else c # unescape (a # b # bs))"
| "unescape bs = bs"

lemma to_digit_lt: "to_digit r b = Some d \<Longrightarrow> d < r"
  by (auto simp: to_digit_def Let_def split: if_splits)

lemma to_digit_ascii: "to_digit r b = Some d \<Longrightarrow> b < 0x80 \<and> b \<noteq> 43"
  by (auto simp: to_digit_def Let_def word_le_nat_alt word_less_nat_alt split: if_splits)

lemma hex_byte_ascii:
  assumes "a < 0x80" and "b < 0x80"
  shows "hex_byte [a, b] = from_str_radix 255 16 [a, b]"
proof -
  have "utf8_valid [a, b]" using assms by (intro utf8_valid_ascii) auto
  then show ?thesis by (simp add: hex_byte_def from_utf8_def)
qed

lemma hex_byte_pair:
  "hex_pair a b = Some v \<Longrightarrow> hex_byte [a, b] = Inr (unat v)"
  "hex_pair a b = None \<Longrightarrow> \<exists>e. hex_byte [a, b] = Inl e"
proof -
  have small: "unat (word_of_nat n :: u8) = n" if "n < 256" for n
    using that by (simp add: unat_of_nat take_bit_nat_eq_self)
  show "hex_byte [a, b] = Inr (unat v)" if "hex_pair a b = Some v"
  proof -
    from that obtain y where y: "to_digit 16 b = Some y"
      by (auto simp: hex_pair_def split: option.splits)
    have b: "b < 0x80" "y < 16" using to_digit_ascii [OF y] to_digit_lt [OF y] by simp_all
    show ?thesis
    proof (cases "to_digit 16 a")
      case (Some x)
      with that y have v: "v = word_of_nat (16 * x + y)" by (simp add: hex_pair_def)
      have "a < 0x80" "a \<noteq> 43" "x < 16" using to_digit_ascii [OF Some] to_digit_lt [OF Some] by simp_all
      with b show ?thesis
        by (simp add: hex_byte_ascii from_str_radix_def Some y v small mult.commute del: of_nat_add of_nat_mult)
    next
      case None
      with that y have "a = 43" "v = word_of_nat y" by (auto simp: hex_pair_def split: if_splits)
      with b show ?thesis by (simp add: hex_byte_ascii from_str_radix_def y small)
    qed
  qed
  show "\<exists>e. hex_byte [a, b] = Inl e" if "hex_pair a b = None"
  proof -
    have bad: "\<exists>e. from_str_radix 255 16 [a, b] = Inl e"
      using that by (auto simp: hex_pair_def from_str_radix_def split: option.splits if_splits)
    have "\<exists>e. from_str_radix 255 16 [] = Inl e" by (simp add: from_str_radix_def)
    with bad show ?thesis
      by (auto simp: hex_byte_def from_utf8_def split: option.splits)
  qed
qed

lemma percent_decode_unescape: "percent_decode s = concat (map latin1_char (unescape s))"
proof (induction s rule: unescape.induct)
  case (1 c a b bs)
  then show ?case
    using hex_byte_pair [of a b] by (cases "hex_pair a b") (auto simp del: percent_decode.simps(2)
      simp: percent_decode.simps(2) [of c "a # b # bs"])
qed simp_all

lemma unescape_plain: "37 \<notin> set s \<Longrightarrow> unescape s = s"
  by (induction s rule: unescape.induct) auto

text \<open>
  C40. What percent decoding does to a user or a password: it takes the bytes that the text
  escapes and turns each byte, escaped or not, into the character with that code, that is into
  its UTF-8 form of one or two bytes. So it undoes percent encoding exactly when the text is
  ASCII, and a text without escapes passes unchanged exactly when it is ASCII: a user or
  password with another character, encoded or not, arrives changed.
\<close>

theorem percent_decode_ascii_only:
  "percent_decode s = concat (map latin1_char (unescape s))
    \<and> (percent_decode (percent_encode s) = s \<longleftrightarrow> list_all (\<lambda>b. b < 0x80) s)
    \<and> (37 \<notin> set s \<longrightarrow> (percent_decode s = s \<longleftrightarrow> list_all (\<lambda>b. b < 0x80) s))"
  using percent_decode_encode [of s "[]"] latin1_eq_iff [of s]
  by (simp add: percent_decode_unescape unescape_plain)

theorem percent_decode_ascii_only_witness:
  "percent_decode [0xC3, 0xA9] = concat (map latin1_char (unescape [0xC3, 0xA9]))
    \<and> percent_decode [0xC3, 0xA9] = [0xC3, 0x83, 0xC2, 0xA9]"
  using percent_decode_ascii_only [of "[0xC3, 0xA9]"] by (simp add: latin1_char_def)

end
