(* ===== verification/Transport.thy ===== *)
theory Transport
  imports Response_Format Dsn
begin

text \<open>
  \<open>crates/cubrid-client/src/conn.rs\<close> and the error type of \<open>crates/cubrid-client/src/lib.rs\<close>.
  The operating system's side of a TCP stream is data: what will arrive (bytes, and reads
  that fail, such as timeouts, between them; after the last arrival the peer has closed),
  how many bytes the socket still accepts, and what has been written. Every statement about
  the client holds for all such streams.
\<close>

section \<open>Client errors\<close>

datatype client_error =
    CE_Protocol protocol_error
  | CE_Io io_error
  | CE_InvalidDsn bytes
  | CE_ConnectionClosed
  | CE_ServerError i32 bytes

fun display_client_error :: "(io_error \<Rightarrow> bytes) \<Rightarrow> client_error \<Rightarrow> bytes" where
  "display_client_error io (CE_Protocol e) = bytes_of ''protocol error: '' @ display_protocol_error io e"
| "display_client_error io (CE_Io e) = bytes_of ''I/O error: '' @ io e"
| "display_client_error io (CE_InvalidDsn m) = bytes_of ''invalid DSN: '' @ m"
| "display_client_error io CE_ConnectionClosed = bytes_of ''connection closed''"
| "display_client_error io (CE_ServerError code message) =
     bytes_of ''server error '' @ fmt_int (sint code) @ bytes_of '': '' @ message"

section \<open>TCP streams\<close>

datatype arrival = Arrive u8 | Read_Fails io_error

record tcp =
  arrivals :: "arrival list"
  room :: "nat option"
  write_error :: io_error
  sent :: bytes
  is_shut :: bool

text \<open>\<open>Read::read_exact\<close>: the bytes read before a failure are lost with the buffer.\<close>

fun take_arrivals :: "nat \<Rightarrow> arrival list \<Rightarrow> (io_error + bytes) \<times> arrival list" where
  "take_arrivals 0 as = (Inr [], as)"
| "take_arrivals (Suc n) [] = (Inl Io_UnexpectedEof, [])"
| "take_arrivals (Suc n) (Read_Fails e # as) = (Inl e, as)"
| "take_arrivals (Suc n) (Arrive b # as) =
     (case take_arrivals n as of
        (Inl e, as') \<Rightarrow> (Inl e, as')
      | (Inr bs, as') \<Rightarrow> (Inr (b # bs), as'))"

section \<open>The connection\<close>

record connection =
  stream :: tcp
  conn_cas_info :: cas_info

type_synonym 'a conn_action = "(connection, client_error, 'a) action"

definition cas_info :: "cas_info conn_action" where
  "cas_info k = (Inr (conn_cas_info k), k)"

definition set_cas_info :: "cas_info \<Rightarrow> unit conn_action" where
  "set_cas_info cas k = (Inr (), k\<lparr>conn_cas_info := cas\<rparr>)"

text \<open>\<open>stream.read_exact(&mut buf)?\<close>\<close>

definition read_exact :: "usize \<Rightarrow> bytes conn_action" where
  "read_exact n k =
     (case take_arrivals n (arrivals (stream k)) of
        (res, as) \<Rightarrow>
          ((case res of Inl e \<Rightarrow> Inl (Err (CE_Io e)) | Inr bs \<Rightarrow> Inr bs),
           k\<lparr>stream := (stream k)\<lparr>arrivals := as\<rparr>\<rparr>))"

text \<open>\<open>stream.write_all(data)?; stream.flush()?\<close>: flushing a TCP stream does nothing.\<close>

definition tcp_write_all :: "bytes \<Rightarrow> tcp \<Rightarrow> (io_error + unit) \<times> tcp" where
  "tcp_write_all data s =
     (case room s of
        None \<Rightarrow> (Inr (), s\<lparr>sent := sent s @ data\<rparr>)
      | Some n \<Rightarrow>
          if length data \<le> n then (Inr (), s\<lparr>sent := sent s @ data, room := Some (n - length data)\<rparr>)
          else (Inl (write_error s), s\<lparr>sent := sent s @ take n data, room := Some 0\<rparr>))"

definition write_all :: "bytes \<Rightarrow> unit conn_action" where
  "write_all data k =
     (case tcp_write_all data (stream k) of
        (res, s) \<Rightarrow>
          ((case res of Inl e \<Rightarrow> Inl (Err (CE_Io e)) | Inr _ \<Rightarrow> Inr ()), k\<lparr>stream := s\<rparr>))"

definition write_raw :: "bytes \<Rightarrow> unit conn_action" where
  "write_raw data = write_all data"

definition read_exact_bytes :: "usize \<Rightarrow> bytes conn_action" where
  "read_exact_bytes n = read_exact n"

definition send_framed :: "bytes \<Rightarrow> unit conn_action" where
  "send_framed data = write_all data"

definition recv_framed :: "bytes conn_action" where
  "recv_framed =
     and_then (read_exact 4) (\<lambda>len_buf.
     let data_len = unat (be_word len_buf :: u32);
         total_len = data_len + SIZE_CAS_INFO
     in read_exact total_len)"

text \<open>\<open>write_and_close\<close> consumes the connection; what remains is the stream as it was left.\<close>

definition write_and_close :: "bytes \<Rightarrow> connection \<Rightarrow> tcp" where
  "write_and_close data k = (snd (tcp_write_all data (stream k)))\<lparr>is_shut := True\<rparr>"

section \<open>Connecting\<close>

text \<open>
  The network: the outcome of each connection attempt, in order, the addresses dialled, and
  the streams that were dropped while connecting, as they were left. An attempt covers
  resolving the name, connecting and setting the socket options; any of them fails with an I/O
  error.
\<close>

record network =
  attempts :: "(io_error + tcp) list"
  dialled :: "(bytes \<times> u16 \<times> nat) list"
  abandoned :: "tcp list"

type_synonym 'a net_action = "(network, client_error, 'a) action"

definition connect_to :: "bytes \<Rightarrow> u16 \<Rightarrow> nat \<Rightarrow> connection net_action" where
  "connect_to h p tmo net =
     (let net' = net\<lparr>dialled := dialled net @ [(h, p, tmo)], attempts := tl (attempts net)\<rparr>
      in case attempts net of
           [] \<Rightarrow> (Inl (Err (CE_Io Io_ConnectionRefused)), net')
         | Inl e # _ \<Rightarrow> (Inl (Err (CE_Io e)), net')
         | Inr s # _ \<Rightarrow> (Inr \<lparr>stream = s, conn_cas_info = CAS 0 0 0 0\<rparr>, net'))"

definition conn_connect :: "dsn \<Rightarrow> connection net_action" where
  "conn_connect d = connect_to (host d) (port d) (timeout d)"

text \<open>The stream \<open>s\<close> is dropped when \<open>m\<close> has run (a connection is replaced, or not returned).\<close>

definition dropping :: "tcp \<Rightarrow> (network, 'e, 'a) action \<Rightarrow> (network, 'e, 'a) action" where
  "dropping s m net = (case m net of (res, net') \<Rightarrow> (res, net'\<lparr>abandoned := abandoned net' @ [s]\<rparr>))"

section \<open>Reading what has arrived\<close>

abbreviation arrive :: "bytes \<Rightarrow> arrival list" where
  "arrive bs \<equiv> map Arrive bs"

lemma take_arrivals_arrive [simp]:
  "take_arrivals (length bs) (arrive bs @ as) = (Inr bs, as)"
  by (induction bs) simp_all

lemma take_arrivals_n: "n = length bs \<Longrightarrow> take_arrivals n (arrive bs @ as) = (Inr bs, as)"
  by simp

lemma take_arrivals_ok:
  "take_arrivals n as = (Inr bs, as') \<Longrightarrow> length bs = n \<and> as = arrive bs @ as'"
  by (induction n as arbitrary: bs rule: take_arrivals.induct) (auto split: prod.splits sum.splits)

lemma take_arrivals_length: "take_arrivals n as = (res, as') \<Longrightarrow> length as' \<le> length as"
  by (induction n as arbitrary: res rule: take_arrivals.induct)
    (auto split: prod.splits sum.splits intro: le_SucI)

text \<open>A frame on the wire: the body length, then the token and the body (\<open>payload\<close>).\<close>

definition frame :: "bytes \<Rightarrow> bytes" where
  "frame payload = be_bytes 4 (usize_as_u32 (length payload - 4)) @ payload"

definition frameable :: "bytes \<Rightarrow> bool" where
  "frameable payload \<longleftrightarrow> 4 \<le> length payload \<and> length payload - 4 < 2 ^ 32"

abbreviation with_arrivals :: "connection \<Rightarrow> arrival list \<Rightarrow> connection" where
  "with_arrivals k as \<equiv> k\<lparr>stream := (stream k)\<lparr>arrivals := as\<rparr>\<rparr>"

lemma unat_usize_as_u32: "n < 2 ^ 32 \<Longrightarrow> unat (usize_as_u32 n) = n"
  by (simp add: usize_as_u32_def unat_of_nat take_bit_nat_eq_self)

lemma recv_framed_frame:
  assumes "frameable payload" and "arrivals (stream k) = arrive (frame payload) @ as"
  shows "recv_framed k = (Inr payload, with_arrivals k as)"
proof -
  let ?n = "usize_as_u32 (length payload - 4)"
  have "unat (be_word (be_bytes 4 ?n) :: u32) + 4 = length payload"
    using assms(1) unat_usize_as_u32 [of "length payload - 4"] by (simp add: frameable_def)
  moreover have "take_arrivals 4 (arrivals (stream k)) = (Inr (be_bytes 4 ?n), arrive payload @ as)"
    unfolding assms(2) frame_def map_append append_assoc by (rule take_arrivals_n) simp
  ultimately show ?thesis
    by (simp add: recv_framed_def and_then_def read_exact_def)
qed

lemma recv_framed_consumes:
  assumes "recv_framed k = (Inr bs, k')"
  shows "length (arrivals (stream k')) + 8 \<le> length (arrivals (stream k))"
proof -
  obtain len as where l: "take_arrivals 4 (arrivals (stream k)) = (Inr len, as)"
    and r: "take_arrivals (unat (be_word len :: u32) + 4) as = (Inr bs, arrivals (stream k'))"
    using assms
    by (auto simp: recv_framed_def and_then_def read_exact_def Let_def split: prod.splits sum.splits)
  from take_arrivals_ok [OF l] take_arrivals_ok [OF r] show ?thesis by auto
qed

lemma stream_framed:
  "snd (recv_framed k) = with_arrivals k (arrivals (stream (snd (recv_framed k))))"
  by (auto simp: recv_framed_def and_then_def read_exact_def Let_def split: prod.splits sum.splits)

end
