(* ===== verification/Sql_Interpolation.thy ===== *)
theory Sql_Interpolation
  imports Values
begin

text \<open>
  \<open>interpolate_params\<close> and \<open>format_value\<close> of \<open>crates/cubrid-client/src/lib.rs\<close> (the copies
  of the asynchronous client are in \<open>Async_Client\<close>): the parameters are written into the SQL
  text as literals. The lexer at the end is the receiving side: how SQL text divides into
  code and string literals.
\<close>

section \<open>Literals\<close>

text \<open>\<open>v.replace('\'', "''")\<close>\<close>

definition replace_quotes :: "bytes \<Rightarrow> bytes" where
  "replace_quotes s = concat (map (\<lambda>b. if b = 39 then [39, 39] else [b]) s)"

fun format_value :: "float_fmt \<Rightarrow> db_value \<Rightarrow> bytes" where
  "format_value ff V_Null = bytes_of ''NULL''"
| "format_value ff (V_Bool v) = (if v then bytes_of ''1'' else bytes_of ''0'')"
| "format_value ff (V_Short v) = fmt_int (sint v)"
| "format_value ff (V_Int v) = fmt_int (sint v)"
| "format_value ff (V_Long v) = fmt_int (sint v)"
| "format_value ff (V_Float v) = show_f32 ff v"
| "format_value ff (V_Double v) = show_f64 ff v"
| "format_value ff (V_String v) = [39] @ replace_quotes v @ [39]"
| "format_value ff (V_Bytes v) = bytes_of ''X'' @ [39] @ concat (map hex2 v) @ [39]"
| "format_value ff (V_Date y mo d) = bytes_of ''DATE'' @ [39] @ show_date y mo d @ [39]"
| "format_value ff (V_Time h mi s) = bytes_of ''TIME'' @ [39] @ show_time h mi s @ [39]"
| "format_value ff (V_Timestamp y mo d h mi s) =
     bytes_of ''TIMESTAMP'' @ [39] @ show_date y mo d @ [32] @ show_time h mi s @ [39]"
| "format_value ff (V_Datetime y mo d h mi s ms) =
     bytes_of ''DATETIME'' @ [39] @ show_date y mo d @ [32] @ show_time h mi s @ [46]
     @ fmt_int_pad 3 (sint ms) @ [39]"

section \<open>Interpolation\<close>

text \<open>
  \<open>for inner in chars.by_ref() { result.push(inner); if inner == '\'' { break; } }\<close>: the
  characters pushed and the characters left.
\<close>

fun copy_literal :: "bytes list \<Rightarrow> bytes \<times> bytes list" where
  "copy_literal [] = ([], [])"
| "copy_literal (inner # cs) =
     (if inner = [39] then (inner, cs)
      else (let (out, rest) = copy_literal cs in (inner @ out, rest)))"

lemma copy_literal_length: "copy_literal cs = (out, rest) \<Longrightarrow> length rest \<le> length cs"
  by (induction cs arbitrary: out) (auto split: if_splits prod.splits intro: le_SucI)

text \<open>The \<open>while let Some(ch) = chars.next()\<close> loop, with the parameters that are left.\<close>

function interpolate_loop :: "float_fmt \<Rightarrow> db_value list \<Rightarrow> bytes list \<Rightarrow> bytes" where
  "interpolate_loop ff params [] = []"
| "interpolate_loop ff params (ch # cs) =
     (if ch = [63] \<and> params \<noteq> [] then
        format_value ff (hd params) @ interpolate_loop ff (tl params) cs
      else if ch = [39] then
        ch @ (case copy_literal cs of (out, rest) \<Rightarrow> out @ interpolate_loop ff params rest)
      else ch @ interpolate_loop ff params cs)"
  by pat_completeness auto
termination
  by (relation "measure (\<lambda>(ff, params, cs). length cs)")
    (auto simp: less_Suc_eq_le dest: copy_literal_length [OF sym])

definition interpolate_params :: "float_fmt \<Rightarrow> bytes \<Rightarrow> db_value list \<Rightarrow> bytes" where
  "interpolate_params ff sql params =
     (if params = [] then sql else interpolate_loop ff params (chars sql))"

section \<open>The template view\<close>

text \<open>
  The template of a text: its characters, with the placeholders (question marks outside
  single quotes) marked \<open>None\<close>. The scan keeps one flag, whether it is inside quotes.
\<close>

fun template :: "bool \<Rightarrow> bytes list \<Rightarrow> bytes option list" where
  "template q [] = []"
| "template q (ch # cs) =
     (if ch = [39] then Some ch # template (\<not> q) cs
      else if ch = [63] \<and> \<not> q then None # template q cs
      else Some ch # template q cs)"

text \<open>
  Filling a template: the placeholders take the parameters in order; a placeholder without
  parameter stays a question mark, a parameter without placeholder is dropped.
\<close>

fun fill :: "float_fmt \<Rightarrow> db_value list \<Rightarrow> bytes option list \<Rightarrow> bytes" where
  "fill ff ps [] = []"
| "fill ff ps (Some ch # ts) = ch @ fill ff ps ts"
| "fill ff (p # ps) (None # ts) = format_value ff p @ fill ff ps ts"
| "fill ff [] (None # ts) = 63 # fill ff [] ts"

lemma fill_copy_literal:
  "copy_literal cs = (out, rest) \<Longrightarrow> fill ff ps (template True cs) = out @ fill ff ps (template False rest)"
  by (induction cs arbitrary: out) (auto split: if_splits prod.splits)

lemma interpolate_loop_fill: "interpolate_loop ff ps cs = fill ff ps (template False cs)"
proof (induction ff ps cs rule: interpolate_loop.induct)
  case (1 ff ps)
  then show ?case by simp
next
  case (2 ff ps ch cs)
  show ?case
  proof (cases "ch = [39]")
    case True
    obtain out rest where c: "copy_literal cs = (out, rest)" by (cases "copy_literal cs")
    with 2 True show ?thesis by (simp add: fill_copy_literal)
  next
    case False
    with 2 show ?thesis by (cases "ch = [63]"; cases ps) auto
  qed
qed

lemma fill_no_params: "fill ff [] (template q cs) = concat cs"
  by (induction cs arbitrary: q) auto

lemma interpolate_params_fill: "interpolate_params ff sql ps = fill ff ps (template False (chars sql))"
  by (cases ps) (simp_all add: interpolate_params_def interpolate_loop_fill fill_no_params)

text \<open>
  C32. Interpolation is template filling: the question marks outside single-quoted text, and
  only those, are replaced, in order, by the literals of the parameters; every other
  character is copied; placeholders without parameter and parameters without placeholder
  have no effect.
\<close>

theorem interpolation_fills_template:
  "interpolate_params ff sql ps = fill ff ps (template False (chars sql))"
  by (rule interpolate_params_fill)

section \<open>How SQL text divides into code and string literals\<close>

text \<open>
  A lexer of SQL text: code, where a minus or a slash may begin a comment; a single-quoted
  literal, with a doubled quote for a quote (a quote closes it unless another one follows);
  the comments \<open>-- \<dots>\<close>, \<open>// \<dots>\<close> and \<open>/* \<dots> */\<close>; identifiers in double quotes, brackets or backquotes. A
  backslash is an ordinary character, as in the default configuration of the server.
\<close>

datatype lexer =
    Code | Minus | Slash | In_Literal | After_Quote | Line_Comment | Block_Comment | Block_Star
  | Double_Quoted | Bracketed | Backquoted

definition code_step :: "u8 \<Rightarrow> lexer" where
  "code_step b =
     (if b = 39 then In_Literal else if b = 45 then Minus else if b = 47 then Slash
      else if b = 34 then Double_Quoted else if b = 91 then Bracketed else if b = 96 then Backquoted
      else Code)"

fun lex_step :: "lexer \<Rightarrow> u8 \<Rightarrow> lexer" where
  "lex_step Code b = code_step b"
| "lex_step Minus b = (if b = 45 then Line_Comment else code_step b)"
| "lex_step Slash b = (if b = 47 then Line_Comment else if b = 42 then Block_Comment else code_step b)"
| "lex_step In_Literal b = (if b = 39 then After_Quote else In_Literal)"
| "lex_step After_Quote b = code_step b"
| "lex_step Line_Comment b = (if b = 10 then Code else Line_Comment)"
| "lex_step Block_Comment b = (if b = 42 then Block_Star else Block_Comment)"
| "lex_step Block_Star b = (if b = 47 then Code else if b = 42 then Block_Star else Block_Comment)"
| "lex_step Double_Quoted b = (if b = 34 then Code else Double_Quoted)"
| "lex_step Bracketed b = (if b = 93 then Code else Bracketed)"
| "lex_step Backquoted b = (if b = 96 then Code else Backquoted)"

text \<open>What a byte contributes to the code: the contents of literals contribute nothing, the
  quote that opens a literal stands for it, and every other byte stands for itself.\<close>

fun lex_code :: "lexer \<Rightarrow> u8 \<Rightarrow> bytes" where
  "lex_code In_Literal b = []"
| "lex_code After_Quote b = (if b = 39 then [] else [b])"
| "lex_code _ b = [b]"

primrec code_text :: "lexer \<Rightarrow> bytes \<Rightarrow> bytes" where
  "code_text l [] = []"
| "code_text l (b # bs) = lex_code l b @ code_text (lex_step l b) bs"

lemma code_text_append: "code_text l (xs @ ys) = code_text l xs @ code_text (foldl lex_step l xs) ys"
  by (induction xs arbitrary: l) simp_all

text \<open>The contents of the literal at the start of a text, and what follows it.\<close>

fun literal_body :: "bytes \<Rightarrow> (bytes \<times> bytes) option" where
  "literal_body [] = None"
| "literal_body (b # bs) =
     (if b \<noteq> 39 then map_option (\<lambda>(s, rest). (b # s, rest)) (literal_body bs)
      else (case bs of
              [] \<Rightarrow> Some ([], [])
            | c # cs \<Rightarrow>
                if c = 39 then map_option (\<lambda>(s, rest). (39 # s, rest)) (literal_body cs)
                else Some ([], bs)))"

fun read_literal :: "bytes \<Rightarrow> (bytes \<times> bytes) option" where
  "read_literal (b # bs) = (if b = 39 then literal_body bs else None)"
| "read_literal [] = None"

lemma replace_quotes_simps [simp]:
  "replace_quotes [] = []"
  "replace_quotes (b # s) = (if b = 39 then [39, 39] else [b]) @ replace_quotes s"
  by (simp_all add: replace_quotes_def)

lemma literal_body_replace_quotes:
  "rest = [] \<or> hd rest \<noteq> 39 \<Longrightarrow> literal_body (replace_quotes s @ 39 # rest) = Some (s, rest)"
  by (induction s) (auto split: list.splits)

text \<open>
  C31. A string parameter is one SQL literal whose contents are the string, whatever quotes
  it holds: the lexer that reads the literal from the interpolated text gets back exactly
  the string and exactly the text that followed the placeholder, as long as that text does
  not itself begin with a quote.
\<close>

theorem string_literal_roundtrip:
  assumes "rest = [] \<or> hd rest \<noteq> 39"
  shows "read_literal (format_value ff (V_String s) @ rest) = Some (s, rest)"
  using literal_body_replace_quotes [OF assms] by simp

theorem string_literal_roundtrip_witness:
  "read_literal (format_value \<lparr>show_f32 = \<lambda>_. [], show_f64 = \<lambda>_. []\<rparr> (V_String (bytes_of ''O'Brien' OR 1=1 --''))
      @ bytes_of '' AND x'') = Some (bytes_of ''O'Brien' OR 1=1 --'', bytes_of '' AND x'')"
  by (rule string_literal_roundtrip) (simp add: bytes_of_def)

section \<open>Injection safety\<close>

definition same_shape :: "db_value \<Rightarrow> db_value \<Rightarrow> bool" where
  "same_shape v w \<longleftrightarrow> v = w \<or> (as_str v \<noteq> None \<and> as_str w \<noteq> None)
     \<or> (value_as_bytes v \<noteq> None \<and> value_as_bytes w \<noteq> None)"

text \<open>Where a literal can stand: outside comments, quoted identifiers and other literals.\<close>

definition in_code :: "lexer \<Rightarrow> bool" where
  "in_code l \<longleftrightarrow> l \<in> {Code, Minus, Slash, After_Quote}"

text \<open>
  Every placeholder that is filled is met in code, when the statement is read with the literals
  of the parameters in place. (A negative number behind a minus sign opens a comment, so the
  values of the other parameters count.)
\<close>

fun holes_in_code :: "float_fmt \<Rightarrow> lexer \<Rightarrow> db_value list \<Rightarrow> bytes option list \<Rightarrow> bool" where
  "holes_in_code ff l ps [] \<longleftrightarrow> True"
| "holes_in_code ff l ps (Some ch # ts) \<longleftrightarrow> holes_in_code ff (foldl lex_step l ch) ps ts"
| "holes_in_code ff l (p # ps) (None # ts) \<longleftrightarrow>
     in_code l \<and> holes_in_code ff (foldl lex_step l (format_value ff p)) ps ts"
| "holes_in_code ff l [] (None # ts) \<longleftrightarrow> holes_in_code ff (lex_step l 63) [] ts"

text \<open>A quoted body: the lexer stays in the literal, and the code is that of the opening quote.\<close>

lemma lex_inside: "39 \<notin> set bs \<Longrightarrow> foldl lex_step In_Literal bs = In_Literal \<and> code_text In_Literal bs = []"
  by (induction bs) auto

lemma lex_inside_quotes:
  "foldl lex_step In_Literal (replace_quotes s) = In_Literal \<and> code_text In_Literal (replace_quotes s) = []"
  by (induction s) (auto simp: code_step_def)

lemma lex_string:
  assumes "in_code l"
  shows "foldl lex_step l (format_value ff (V_String s)) = After_Quote"
    and "code_text l (format_value ff (V_String s)) = lex_code l 39"
  using assms lex_inside_quotes [of s] by (auto simp: in_code_def code_step_def code_text_append)

lemma not_quote_hex2 [simp]: "39 \<notin> set (hex2 b)"
  using set_hex2 [of b] hex_digit_facts by auto

lemma lex_bytes:
  assumes "in_code l"
  shows "foldl lex_step l (format_value ff (V_Bytes bs)) = After_Quote"
    and "code_text l (format_value ff (V_Bytes bs)) = [88, 39]"
  using assms lex_inside [of "concat (map hex2 bs)"]
  by (auto simp: in_code_def code_step_def code_text_append bytes_of_def)

text \<open>In code, literals of the same shape leave the lexer alike and add the same code.\<close>

lemma same_shape_lex:
  assumes "same_shape v w" and "in_code l"
  shows "foldl lex_step l (format_value ff v) = foldl lex_step l (format_value ff w)
    \<and> code_text l (format_value ff v) = code_text l (format_value ff w)"
  using assms(1)
  by (cases v; cases w; simp only: same_shape_def as_str.simps value_as_bytes.simps
      lex_string [OF assms(2)] lex_bytes [OF assms(2)]; blast)

lemma code_text_fill:
  assumes "list_all2 same_shape ps qs" and "holes_in_code ff l ps ts"
  shows "code_text l (fill ff ps ts) = code_text l (fill ff qs ts) \<and> holes_in_code ff l qs ts"
  using assms
proof (induction ff l ps ts arbitrary: qs rule: holes_in_code.induct)
  case (2 ff l ps ch ts)
  then show ?case by (simp add: code_text_append)
next
  case (3 ff l p ps ts)
  then obtain w ws where qs: "qs = w # ws" and w: "same_shape p w" and ws: "list_all2 same_shape ps ws"
    by (cases qs) auto
  from 3 same_shape_lex [OF w, of l ff] ws show ?case by (simp add: qs code_text_append)
qed simp_all

text \<open>
  The condition is needed: a string with a line break leaves a comment, and one with a double
  quote leaves a quoted identifier, so there the code depends on the string.
\<close>

lemma placeholders_outside_code:
  "code_text Code (interpolate_params ff (bytes_of ''1 -- ?'') [V_String [10, 68]])
    \<noteq> code_text Code (interpolate_params ff (bytes_of ''1 -- ?'') [V_String []])"
  "code_text Code (interpolate_params ff [34, 63, 34] [V_String [34, 68]])
    \<noteq> code_text Code (interpolate_params ff [34, 63, 34] [V_String []])"
  by (simp_all add: interpolate_params_def bytes_of_def is_cont_def code_step_def)

text \<open>
  C6. Injection safety of strings: take a statement in which every placeholder stands in code,
  that is not in a comment and not in a quoted identifier (placeholders in single-quoted
  literals are not filled). Then the code of the interpolated statement, that is everything
  outside its string literals, does not depend on what the string and byte parameters contain:
  two parameter lists that differ only in the contents of strings and byte strings give
  statements with the same code, and the placeholders of the second stand in code too. (The
  lexer is that of standard SQL, with no backslash escapes, and with brackets and backquotes
  around identifiers.)
  Without the condition on placeholders this fails, and the client does not check it: in
  \<open>1 -- ?\<close> a string with a line break leaves the comment, and in \<open>"?"\<close> one with a
  double quote leaves the identifier, so that there the code does depend on the string.
\<close>

theorem interpolation_injection_safe:
  assumes "list_all2 same_shape ps qs" and "holes_in_code ff Code ps (template False (chars sql))"
  shows "code_text Code (interpolate_params ff sql ps) = code_text Code (interpolate_params ff sql qs)
    \<and> holes_in_code ff Code qs (template False (chars sql))
    \<and> code_text Code (interpolate_params ff (bytes_of ''1 -- ?'') [V_String [10, 68]])
        \<noteq> code_text Code (interpolate_params ff (bytes_of ''1 -- ?'') [V_String []])
    \<and> code_text Code (interpolate_params ff [34, 63, 34] [V_String [34, 68]])
        \<noteq> code_text Code (interpolate_params ff [34, 63, 34] [V_String []])"
  using code_text_fill [OF assms] placeholders_outside_code [of ff]
  by (simp only: interpolate_params_fill simp_thms)

theorem interpolation_injection_safe_witness:
  "code_text Code (interpolate_params \<lparr>show_f32 = \<lambda>_. [48], show_f64 = \<lambda>_. [48]\<rparr>
      (bytes_of ''SELECT [a] FROM t WHERE a=? AND b=? -- x'') [V_String (bytes_of ''x''), V_Int 1])
   = code_text Code (interpolate_params \<lparr>show_f32 = \<lambda>_. [48], show_f64 = \<lambda>_. [48]\<rparr>
      (bytes_of ''SELECT [a] FROM t WHERE a=? AND b=? -- x'')
      [V_String (39 # bytes_of ''; DROP TABLE t; --''), V_Int 1])
    \<and> holes_in_code \<lparr>show_f32 = \<lambda>_. [48], show_f64 = \<lambda>_. [48]\<rparr> Code
        [V_String (39 # bytes_of ''; DROP TABLE t; --''), V_Int 1]
        (template False (chars (bytes_of ''SELECT [a] FROM t WHERE a=? AND b=? -- x'')))"
proof -
  let ?ff = "\<lparr>show_f32 = \<lambda>_. [48], show_f64 = \<lambda>_. [48]\<rparr>"
    and ?sql = "bytes_of ''SELECT [a] FROM t WHERE a=? AND b=? -- x''"
  have "list_all2 same_shape [V_String (bytes_of ''x''), V_Int 1]
      [V_String (39 # bytes_of ''; DROP TABLE t; --''), V_Int 1]"
    by (simp add: same_shape_def)
  moreover have "dec_digits 1 = [49]" by (simp add: dec_digits.simps)
  then have "fmt_int 1 = [49]" by (simp add: fmt_int_def)
  then have "holes_in_code ?ff Code [V_String (bytes_of ''x''), V_Int 1] (template False (chars ?sql))"
    by (simp add: bytes_of_def is_cont_def code_step_def in_code_def)
  ultimately show ?thesis using interpolation_injection_safe by blast
qed

text \<open>
  Numbers are not protected the same way: a negative number right after a minus sign
  turns the rest of the line into a comment.
\<close>

theorem negative_number_comments_out:
  "interpolate_params ff (bytes_of ''5-? + 1'') [V_Int (- 3)] = bytes_of ''5--3 + 1''"
proof -
  have "dec_digits 3 = [51]" by (simp add: dec_digits.simps)
  then have "fmt_int (- 3) = [45, 51]" by (simp add: fmt_int_def)
  then show ?thesis
    by (simp add: interpolate_params_def bytes_of_def is_cont_def)
qed

end
