(* ===== verification/Client.thy ===== *)
theory Client
  imports Transport Sql_Interpolation
begin

text \<open>
  \<open>crates/cubrid-client/src/lib.rs\<close>: the synchronous client. Its operations are actions on
  the client; the connection inside it is an option, as in the code. \<open>ff\<close> is the text that
  Rust prints for floats. The arithmetic on row counts wraps, as in a release build.
\<close>

section \<open>State\<close>

text \<open>
  \<open>released\<close> is not in the code: it keeps the streams of the connections that the client has
  dropped, so that what was written to them last can be stated.
\<close>

record client =
  conn :: "connection option"
  client_auto_commit :: bool
  client_proto_version :: i32
  released :: "tcp list"

type_synonym 'a client_action = "(client, client_error, 'a) action"

record query_result =
  qr_columns :: "column_metadata list"
  qr_rows :: "row list"
  qr_total_count :: i32

record statement =
  stmt_query_handle :: i32
  stmt_statement_type :: statement_type
  stmt_bind_count :: i32
  stmt_columns :: "column_metadata list"
  stmt_closed :: bool
  stmt_sql :: bytes

definition column_names :: "query_result \<Rightarrow> bytes list" where
  "column_names r = map name (qr_columns r)"

definition result_len :: "query_result \<Rightarrow> usize" where
  "result_len r = length (qr_rows r)"

text \<open>The two \<open>IntoIterator\<close> implementations yield the rows in order.\<close>

definition rows_iter :: "query_result \<Rightarrow> row list" where
  "rows_iter r = qr_rows r"

definition rows_into_iter :: "query_result \<Rightarrow> row list" where
  "rows_into_iter r = qr_rows r"

definition statement_bind_count :: "statement \<Rightarrow> i32" where
  "statement_bind_count s = stmt_bind_count s"

definition statement_type_of :: "statement \<Rightarrow> statement_type" where
  "statement_type_of s = stmt_statement_type s"

definition statement_columns :: "statement \<Rightarrow> column_metadata list" where
  "statement_columns s = stmt_columns s"

definition result_is_empty :: "query_result \<Rightarrow> bool" where
  "result_is_empty r \<longleftrightarrow> qr_rows r = []"

section \<open>Running on the connection\<close>

text \<open>\<open>self.conn_mut()?\<close> followed by operations on the connection.\<close>

definition on_conn :: "'a conn_action \<Rightarrow> 'a client_action" where
  "on_conn m c =
     (case conn c of
        None \<Rightarrow> (Inl (Err CE_ConnectionClosed), c)
      | Some k \<Rightarrow> (case m k of (res, k') \<Rightarrow> (res, c\<lparr>conn := Some k'\<rparr>)))"

text \<open>\<open>?\<close> on a protocol result, with the conversion to the client's error.\<close>

definition lift_proto :: "(protocol_error, 'a) outcome \<Rightarrow> 'a conn_action" where
  "lift_proto res k = (map_err CE_Protocol res, k)"

text \<open>One request and its response: \<open>req\<close> builds the frame from the current token.\<close>

definition round_trip :: "(cas_info \<Rightarrow> bytes) \<Rightarrow> bytes conn_action" where
  "round_trip req =
     and_then cas_info (\<lambda>cas.
     and_then (send_framed (req cas)) (\<lambda>_. recv_framed))"

text \<open>A request whose parsed response carries the next token.\<close>

definition request ::
  "(cas_info \<Rightarrow> bytes) \<Rightarrow> (bytes \<Rightarrow> (protocol_error, 'a \<times> cas_info) outcome) \<Rightarrow> 'a conn_action" where
  "request req parse =
     and_then (round_trip req) (\<lambda>resp.
     and_then (lift_proto (parse resp)) (\<lambda>(result, new_cas_info).
     and_then (set_cas_info new_cas_info) (\<lambda>_. ok result)))"

definition parse_simple_body :: "cas_info parser" where
  "parse_simple_body =
     and_then parse_cas_info (\<lambda>cas.
     and_then parse_int (\<lambda>code.
     if sint code < 0 then return_server_error else ok cas))"

definition parse_simple_response :: "bytes \<Rightarrow> (protocol_error, cas_info) outcome" where
  "parse_simple_response data = run_parser parse_simple_body data"

section \<open>Connecting\<close>

definition on_new_conn :: "'a conn_action \<Rightarrow> connection \<Rightarrow> ('a \<times> connection) net_action" where
  "on_new_conn m k net =
     (case m k of
        (Inl e, k') \<Rightarrow> dropping (stream k') (\<lambda>net. (Inl e, net)) net
      | (Inr x, k') \<Rightarrow> (Inr (x, k'), net))"

definition open_database :: "dsn \<Rightarrow> open_database_result conn_action" where
  "open_database d =
     and_then (write_raw (write_open_database (database d) (user d) (password d))) (\<lambda>_.
     and_then recv_framed (\<lambda>response_data.
     and_then (lift_proto (parse_open_database response_data)) (\<lambda>result.
     and_then (set_cas_info (odr_cas_info result)) (\<lambda>_. ok result))))"

definition connect_with_dsn :: "dsn \<Rightarrow> client net_action" where
  "connect_with_dsn d =
     and_then (conn_connect d) (\<lambda>k.
     and_then (on_new_conn (and_then (write_raw write_client_info_exchange)
                 (\<lambda>_. read_exact_bytes BROKER_RESPONSE_SIZE)) k) (\<lambda>(port_bytes, k).
     let redirect_port = parse_client_info_exchange (take 4 port_bytes) in
     if sint redirect_port < 0 then
       dropping (stream k) (throw (CE_ServerError redirect_port (bytes_of ''broker rejected connection'')))
     else
       and_then (if sint redirect_port > 0
                 then dropping (stream k) (connect_to (host d) (ucast redirect_port) (timeout d))
                 else ok k) (\<lambda>k.
       and_then (on_new_conn (open_database d) k) (\<lambda>(result, k).
       ok \<lparr>conn = Some k, client_auto_commit = auto_commit d,
            client_proto_version = odr_proto_version result, released = []\<rparr>))))"

definition client_connect :: "bytes \<Rightarrow> client net_action" where
  "client_connect text =
     (case dsn_parse text of
        Inl e \<Rightarrow> throw (CE_InvalidDsn e)
      | Inr d \<Rightarrow> connect_with_dsn d)"

section \<open>Helpers of the operations\<close>

text \<open>Best-effort: send and receive errors are ignored, the token of the response too.\<close>

definition close_query_handle :: "i32 \<Rightarrow> unit client_action" where
  "close_query_handle handle c =
     (case conn c of
        None \<Rightarrow> (Inr (), c)
      | Some k \<Rightarrow>
          (case send_framed (write_close_req_handle handle (conn_cas_info k)) k of
             (Inl _, k') \<Rightarrow> (Inr (), c\<lparr>conn := Some k'\<rparr>)
           | (Inr _, k') \<Rightarrow> (Inr (), c\<lparr>conn := Some (snd (recv_framed k'))\<rparr>)))"

definition end_tran :: "transaction_type \<Rightarrow> unit client_action" where
  "end_tran tran_type =
     on_conn (request (write_end_tran tran_type)
       (\<lambda>resp. case parse_simple_response resp of Inl e \<Rightarrow> Inl e | Inr cas \<Rightarrow> Inr ((), cas)))"

definition affected_rows :: "result_info list \<Rightarrow> u64" where
  "affected_rows infos = foldl (\<lambda>affected info. affected + i32_as_u64 (result_count info)) 0 infos"

text \<open>The part that \<open>execute\<close> and \<open>query\<close> share: interpolate, FC=41, store the token.\<close>

definition prepare_and_execute ::
  "float_fmt \<Rightarrow> bytes \<Rightarrow> db_value list \<Rightarrow> prepare_and_execute_result client_action" where
  "prepare_and_execute ff sql params c =
     on_conn (request
       (write_prepare_and_execute (interpolate_params ff sql params) (client_auto_commit c))
       (\<lambda>resp. parse_prepare_and_execute resp (client_proto_version c))) c"

text \<open>One round of the loop of \<open>fetch_remaining\<close>.\<close>

definition fetch_once ::
  "i32 \<Rightarrow> column_metadata list \<Rightarrow> statement_type \<Rightarrow> i32 \<Rightarrow> fetch_result client_action" where
  "fetch_once handle columns st fetched_count =
     on_conn (request (write_fetch handle fetched_count DEFAULT_FETCH_SIZE)
       (\<lambda>resp. parse_fetch resp columns st))"

definition pending :: "client \<Rightarrow> nat" where
  "pending c = (case conn c of None \<Rightarrow> 0 | Some k \<Rightarrow> length (arrivals (stream k)))"

lemma arrivals_write_all [simp]: "arrivals (stream (snd (write_all data k))) = arrivals (stream k)"
  by (simp add: write_all_def tcp_write_all_def split: option.splits)

lemma request_consumes:
  "request req parse k = (Inr x, k') \<Longrightarrow>
     length (arrivals (stream k')) + 8 \<le> length (arrivals (stream k))"
proof -
  assume "request req parse k = (Inr x, k')"
  then obtain resp k1 where r: "round_trip req k = (Inr resp, k1)" and k': "stream k' = stream k1"
    by (auto simp: request_def lift_proto_def set_cas_info_def elim!: and_then_eq_InrE)
  from r obtain k0 where w: "send_framed (req (conn_cas_info k)) k = (Inr (), k0)"
    and v: "recv_framed k0 = (Inr resp, k1)"
    by (auto simp: round_trip_def cas_info_def elim!: and_then_eq_InrE)
  from w have "arrivals (stream k0) = arrivals (stream k)"
    unfolding send_framed_def by (metis arrivals_write_all snd_conv)
  with recv_framed_consumes [OF v] k' show ?thesis by simp
qed

lemma fetch_once_consumes: "fetch_once h cols st n c = (Inr x, c') \<Longrightarrow> pending c' + 8 \<le> pending c"
  by (auto simp: fetch_once_def on_conn_def pending_def dest: request_consumes
      split: option.splits prod.splits)

text \<open>
  The loop of \<open>fetch_remaining\<close>. It ends because every round that continues has read a whole
  frame, at least eight bytes of what arrives.
\<close>

function fetch_loop ::
  "i32 \<Rightarrow> column_metadata list \<Rightarrow> statement_type \<Rightarrow> i32 \<Rightarrow> i32 \<Rightarrow> row list \<Rightarrow> row list client_action" where
  "fetch_loop h cols st total_count fetched_count rows c =
     (if sint fetched_count < sint total_count then
        (case fetch_once h cols st fetched_count c of
           (Inl e, c') \<Rightarrow> (Inl e, c')
         | (Inr fetched, c') \<Rightarrow>
             if fetch_tuple_count fetched = 0 then (Inr rows, c')
             else fetch_loop h cols st total_count (fetched_count + fetch_tuple_count fetched)
                    (rows @ fetch_rows fetched) c')
      else (Inr rows, c))"
  by pat_completeness auto
termination
  by (relation "measure (\<lambda>(h, cols, st, total_count, fetched, rows, c). pending c)")
    (auto dest: fetch_once_consumes [OF sym])

declare fetch_loop.simps [simp del]

definition fetch_remaining ::
  "i32 \<Rightarrow> column_metadata list \<Rightarrow> statement_type \<Rightarrow> i32 \<Rightarrow> row list \<Rightarrow> row list client_action" where
  "fetch_remaining handle columns st total_count rows =
     fetch_loop handle columns st total_count (usize_as_i32 (length rows)) rows"

section \<open>Operations\<close>

definition execute :: "float_fmt \<Rightarrow> bytes \<Rightarrow> db_value list \<Rightarrow> u64 client_action" where
  "execute ff sql params =
     and_then (prepare_and_execute ff sql params) (\<lambda>result.
     and_then (if sint (pae_query_handle result) > 0
               then close_query_handle (pae_query_handle result) else ok ()) (\<lambda>_.
     ok (affected_rows (pae_result_infos result))))"

definition query :: "float_fmt \<Rightarrow> bytes \<Rightarrow> db_value list \<Rightarrow> query_result client_action" where
  "query ff sql params =
     and_then (prepare_and_execute ff sql params) (\<lambda>result.
     let query_handle = pae_query_handle result;
         total_count = pae_total_tuple_count result;
         columns = pae_columns result;
         st = pae_statement_type result;
         all_rows = pae_rows result
     in
     and_then (if is_select st \<and> sint (usize_as_i32 (length all_rows)) < sint total_count
               then fetch_remaining query_handle columns st total_count all_rows
               else ok all_rows) (\<lambda>all_rows.
     and_then (if sint query_handle > 0 then close_query_handle query_handle else ok ()) (\<lambda>_.
     ok \<lparr>qr_columns = columns, qr_rows = all_rows, qr_total_count = total_count\<rparr>)))"

definition prepare :: "bytes \<Rightarrow> statement client_action" where
  "prepare sql c =
     and_then (on_conn (request (write_prepare sql (client_auto_commit c)) parse_prepare)) (\<lambda>result.
     ok \<lparr>stmt_query_handle = prep_query_handle result,
          stmt_statement_type = prep_statement_type result,
          stmt_bind_count = prep_bind_count result, stmt_columns = prep_columns result,
          stmt_closed = False, stmt_sql = sql\<rparr>) c"

definition commit :: "unit client_action" where
  "commit = end_tran Commit"

definition rollback :: "unit client_action" where
  "rollback = end_tran Rollback"

definition ping :: "bytes client_action" where
  "ping c = on_conn (request (write_get_db_version (client_auto_commit c)) parse_get_db_version) c"

text \<open>\<open>dbg\<close> is the derived \<open>Debug\<close> text of a value, used for the types that have no case.\<close>

definition last_insert_id :: "float_fmt \<Rightarrow> (db_value \<Rightarrow> bytes) \<Rightarrow> bytes client_action" where
  "last_insert_id ff dbg =
     and_then (query ff (bytes_of ''SELECT LAST_INSERT_ID()'') []) (\<lambda>result.
     case qr_rows result of
       (v # _) # _ \<Rightarrow>
         ok (case v of V_Null \<Rightarrow> [] | V_Int i \<Rightarrow> fmt_int (sint i) | V_Long l \<Rightarrow> fmt_int (sint l)
             | V_Short s \<Rightarrow> fmt_int (sint s) | V_String s \<Rightarrow> s | other \<Rightarrow> dbg other)
     | _ \<Rightarrow> ok [])"

definition set_auto_commit :: "bool \<Rightarrow> client \<Rightarrow> client" where
  "set_auto_commit b c = c\<lparr>client_auto_commit := b\<rparr>"

definition get_auto_commit :: "client \<Rightarrow> bool" where
  "get_auto_commit c = client_auto_commit c"

definition get_proto_version :: "client \<Rightarrow> i32" where
  "get_proto_version c = client_proto_version c"

definition is_closed :: "client \<Rightarrow> bool" where
  "is_closed c \<longleftrightarrow> conn c = None"

definition close :: "unit client_action" where
  "close c =
     (case conn c of
        None \<Rightarrow> (Inr (), c)
      | Some k \<Rightarrow>
          (Inr (), c\<lparr>conn := None,
             released := released c @ [write_and_close (write_con_close (conn_cas_info k)) k]\<rparr>))"

text \<open>\<open>Drop for Client\<close>\<close>

definition drop_client :: "client \<Rightarrow> client" where
  "drop_client c = snd (close c)"

section \<open>Statements\<close>

definition run_statement :: "statement \<Rightarrow> db_value list \<Rightarrow> execute_result client_action" where
  "run_statement s params c =
     on_conn (request
       (write_execute (stmt_query_handle s) (stmt_statement_type s) params (client_auto_commit c))
       (\<lambda>resp. parse_execute resp (stmt_columns s) (stmt_statement_type s) (client_proto_version c))) c"

definition statement_execute :: "float_fmt \<Rightarrow> statement \<Rightarrow> db_value list \<Rightarrow> u64 client_action" where
  "statement_execute ff s params =
     (if stmt_closed s then throw CE_ConnectionClosed
      else if params \<noteq> [] then execute ff (stmt_sql s) params
      else and_then (run_statement s params) (\<lambda>result. ok (affected_rows (exec_result_infos result))))"

definition statement_query :: "statement \<Rightarrow> db_value list \<Rightarrow> query_result client_action" where
  "statement_query s params =
     throw (CE_Protocol (PE_InvalidPacket
       (bytes_of ''use Statement::query_with(client, params) instead'')))"

definition query_with :: "float_fmt \<Rightarrow> statement \<Rightarrow> db_value list \<Rightarrow> query_result client_action" where
  "query_with ff s params =
     (if stmt_closed s then throw CE_ConnectionClosed
      else if params \<noteq> [] then query ff (stmt_sql s) params
      else
        and_then (run_statement s params) (\<lambda>result.
        let total_count = exec_total_tuple_count result; all_rows = exec_rows result in
        and_then (if is_select (stmt_statement_type s)
                     \<and> sint (usize_as_i32 (length all_rows)) < sint total_count
                  then fetch_remaining (stmt_query_handle s) (stmt_columns s) (stmt_statement_type s)
                         total_count all_rows
                  else ok all_rows) (\<lambda>all_rows.
        ok \<lparr>qr_columns = stmt_columns s, qr_rows = all_rows, qr_total_count = total_count\<rparr>)))"

text \<open>\<open>Statement::close\<close> changes the statement as well as the client.\<close>

definition statement_close :: "(statement \<times> client, client_error, unit) action" where
  "statement_close = (\<lambda>(s, c).
     if stmt_closed s then (Inr (), (s, c))
     else
       let s = s\<lparr>stmt_closed := True\<rparr> in
       if sint (stmt_query_handle s) > 0
       then (Inr (), (s\<lparr>stmt_query_handle := 0\<rparr>, snd (close_query_handle (stmt_query_handle s) c)))
       else (Inr (), (s, c)))"

end
