(* ===== verification/Result_Typing.thy ===== *)
theory Result_Typing
  imports Client
begin

text \<open>
  What the results are, whatever the server sends: every \<open>String\<close> holds UTF-8 (the invariant
  of Rust's type), every column has been decoded, and every row has one value per column, of
  the column's type or \<open>NULL\<close>. \<open>yields P m\<close> says that \<open>m\<close> returns only values with \<open>P\<close>; it is
  closed under sequencing like \<open>tame\<close>.
\<close>

section \<open>What an action returns\<close>

definition yields :: "('a \<Rightarrow> bool) \<Rightarrow> ('s, 'e, 'a) action \<Rightarrow> bool" where
  "yields P m \<longleftrightarrow> (\<forall>s x s'. m s = (Inr x, s') \<longrightarrow> P x)"

named_theorems yields_intros \<open>what actions return, and how it composes\<close>

lemma yieldsD: "yields P m \<Longrightarrow> m s = (Inr x, s') \<Longrightarrow> P x"
  unfolding yields_def by blast

lemma yields_mono: "yields P m \<Longrightarrow> (\<And>x. P x \<Longrightarrow> Q x) \<Longrightarrow> yields Q m"
  by (auto simp: yields_def)

lemma yields_ok [yields_intros]: "P x \<Longrightarrow> yields P (ok x)"
  and yields_throw [yields_intros]: "yields P (throw e)"
  and yields_panic [yields_intros]: "yields P (panic q)"
  by (simp_all add: yields_def)

text \<open>The rest of a computation may rely on what its first part returns, or on nothing.\<close>

lemma yields_and_then: "yields Q m \<Longrightarrow> (\<And>x. Q x \<Longrightarrow> yields P (f x)) \<Longrightarrow> yields P (and_then m f)"
  unfolding yields_def by (blast elim: and_then_eq_InrE)

lemma yields_bind [yields_intros]: "(\<And>x. yields P (f x)) \<Longrightarrow> yields P (and_then m f)"
  unfolding yields_def by (blast elim: and_then_eq_InrE)

lemma yields_if [yields_intros]:
  "(b \<Longrightarrow> yields P m) \<Longrightarrow> (\<not> b \<Longrightarrow> yields P n) \<Longrightarrow> yields P (if b then m else n)"
  by simp

lemma yields_option [yields_intros]:
  "(opt = None \<Longrightarrow> yields P m) \<Longrightarrow> (\<And>x. opt = Some x \<Longrightarrow> yields P (f x)) \<Longrightarrow>
     yields P (case opt of None \<Rightarrow> m | Some x \<Rightarrow> f x)"
  by (cases opt) simp_all

lemma yields_prod [yields_intros]: "(\<And>x y. z = (x, y) \<Longrightarrow> yields P (f x y)) \<Longrightarrow> yields P (case z of (x, y) \<Rightarrow> f x y)"
  by (cases z) simp

lemma yields_times_do:
  assumes "yields P m"
  shows "yields (\<lambda>xs. length xs = n \<and> list_all P xs) (times_do n m)"
proof (induction n)
  case 0
  show ?case unfolding times_do.simps by (rule yields_ok) simp
next
  case (Suc n)
  show ?case
    unfolding times_do.simps by (intro yields_and_then [OF assms] yields_and_then [OF Suc] yields_ok) simp
qed

lemma yields_map_do:
  assumes "\<And>y. yields (P y) (f y)"
  shows "yields (\<lambda>xs. list_all2 P ys xs) (map_do f ys)"
proof (induction ys)
  case Nil
  show ?case unfolding map_do.simps by (rule yields_ok) simp
next
  case (Cons y ys)
  show ?case
    unfolding map_do.simps by (intro yields_and_then [OF assms] yields_and_then [OF Cons] yields_ok) simp
qed

section \<open>Well-typed values\<close>

text \<open>The constructor that a column of each type is read into.\<close>

fun has_type :: "data_type \<Rightarrow> db_value \<Rightarrow> bool" where
  "has_type t V_Null \<longleftrightarrow> t = DT_Null"
| "has_type t (V_Bool _) \<longleftrightarrow> False"
| "has_type t (V_Short _) \<longleftrightarrow> t = DT_Short"
| "has_type t (V_Int _) \<longleftrightarrow> t = DT_Int"
| "has_type t (V_Long _) \<longleftrightarrow> t = DT_Bigint"
| "has_type t (V_Float _) \<longleftrightarrow> t = DT_Float"
| "has_type t (V_Double _) \<longleftrightarrow> t \<in> {DT_Double, DT_Monetary}"
| "has_type t (V_String s) \<longleftrightarrow>
     t \<in> {DT_Char, DT_String, DT_NChar, DT_VarNChar, DT_Enum, DT_Numeric} \<and> utf8_valid s"
| "has_type t (V_Bytes _) \<longleftrightarrow>
     t \<in> {DT_Bit, DT_VarBit, DT_Blob, DT_Clob, DT_Set, DT_Multiset, DT_Sequence, DT_Object}"
| "has_type t (V_Date _ _ _) \<longleftrightarrow> t = DT_Date"
| "has_type t (V_Time _ _ _) \<longleftrightarrow> t = DT_Time"
| "has_type t (V_Timestamp _ _ _ _ _ _) \<longleftrightarrow> t = DT_Timestamp"
| "has_type t (V_Datetime _ _ _ _ _ _ _) \<longleftrightarrow> t = DT_Datetime"

text \<open>
  A cell may be \<open>NULL\<close>. In a column without a type of its own, and in the result of a call, it
  has the type that its type byte names, or is bytes if that names none.
\<close>

definition cell_typed :: "bool \<Rightarrow> column_metadata \<Rightarrow> db_value \<Rightarrow> bool" where
  "cell_typed is_call_type col v \<longleftrightarrow>
     v = V_Null
     \<or> (if is_call_type \<or> column_type col = DT_Null
        then (\<exists>t. has_type t v) \<or> (\<exists>bs. v = V_Bytes bs)
        else has_type (column_type col) v)"

definition row_typed :: "bool \<Rightarrow> column_metadata list \<Rightarrow> row \<Rightarrow> bool" where
  "row_typed is_call_type columns vs \<longleftrightarrow> list_all2 (cell_typed is_call_type) columns vs"

definition column_typed :: "column_metadata \<Rightarrow> bool" where
  "column_typed col \<longleftrightarrow> utf8_valid (name col) \<and> utf8_valid (real_name col)
     \<and> utf8_valid (table_name col) \<and> utf8_valid (default_value col)"

section \<open>The parsers return well-typed values\<close>

lemma from_utf8_valid: "from_utf8 bs = Inr s \<Longrightarrow> utf8_valid s"
  by (auto simp: from_utf8_def split: option.splits)

lemma yields_null_term_string: "yields utf8_valid (parse_null_term_string n)"
  unfolding parse_null_term_string_def lift_utf8_def
  by (intro yields_intros) (auto intro!: yields_intros split: sum.split dest: from_utf8_valid)

lemma yields_sized_string: "yields utf8_valid parse_sized_string"
  unfolding parse_sized_string_def by (intro yields_intros yields_null_term_string)

lemma yields_one_column: "yields column_typed parse_one_column"
  unfolding parse_one_column_def
  by (intro yields_bind yields_and_then [OF yields_sized_string] yields_ok) (simp add: column_typed_def)

lemma yields_columns: "yields (list_all column_typed) (parse_column_metadata n)"
  unfolding parse_column_metadata_def
  by (rule yields_bind, rule yields_mono [OF yields_times_do [OF yields_one_column]]) simp

lemma yields_string: "(\<And>x. utf8_valid x \<Longrightarrow> P (V_String x)) \<Longrightarrow>
  yields P (and_then (parse_null_term_string n) (\<lambda>x. ok (V_String x)))"
  by (intro yields_and_then [OF yields_null_term_string] yields_ok)

lemma yields_read_value: "yields (has_type t) (read_value t n)"
proof (cases "t \<in> {DT_Char, DT_String, DT_NChar, DT_VarNChar, DT_Enum, DT_Numeric}")
  case True
  then show ?thesis by (elim insertE emptyE; simp only: read_value.simps; intro yields_string) simp_all
next
  case False
  then show ?thesis by (cases t) (auto intro!: yields_intros)
qed

lemma yields_cell: "yields (cell_typed c col) (parse_cell c col)"
proof -
  have "yields (cell_typed c col) (read_value t n)" if "c \<or> column_type col = DT_Null" for t n
    by (rule yields_mono [OF yields_read_value]) (use that in \<open>auto simp: cell_typed_def\<close>)
  moreover have "yields (cell_typed c col) (read_value (column_type col) n)" for n
    by (rule yields_mono [OF yields_read_value]) (auto simp: cell_typed_def)
  ultimately show ?thesis
    unfolding parse_cell_def Let_def by (intro yields_intros) (auto simp: cell_typed_def)
qed

lemma yields_row: "yields (row_typed c cols) (parse_one_row c cols)"
  unfolding parse_one_row_def row_typed_def by (intro yields_bind yields_map_do yields_cell)

lemma yields_row_data:
  "yields (\<lambda>rows. length rows = nat (sint n) \<and> list_all (row_typed (is_call st) cols) rows)
     (parse_row_data n cols st)"
  unfolding parse_row_data_def Let_def by (intro yields_bind yields_times_do yields_row)

lemma select_not_call: "is_select st \<Longrightarrow> \<not> is_call st"
  by (simp add: is_select_def is_call_def)

lemma yields_inline_rows:
  "yields (\<lambda>(n, rows). list_all (row_typed False cols) rows \<and> (\<not> is_select st \<longrightarrow> rows = []))
     (parse_inline_rows need cols st)"
  unfolding parse_inline_rows_def
  by (intro yields_bind yields_if yields_ok yields_and_then [OF yields_row_data]) (auto dest: select_not_call)

text \<open>The bodies of the response parsers, through the shared head.\<close>

lemma yields_response_head:
  assumes "\<And>cas rc. yields P (body cas rc)"
  shows "yields P (response_head body)"
proof -
  have "yields P return_server_error"
    by (auto simp: yields_def return_server_error_def elim!: and_then_eq_InrE split: prod.splits)
  with assms show ?thesis unfolding response_head_def by (intro yields_bind yields_if)
qed

lemma yields_prepare_and_execute:
  "yields (\<lambda>(r, cas). list_all column_typed (pae_columns r)
      \<and> list_all (row_typed False (pae_columns r)) (pae_rows r))
    (parse_prepare_and_execute_body v)"
  unfolding parse_prepare_and_execute_body_def Let_def
  by (intro yields_response_head yields_and_then [OF yields_columns] yields_and_then [OF yields_inline_rows]
      yields_bind yields_prod yields_ok) auto

lemma yields_prepare: "yields (\<lambda>(r, cas). list_all column_typed (prep_columns r)) parse_prepare_body"
  unfolding parse_prepare_body_def Let_def
  by (intro yields_response_head yields_and_then [OF yields_columns] yields_bind yields_ok) auto

lemma yields_execute:
  "yields (\<lambda>(r, cas). list_all (row_typed False cols) (exec_rows r)) (parse_execute_body cols st v)"
  unfolding parse_execute_body_def Let_def
  by (intro yields_response_head yields_and_then [OF yields_inline_rows] yields_bind yields_prod yields_ok) auto

lemma yields_fetch:
  "yields (\<lambda>(r, cas). list_all (row_typed (is_call st) cols) (fetch_rows r)) (parse_fetch_body cols st)"
proof -
  have rows: "yields (list_all (row_typed (is_call st) cols))
      (if sint n > 0 \<and> cols \<noteq> [] then parse_row_data n cols st else ok [])" for n :: i32
    by (intro yields_if yields_ok yields_mono [OF yields_row_data]) auto
  show ?thesis
    unfolding parse_fetch_body_def
    by (rule yields_response_head, rule yields_bind, rule yields_and_then [OF rows], rule yields_ok) simp
qed

section \<open>The client's operations\<close>

lemma yields_request:
  assumes "yields P body" and "\<And>data. parse data = run_parser body data"
  shows "yields (\<lambda>x. \<exists>cas. P (x, cas)) (request req parse)"
proof -
  have "yields P (lift_proto (parse data))" for data
    unfolding yields_def lift_proto_def assms(2) run_parser_def
    using assms(1) by (auto simp: yields_def elim!: map_err.elims split: sum.splits)
      (metis prod.collapse)
  then show ?thesis
    unfolding request_def
    by (intro yields_bind yields_and_then [of P] yields_prod yields_ok) auto
qed

definition result_typed :: "query_result \<Rightarrow> bool" where
  "result_typed q \<longleftrightarrow> list_all (row_typed False (qr_columns q)) (qr_rows q)"

lemma yields_on_conn: "yields P m \<Longrightarrow> yields P (on_conn m)"
  unfolding yields_def on_conn_def by (auto split: option.splits prod.splits)

lemma yields_prepare_and_execute_op:
  "yields (\<lambda>r. list_all column_typed (pae_columns r)
      \<and> list_all (row_typed False (pae_columns r)) (pae_rows r)) (prepare_and_execute ff sql ps)"
proof -
  have "yields (\<lambda>r. list_all column_typed (pae_columns r)
      \<and> list_all (row_typed False (pae_columns r)) (pae_rows r))
      (on_conn (request req (\<lambda>resp. parse_prepare_and_execute resp v)))" for req v
    by (rule yields_on_conn, rule yields_mono [OF yields_request [OF yields_prepare_and_execute]])
      (auto simp: parse_prepare_and_execute_def)
  then show ?thesis unfolding yields_def prepare_and_execute_def by blast
qed

lemma yields_run_statement:
  "yields (\<lambda>r. list_all (row_typed False (stmt_columns s)) (exec_rows r)) (run_statement s ps)"
proof -
  have "yields (\<lambda>r. list_all (row_typed False (stmt_columns s)) (exec_rows r))
      (on_conn (request req (\<lambda>resp. parse_execute resp (stmt_columns s) st v)))" for req st v
    by (rule yields_on_conn, rule yields_mono [OF yields_request [OF yields_execute]])
      (auto simp: parse_execute_def)
  then show ?thesis unfolding yields_def run_statement_def by blast
qed

lemma yields_fetch_once:
  "yields (\<lambda>r. list_all (row_typed (is_call st) cols) (fetch_rows r)) (fetch_once h cols st n)"
  unfolding fetch_once_def
  by (rule yields_on_conn, rule yields_mono [OF yields_request [OF yields_fetch]]) (auto simp: parse_fetch_def)

lemma fetch_loop_typed:
  "fetch_loop h cols st t n rows c = (Inr rows', c') \<Longrightarrow>
     list_all (row_typed (is_call st) cols) rows \<Longrightarrow> list_all (row_typed (is_call st) cols) rows'"
proof (induction h cols st t n rows c rule: fetch_loop.induct)
  case (1 h cols st t n rows c)
  obtain res c1 where f: "fetch_once h cols st n c = (res, c1)" by (cases "fetch_once h cols st n c")
  show ?case
  proof (cases "sint n < sint t \<and> (\<exists>x. res = Inr x \<and> fetch_tuple_count x \<noteq> 0)")
    case True
    then obtain x where x: "res = Inr x" "fetch_tuple_count x \<noteq> 0" and lt: "sint n < sint t" by blast
    have "list_all (row_typed (is_call st) cols) (fetch_rows x)"
      by (rule yieldsD [OF yields_fetch_once]) (use f x in simp)
    with 1 lt f x show ?thesis by (simp add: fetch_loop.simps [of h cols st t n rows c])
  next
    case False
    with 1(2,3) f show ?thesis
      by (auto simp: fetch_loop.simps [of h cols st t n rows c] split: if_splits sum.splits)
  qed
qed

lemma yields_fetch_remaining:
  assumes "list_all (row_typed (is_call st) cols) rows"
  shows "yields (list_all (row_typed (is_call st) cols)) (fetch_remaining h cols st t rows)"
  unfolding yields_def fetch_remaining_def using fetch_loop_typed assms by blast

lemma yields_all_rows:
  assumes "list_all (row_typed False cols) rows"
  shows "yields (list_all (row_typed False cols))
    (if is_select st \<and> b then fetch_remaining h cols st t rows else ok rows)"
proof (rule yields_if)
  assume "is_select st \<and> b"
  then have "\<not> is_call st" by (simp add: select_not_call)
  with yields_fetch_remaining [of st cols rows h t] assms
  show "yields (list_all (row_typed False cols)) (fetch_remaining h cols st t rows)" by simp
qed (simp add: yields_ok assms)

lemma yields_query:
  "yields (\<lambda>q. result_typed q \<and> list_all column_typed (qr_columns q)) (query ff sql ps)"
  unfolding query_def Let_def
  by (rule yields_and_then [OF yields_prepare_and_execute_op], rule yields_and_then [OF yields_all_rows],
      blast, rule yields_bind, rule yields_ok) (simp add: result_typed_def)

lemma yields_query_with: "yields result_typed (query_with ff s ps)"
proof -
  have "yields result_typed (query ff sql ps)" for sql
    by (rule yields_mono [OF yields_query]) simp
  moreover have "yields result_typed (and_then (run_statement s ps) (\<lambda>result.
      and_then (if is_select (stmt_statement_type s)
                     \<and> sint (usize_as_i32 (length (exec_rows result))) < sint (exec_total_tuple_count result)
                  then fetch_remaining (stmt_query_handle s) (stmt_columns s) (stmt_statement_type s)
                         (exec_total_tuple_count result) (exec_rows result)
                  else ok (exec_rows result)) (\<lambda>all_rows.
        ok \<lparr>qr_columns = stmt_columns s, qr_rows = all_rows, qr_total_count = exec_total_tuple_count result\<rparr>)))"
    by (rule yields_and_then [OF yields_run_statement], rule yields_and_then [OF yields_all_rows],
        assumption, rule yields_ok) (simp add: result_typed_def)
  ultimately show ?thesis
    unfolding query_with_def Let_def by (intro yields_if yields_throw) 
qed

lemma yields_prepare_op: "yields (\<lambda>s. list_all column_typed (stmt_columns s)) (prepare sql)"
proof -
  have "yields (\<lambda>r. list_all column_typed (prep_columns r)) (on_conn (request req parse_prepare))" for req
    by (rule yields_on_conn, rule yields_mono [OF yields_request [OF yields_prepare]])
      (auto simp: parse_prepare_def)
  then have "yields (\<lambda>s. list_all column_typed (stmt_columns s))
    (and_then (on_conn (request req parse_prepare)) (\<lambda>result. ok \<lparr>stmt_query_handle = prep_query_handle result,
        stmt_statement_type = prep_statement_type result,
        stmt_bind_count = prep_bind_count result, stmt_columns = prep_columns result,
        stmt_closed = False, stmt_sql = sql\<rparr>))" for req
    by (rule yields_and_then) (simp add: yields_ok)
  then show ?thesis unfolding yields_def prepare_def by blast
qed

lemma yields_outcome: "yields P m \<Longrightarrow> pred_sum (\<lambda>_. True) P (fst (m s))"
  by (cases "m s"; cases "fst (m s)") (auto simp: yields_def)

text \<open>
  A cell that names its own type: its value has the type that the byte behind its size names,
  or is bytes if that names none.
\<close>

lemma self_typed_cell:
  assumes p: "parse_cell c col r = (Inr v, r')" and c: "c \<or> column_type col = DT_Null"
  shows "v = V_Null \<or> (case data_type_from_u8 (rest r ! 4) of
      Some t \<Rightarrow> has_type t v | None \<Rightarrow> \<exists>bs. v = V_Bytes bs)"
proof -
  from p obtain size r1 where 1: "parse_int r = (Inr size, r1)"
    and 2: "(if sint size \<le> 0 then ok V_Null
      else and_then parse_byte (\<lambda>type_byte.
        if i32_as_usize size - 1 = 0 then ok V_Null
        else (case data_type_from_u8 type_byte of
                Some dt \<Rightarrow> read_value dt (i32_as_usize size - 1)
              | None \<Rightarrow> and_then (parse_raw_bytes (i32_as_usize size - 1)) (\<lambda>bs. ok (V_Bytes bs))))) r1 = (Inr v, r')"
    unfolding parse_cell_def Let_def if_P [OF c] by (elim and_then_eq_InrE)
  show ?thesis
  proof (cases "v = V_Null")
    case False
    with 2 have "\<not> sint size \<le> 0" by auto
    with 2 obtain b r2 where 3: "parse_byte r1 = (Inr b, r2)"
      and 4: "(if i32_as_usize size - 1 = 0 then ok V_Null
        else (case data_type_from_u8 b of
                Some dt \<Rightarrow> read_value dt (i32_as_usize size - 1)
              | None \<Rightarrow> and_then (parse_raw_bytes (i32_as_usize size - 1)) (\<lambda>bs. ok (V_Bytes bs)))) r2 = (Inr v, r')"
      by (auto elim!: and_then_eq_InrE)
    have r1: "4 \<le> length (rest r)" "rest r1 = drop 4 (rest r)"
      using 1 fixed_parse_int by (auto simp: fixed_read_def split: if_splits)
    have head: "1 \<le> length (rest r1)" "b = hd (rest r1)"
      using 3 fixed_parse_byte by (auto simp: fixed_read_def hd_conv_nth split: if_splits)
    from head(1) r1(2) have "4 < length (rest r)" by simp
    with head(2) r1(2) have b: "b = rest r ! 4" by (simp add: hd_drop_conv_nth)
    show ?thesis
    proof (cases "data_type_from_u8 b")
      case None
      with 4 False show ?thesis by (auto simp: b [symmetric] elim!: and_then_eq_InrE split: if_splits)
    next
      case (Some t)
      with 4 False have "read_value t (i32_as_usize size - 1) r2 = (Inr v, r')"
        by (auto split: if_splits)
      from yieldsD [OF yields_read_value this] Some show ?thesis by (simp add: b [symmetric])
    qed
  qed simp
qed

section \<open>Properties\<close>

text \<open>
  C16. Results are well typed whatever the server sends: in every result of \<open>query\<close> and of
  \<open>query_with\<close>, on every connection, each row has exactly one value per column, and every
  string value and every column name is UTF-8. In a column with a type, each value is \<open>NULL\<close>
  or has the constructor that the column's type names. A column of type \<open>NULL\<close> names none: there,
  as in the results of calls, each cell names its own type, and its value is \<open>NULL\<close>, has the
  constructor of the type that the byte behind the cell's size names, or is bytes if that byte
  names no type; it is never a boolean. Rows that come in later pages are typed like the first
  ones. Dates and times have constructors of their own, and \<open>CLOB\<close>, collections and objects are
  bytes. (The type tables in the README and in section 10 of the protocol notes say strings and
  lists of values for those.)
\<close>

theorem results_well_typed:
  "pred_sum (\<lambda>_. True) (\<lambda>q. result_typed q \<and> list_all column_typed (qr_columns q)) (fst (query ff sql ps c))
    \<and> pred_sum (\<lambda>_. True) result_typed (fst (query_with ff s ps c))
    \<and> pred_sum (\<lambda>_. True) (\<lambda>s. list_all column_typed (stmt_columns s)) (fst (prepare sql c))
    \<and> (parse_cell call col r = (Inr v, r') \<longrightarrow> v = V_Null
        \<or> (if call \<or> column_type col = DT_Null
           then (case data_type_from_u8 (rest r ! 4) of
                   Some t \<Rightarrow> has_type t v | None \<Rightarrow> \<exists>bs. v = V_Bytes bs)
           else has_type (column_type col) v))"
  using self_typed_cell [of call col r v r'] yieldsD [OF yields_cell, of call col r v r']
  by (intro conjI yields_outcome yields_query yields_query_with yields_prepare_op)
    (auto simp: cell_typed_def)

theorem results_well_typed_witness:
  "(if True \<or> column_type (demo_column DT_Int []) = DT_Null
    then (case data_type_from_u8 (rest (reader_new (be_bytes 4 (5 :: i32) @ [8, 0, 0, 0, 7])) ! 4) of
            Some t \<Rightarrow> has_type t (V_Int 7) | None \<Rightarrow> \<exists>bs. V_Int 7 = V_Bytes bs)
    else has_type (column_type (demo_column DT_Int [])) (V_Int 7))"
proof -
  have "be_bytes 4 (7 :: i32) = [0, 0, 0, 7]" by code_simp
  then have "prefixed (param_arg (V_Int 7)) = be_bytes 4 (5 :: i32) @ [8, 0, 0, 0, 7]"
    by (simp add: prefixed_def usize_as_i32_def)
  then obtain r' where "parse_cell True (demo_column DT_Int []) (reader_new (be_bytes 4 (5 :: i32) @ [8, 0, 0, 0, 7]))
      = (Inr (V_Int 7), r')"
    using decodes_run [OF decodes_param [of "V_Int 7" "demo_column DT_Int []"], of "[]"] by auto
  with results_well_typed [of _ _ _ _ _ True "demo_column DT_Int []"
      "reader_new (be_bytes 4 (5 :: i32) @ [8, 0, 0, 0, 7])" "V_Int 7" r'] show ?thesis by blast
qed

end
