(* ===== verification/Client_Laws.thy ===== *)
theory Client_Laws
  imports Client
begin

text \<open>
  What the synchronous client does: the contract between the response parsers and the
  client (locale \<open>response_parser\<close>), and with it the behaviour of the operations on a
  connection whose server answers, on a closed client, and when the server or the network
  fails.
\<close>

section \<open>The parsers as the client sees them\<close>

text \<open>The head of a response that is no error: the token and a status that is not negative.\<close>

definition answers :: "cas_info \<Rightarrow> bytes \<Rightarrow> bool" where
  "answers cas data \<longleftrightarrow>
     (\<exists>rc body. data = cas_bytes cas @ be_bytes 4 (rc :: i32) @ body \<and> 0 \<le> sint rc)"

locale response_parser =
  fixes parse :: "bytes \<Rightarrow> (protocol_error, 'a \<times> cas_info) outcome"
  assumes head: "parse data = Inr (x, cas) \<Longrightarrow> answers cas data"
    and server_error: "sint rc < 0 \<Longrightarrow> wf_str message \<Longrightarrow>
      parse (error_body cas rc code message k) = Inl (Err (PE_ServerError code message))"

text \<open>The connection after one exchange: \<open>out\<close> was written, \<open>as\<close> is still to arrive.\<close>

definition exchanged :: "bytes \<Rightarrow> arrival list \<Rightarrow> connection \<Rightarrow> connection" where
  "exchanged out as k = k\<lparr>stream := (stream k)\<lparr>sent := sent (stream k) @ out, arrivals := as\<rparr>\<rparr>"

definition healthy :: "connection \<Rightarrow> bool" where
  "healthy k \<longleftrightarrow> room (stream k) = None"

lemma exchanged_simps [simp]:
  "conn_cas_info (exchanged out as k) = conn_cas_info k"
  "sent (stream (exchanged out as k)) = sent (stream k) @ out"
  "arrivals (stream (exchanged out as k)) = as"
  "healthy (exchanged out as k) = healthy k"
  "room (stream (exchanged out as k)) = room (stream k)"
  by (simp_all add: exchanged_def healthy_def)

lemma round_trip_frame:
  assumes "healthy k" and "frameable resp" and "arrivals (stream k) = arrive (frame resp) @ as"
  shows "round_trip req k = (Inr resp, exchanged (req (conn_cas_info k)) as k)"
proof -
  let ?k = "k\<lparr>stream := (stream k)\<lparr>sent := sent (stream k) @ req (conn_cas_info k)\<rparr>\<rparr>"
  have "send_framed (req (conn_cas_info k)) k = (Inr (), ?k)"
    using assms(1) by (simp add: send_framed_def write_all_def tcp_write_all_def healthy_def)
  moreover have "recv_framed ?k = (Inr resp, with_arrivals ?k as)"
    by (rule recv_framed_frame) (use assms in simp_all)
  ultimately show ?thesis
    by (simp add: round_trip_def cas_info_def and_then_def exchanged_def)
qed

lemma request_frame:
  assumes "healthy k" and "frameable resp" and "arrivals (stream k) = arrive (frame resp) @ as"
  shows "request req parse k =
    (case parse resp of
       Inl e \<Rightarrow> (Inl (map_fault CE_Protocol e), exchanged (req (conn_cas_info k)) as k)
     | Inr (x, cas) \<Rightarrow> (Inr x, (exchanged (req (conn_cas_info k)) as k)\<lparr>conn_cas_info := cas\<rparr>))"
  using round_trip_frame [OF assms]
  by (auto simp: request_def and_then_def lift_proto_def set_cas_info_def split: sum.splits)

context response_parser begin

text \<open>A request that succeeds leaves the token that the response began with.\<close>

lemma request_token:
  assumes "request req parse k = (Inr x, k')"
  shows "\<exists>body. fst (round_trip req k) = Inr (cas_bytes (conn_cas_info k') @ body)"
proof -
  from assms obtain resp k1 cas where r: "round_trip req k = (Inr resp, k1)"
    and p: "parse resp = Inr (x, cas)" and k': "k' = k1\<lparr>conn_cas_info := cas\<rparr>"
    by (auto simp: request_def and_then_def lift_proto_def set_cas_info_def ok_def
        split: prod.splits sum.splits elim!: map_err.elims)
  from head [OF p] r k' show ?thesis by (auto simp: answers_def)
qed

text \<open>A server error is returned, and the connection stays usable: the frame is consumed and
  the token is kept.\<close>

lemma request_error:
  assumes "healthy k" and "frameable (error_body cas rc code message n)"
    and "arrivals (stream k) = arrive (frame (error_body cas rc code message n)) @ as"
    and "sint rc < 0" and "wf_str message"
  shows "request req parse k = (Inl (Err (CE_Protocol (PE_ServerError code message))),
    exchanged (req (conn_cas_info k)) as k)"
  by (simp add: request_frame [OF assms(1-3)] server_error [OF assms(4,5)])

end

section \<open>The parsers satisfy the contract\<close>

lemma head_token:
  assumes "\<And>cas rc r x c r'. body cas rc r = (Inr (x, c), r') \<Longrightarrow> c = cas"
    and "run_parser (response_head body) data = Inr (x, cas)"
  shows "answers cas data"
proof -
  obtain r' where "response_head body (reader_new data) = (Inr (x, cas), r')"
    using assms(2) by (cases "response_head body (reader_new data)") (auto simp: run_parser_def)
  then obtain cas' r1 rc r2 where c: "parse_cas_info (reader_new data) = (Inr cas', r1)"
    and i: "parse_int r1 = (Inr rc, r2)"
    and b: "(if sint rc < 0 then return_server_error else body cas' rc) r2 = (Inr (x, cas), r')"
    by (auto simp: response_head_def elim!: and_then_eq_InrE)
  have "fst (return_server_error r2) \<noteq> Inr z" for z :: "'a \<times> cas_info"
    by (auto simp: return_server_error_def and_then_def remaining_now_def split: prod.splits sum.splits)
  with b have rc: "0 \<le> sint rc" by (metis fst_conv not_less)
  with b assms(1) have "cas = cas'" by simp
  moreover from c fixed_cas_info
  have 1: "4 \<le> length data" "cas_bytes cas' = take 4 data" "rest r1 = drop 4 data"
    by (auto simp: fixed_read_def take_nths split: if_splits)
  moreover from i fixed_parse_int have "4 \<le> length (rest r1)" "rc = be_word (take 4 (rest r1))"
    by (auto simp: fixed_read_def split: if_splits)
  then have "be_bytes 4 rc = take 4 (rest r1)" by (simp add: be_bytes_be_word)
  ultimately have "data = cas_bytes cas @ be_bytes 4 rc @ drop 4 (rest r1)"
    by (metis append_take_drop_id)
  with rc show ?thesis unfolding answers_def by blast
qed

lemma head_parser:
  assumes "\<And>data. parse data = run_parser (response_head body) data"
    and "\<And>cas rc r x c r'. body cas rc r = (Inr (x, c), r') \<Longrightarrow> c = cas"
  shows "response_parser parse"
  using head_token [OF assms(2)] response_head_error
  by unfold_locales (simp_all add: assms(1))

interpretation prepare_and_execute: response_parser "\<lambda>data. parse_prepare_and_execute data v" for v
  by (rule head_parser) (unfold parsers_as_runs bodies_as_heads Let_def, rule refl,
      auto elim!: and_then_eq_InrE)

interpretation prepare: response_parser parse_prepare
  by (rule head_parser) (unfold parsers_as_runs bodies_as_heads Let_def, rule refl,
      auto elim!: and_then_eq_InrE)

interpretation execute: response_parser "\<lambda>data. parse_execute data cols st v" for cols st v
  by (rule head_parser) (unfold parsers_as_runs bodies_as_heads Let_def, rule refl,
      auto elim!: and_then_eq_InrE)

interpretation fetch: response_parser "\<lambda>data. parse_fetch data cols st" for cols st
  by (rule head_parser) (unfold parsers_as_runs bodies_as_heads Let_def, rule refl,
      auto elim!: and_then_eq_InrE)

interpretation db_version: response_parser parse_get_db_version
  by (rule head_parser) (unfold parsers_as_runs bodies_as_heads Let_def, rule refl,
      auto elim!: and_then_eq_InrE)

text \<open>\<open>end_tran\<close> wraps the parser of simple responses to return nothing but the token.\<close>

abbreviation parse_simple_unit :: "bytes \<Rightarrow> (protocol_error, unit \<times> cas_info) outcome" where
  "parse_simple_unit \<equiv>
     (\<lambda>resp. case parse_simple_response resp of Inl e \<Rightarrow> Inl e | Inr cas \<Rightarrow> Inr ((), cas))"

lemma parse_simple_unit_head:
  "parse_simple_unit data = run_parser (response_head (\<lambda>cas _. ok ((), cas))) data"
proof -
  have "and_then parse_simple_body (\<lambda>cas. ok ((), cas)) = response_head (\<lambda>cas _. ok ((), cas))"
    unfolding parse_simple_body_def response_head_def and_then_assoc
    by (rule arg_cong [of _ _ "and_then parse_cas_info"], rule ext,
        rule arg_cong [of _ _ "and_then parse_int"], rule ext)
      (auto simp: return_server_error_def and_then_assoc case_prod_unfold)
  from arg_cong [OF this, of "\<lambda>p. fst (p (reader_new data))"] show ?thesis
    by (auto simp: parse_simple_response_def run_parser_def and_then_def split: prod.splits sum.splits)
qed

interpretation simple: response_parser parse_simple_unit
  by (rule head_parser [OF parse_simple_unit_head]) auto

lemma simple_error:
  "sint rc < 0 \<Longrightarrow> wf_str message \<Longrightarrow>
     parse_simple_response (error_body cas rc code message k) = Inl (Err (PE_ServerError code message))"
  using simple.server_error [of rc message cas code k] by (auto split: sum.splits)

text \<open>
  C13. A negative response code is reported as a server error by every response parser: those
  for OpenDatabase, the version, FC=41, FC=2, FC=3, FC=8 and FC=40, and the one for simple
  responses (ends of transactions and closed handles). The error's code is the next field, and
  its text is all that follows, without the zero bytes at the end, for a text that is UTF-8;
  the response code itself and the CAS token play no part. (The protocol notes, sections 4
  and 8, put the length of the text between the code and the text. The code has no such field:
  a length sent there would become part of the text.)
\<close>

theorem error_responses:
  assumes "sint rc < 0" and "wf_str message"
  shows "parse_open_database (error_body cas rc code message k) = Inl (Err (PE_ServerError code message))
    \<and> parse_get_db_version (error_body cas rc code message k) = Inl (Err (PE_ServerError code message))
    \<and> parse_fetch (error_body cas rc code message k) cols st = Inl (Err (PE_ServerError code message))
    \<and> parse_get_last_insert_id (error_body cas rc code message k) = Inl (Err (PE_ServerError code message))
    \<and> parse_prepare_and_execute (error_body cas rc code message k) v = Inl (Err (PE_ServerError code message))
    \<and> parse_prepare (error_body cas rc code message k) = Inl (Err (PE_ServerError code message))
    \<and> parse_execute (error_body cas rc code message k) cols st v = Inl (Err (PE_ServerError code message))
    \<and> parse_simple_response (error_body cas rc code message k) = Inl (Err (PE_ServerError code message))"
proof -
  note heads = response_head_error [OF assms]
  show ?thesis
    using simple_error [OF assms] unfolding parsers_as_runs bodies_as_heads by (intro conjI heads)
qed

theorem error_responses_witness:
  "parse_open_database (error_body (CAS 0 0 0 0) (- 1) (- 493) (bytes_of ''Syntax'') 1)
      = Inl (Err (PE_ServerError (- 493) (bytes_of ''Syntax'')))
    \<and> parse_simple_response (error_body (CAS 0 0 0 0) (- 1) (- 493) (bytes_of ''Syntax'') 1)
      = Inl (Err (PE_ServerError (- 493) (bytes_of ''Syntax'')))"
  using error_responses [of "- 1" "bytes_of ''Syntax''" "CAS 0 0 0 0" "- 493" 1 "[]" ST_Select 8]
  by (simp add: wf_str_def bytes_of_def utf8_check_Suc utf8_tail_ascii)

section \<open>Closed clients\<close>

lemma on_conn_closed: "is_closed c \<Longrightarrow> on_conn m c = (Inl (Err CE_ConnectionClosed), c)"
  by (simp add: on_conn_def is_closed_def)

text \<open>
  Use after close is an error, not a crash: once the client is closed (and after
  \<open>close\<close> it is), every operation returns \<open>ConnectionClosed\<close> and changes nothing, and closing
  again does nothing.
\<close>

theorem closed_client:
  assumes "is_closed c"
  shows "execute ff sql ps c = (Inl (Err CE_ConnectionClosed), c)
    \<and> query ff sql ps c = (Inl (Err CE_ConnectionClosed), c)
    \<and> prepare sql c = (Inl (Err CE_ConnectionClosed), c)
    \<and> commit c = (Inl (Err CE_ConnectionClosed), c)
    \<and> rollback c = (Inl (Err CE_ConnectionClosed), c)
    \<and> ping c = (Inl (Err CE_ConnectionClosed), c)
    \<and> last_insert_id ff dbg c = (Inl (Err CE_ConnectionClosed), c)
    \<and> close c = (Inr (), c) \<and> drop_client c = c"
proof -
  note closed = on_conn_closed [OF assms]
  have "prepare_and_execute ff sql ps c = (Inl (Err CE_ConnectionClosed), c)" for sql ps
    by (simp add: prepare_and_execute_def closed)
  then have q: "query ff sql ps c = (Inl (Err CE_ConnectionClosed), c)"
    "execute ff sql ps c = (Inl (Err CE_ConnectionClosed), c)" for sql ps
    by (simp_all add: query_def execute_def and_then_Inl)
  then show ?thesis
    using assms
    by (simp add: prepare_def commit_def rollback_def end_tran_def ping_def last_insert_id_def
        close_def drop_client_def is_closed_def closed and_then_Inl)
qed

definition demo_ff :: float_fmt where
  "demo_ff = \<lparr>show_f32 = \<lambda>_. [48], show_f64 = \<lambda>_. [48]\<rparr>"

definition closed_demo :: client where
  "closed_demo = \<lparr>conn = None, client_auto_commit = True, client_proto_version = 8, released = []\<rparr>"

theorem closed_client_witness:
  "execute demo_ff (bytes_of ''DELETE FROM t'') [] closed_demo = (Inl (Err CE_ConnectionClosed), closed_demo)
    \<and> query demo_ff (bytes_of ''DELETE FROM t'') [] closed_demo = (Inl (Err CE_ConnectionClosed), closed_demo)
    \<and> prepare (bytes_of ''DELETE FROM t'') closed_demo = (Inl (Err CE_ConnectionClosed), closed_demo)
    \<and> commit closed_demo = (Inl (Err CE_ConnectionClosed), closed_demo)
    \<and> rollback closed_demo = (Inl (Err CE_ConnectionClosed), closed_demo)
    \<and> ping closed_demo = (Inl (Err CE_ConnectionClosed), closed_demo)
    \<and> last_insert_id demo_ff (\<lambda>_. []) closed_demo = (Inl (Err CE_ConnectionClosed), closed_demo)
    \<and> close closed_demo = (Inr (), closed_demo) \<and> drop_client closed_demo = closed_demo"
  by (rule closed_client) (simp add: is_closed_def closed_demo_def)

text \<open>
  C33. Closing an open client writes exactly the FC=31 request with the current token, shuts
  the stream down, and leaves the client closed; dropping the client does the same, so a
  session that was not closed explicitly is still ended on the server.
\<close>

theorem close_ends_session:
  assumes "conn c = Some k" and "healthy k"
  shows "close c = (Inr (), drop_client c)
    \<and> is_closed (drop_client c)
    \<and> released (drop_client c) =
        released c @ [(stream k)\<lparr>sent := sent (stream k) @ write_con_close (conn_cas_info k), is_shut := True\<rparr>]
    \<and> request_of (write_con_close (conn_cas_info k)) = Some (conn_cas_info k, 31, [])"
  using assms
  by (simp add: close_def drop_client_def is_closed_def write_and_close_def tcp_write_all_def
      healthy_def write_con_close_def request_simps)

definition demo_tcp :: "bytes \<Rightarrow> tcp" where
  "demo_tcp bs = \<lparr>arrivals = arrive bs, room = None, write_error = Io_BrokenPipe, sent = [], is_shut = False\<rparr>"

definition demo_conn :: "bytes \<Rightarrow> connection" where
  "demo_conn bs = \<lparr>stream = demo_tcp bs, conn_cas_info = CAS 1 2 3 4\<rparr>"

definition demo_client :: "bytes \<Rightarrow> client" where
  "demo_client bs = \<lparr>conn = Some (demo_conn bs), client_auto_commit = True, client_proto_version = 8, released = []\<rparr>"

lemma demo_simps [simp]:
  "conn (demo_client bs) = Some (demo_conn bs)" "healthy (demo_conn bs)"
  "arrivals (stream (demo_conn bs)) = arrive bs" "conn_cas_info (demo_conn bs) = CAS 1 2 3 4"
  "client_proto_version (demo_client bs) = 8" "client_auto_commit (demo_client bs) = True"
  "stream (demo_conn bs) = demo_tcp bs" "sent (demo_tcp bs) = []"
  "room (demo_tcp bs) = None" "arrivals (demo_tcp bs) = arrive bs"
  by (simp_all add: demo_client_def demo_conn_def demo_tcp_def healthy_def)

theorem close_ends_session_witness:
  "close (demo_client []) = (Inr (), drop_client (demo_client []))
    \<and> is_closed (drop_client (demo_client []))
    \<and> released (drop_client (demo_client [])) =
        released (demo_client []) @ [(stream (demo_conn []))\<lparr>sent := sent (stream (demo_conn [])) @
          write_con_close (conn_cas_info (demo_conn [])), is_shut := True\<rparr>]
    \<and> request_of (write_con_close (conn_cas_info (demo_conn []))) = Some (conn_cas_info (demo_conn []), 31, [])"
  by (rule close_ends_session) simp_all

section \<open>Connecting\<close>

lemma write_all_healthy:
  "healthy k \<Longrightarrow> write_all data k = (Inr (), exchanged data (arrivals (stream k)) k)"
  by (simp add: write_all_def tcp_write_all_def healthy_def exchanged_def)

lemma recv_framed_eof:
  "arrivals (stream k) = [] \<Longrightarrow> recv_framed k = (Inl (Err (CE_Io Io_UnexpectedEof)), with_arrivals k [])"
  by (simp add: recv_framed_def and_then_def read_exact_def eval_nat_numeral)

lemma send_framed_healthy:
  "healthy k \<Longrightarrow> send_framed q k = (Inr (), exchanged q (arrivals (stream k)) k)"
  by (simp add: send_framed_def write_all_healthy)

lemma request_eof:
  assumes "healthy k" and "arrivals (stream k) = []"
  shows "request req parse k =
    (Inl (Err (CE_Io Io_UnexpectedEof)), exchanged (req (conn_cas_info k)) [] k)"
  using assms
  by (simp add: request_def round_trip_def cas_info_def and_then_def send_framed_healthy recv_framed_eof)

lemma handshake_step:
  assumes "healthy k" and "arrivals (stream k) = arrive (be_bytes 4 (p :: i32)) @ as"
  shows "on_new_conn (and_then (write_raw write_client_info_exchange)
           (\<lambda>_. read_exact_bytes 4)) k net =
    (Inr (be_bytes 4 p, exchanged write_client_info_exchange as k), net)"
proof -
  have "take_arrivals 4 (arrive (be_bytes 4 p) @ as) = (Inr (be_bytes 4 p), as)"
    by (rule take_arrivals_n) simp
  with assms show ?thesis
    by (simp add: on_new_conn_def write_raw_def and_then_def write_all_healthy read_exact_bytes_def
        read_exact_def)
      (simp add: exchanged_def)
qed

lemma open_step:
  assumes "healthy k" and "frameable resp" and "arrivals (stream k) = arrive (frame resp) @ as"
    and "parse_open_database resp = Inr r"
  shows "on_new_conn (open_database d) k net =
    (Inr (r, (exchanged (write_open_database (database d) (user d) (password d)) as k)
       \<lparr>conn_cas_info := odr_cas_info r\<rparr>), net)"
proof -
  let ?k = "exchanged (write_open_database (database d) (user d) (password d)) (arrivals (stream k)) k"
  have "recv_framed ?k = (Inr resp, with_arrivals ?k as)"
    by (rule recv_framed_frame) (use assms in simp_all)
  with assms show ?thesis
    by (simp add: on_new_conn_def open_database_def write_raw_def and_then_def write_all_healthy
        lift_proto_def set_cas_info_def exchanged_def)
qed

definition open_response :: "cas_info \<Rightarrow> i32 \<Rightarrow> bytes \<Rightarrow> i32 \<Rightarrow> bytes" where
  "open_response cas rc broker session =
     cas_bytes cas @ be_bytes 4 rc @ broker @ be_bytes 4 session"

lemma parse_open_response:
  assumes "0 \<le> sint rc" and "length broker = 16"
  shows "parse_open_database (open_response cas rc broker session) =
    Inr \<lparr>odr_cas_info = cas, odr_proto_version = word_of_nat (unat (broker ! 4) mod 64),
         odr_session_id = session\<rparr>"
  using parse_open_response_extra [OF assms, of cas session "[]"] by (simp add: open_response_def)

lemma frameable_open: "length broker = 16 \<Longrightarrow> frameable (open_response cas rc broker session)"
  by (simp add: frameable_def open_response_def)

lemma client_info_port [simp]: "parse_client_info_exchange (be_bytes 4 p) = p"
  by (simp add: parse_client_info_exchange_def)

lemma client_info_bytes: "write_client_info_exchange = bytes_of ''CUBRK'' @ [3, 0x47, 0, 0, 0]"
  by (simp add: write_client_info_exchange_def Let_def eval_nat_numeral bytes_of_def BROKER_MAGIC_def
      CLIENT_TYPE_JDBC_def CAS_VERSION_def CAS_PROTO_INDICATOR_def CAS_PROTOCOL_VERSION_def)

text \<open>
  C20. Connecting through a redirecting broker: the client dials the broker, sends it the ten
  bytes of the handshake (the magic \<open>CUBRK\<close>, the client type, the version, zeros) and nothing
  else, dials the port the broker answered with, drops the first stream, sends the
  OpenDatabase request on the new stream, and is ready with that stream, the server's token,
  the protocol version of the server and the auto-commit setting of the connection string.
\<close>

theorem connect_redirected:
  assumes "attempts net = Inr s1 # Inr s2 # later"
    and "room s1 = None" and "arrivals s1 = arrive (be_bytes 4 (p :: i32)) @ as1" and "0 < sint p"
    and "room s2 = None" and "arrivals s2 = arrive (frame (open_response cas rc broker session)) @ as2"
    and "0 \<le> sint rc" and "length broker = 16"
  shows "connect_with_dsn d net =
    (Inr \<lparr>conn = Some \<lparr>stream = s2\<lparr>sent := sent s2 @ write_open_database (database d) (user d) (password d),
                                    arrivals := as2\<rparr>, conn_cas_info = cas\<rparr>,
          client_auto_commit = auto_commit d,
          client_proto_version = word_of_nat (unat (broker ! 4) mod 64), released = []\<rparr>,
     net\<lparr>attempts := later,
         dialled := dialled net @ [(host d, port d, timeout d), (host d, ucast p, timeout d)],
         abandoned := abandoned net @
           [s1\<lparr>sent := sent s1 @ bytes_of ''CUBRK'' @ [3, 0x47, 0, 0, 0], arrivals := as1\<rparr>]\<rparr>)"
proof -
  let ?k = "\<lambda>s. \<lparr>stream = s, conn_cas_info = CAS 0 0 0 0\<rparr>"
  have h: "healthy (?k s1)" "healthy (?k s2)" using assms by (simp_all add: healthy_def)
  note hs = handshake_step [OF h(1), of p as1]
  note op = open_step [OF h(2) frameable_open [OF assms(8)] _ parse_open_response [OF assms(7,8)],
      of cas session as2]
  show ?thesis
    using assms
    by (simp add: connect_with_dsn_def conn_connect_def and_then_def connect_to_def Let_def hs op
        dropping_def exchanged_def flip: client_info_bytes)
qed

definition demo_redirect :: network where
  "demo_redirect = \<lparr>attempts = [Inr (demo_tcp (be_bytes 4 (33001 :: i32))),
     Inr (demo_tcp (frame (open_response (CAS 1 2 3 4) 0 (replicate 16 8) 5)))],
     dialled = [], abandoned = []\<rparr>"

theorem connect_redirected_witness:
  "connect_with_dsn dsn_default demo_redirect =
    (Inr \<lparr>conn = Some \<lparr>stream = (demo_tcp (frame (open_response (CAS 1 2 3 4) 0 (replicate 16 8) 5)))
            \<lparr>sent := sent (demo_tcp (frame (open_response (CAS 1 2 3 4) 0 (replicate 16 8) 5))) @
               write_open_database (database dsn_default) (user dsn_default) (password dsn_default),
             arrivals := []\<rparr>, conn_cas_info = CAS 1 2 3 4\<rparr>,
          client_auto_commit = auto_commit dsn_default,
          client_proto_version = word_of_nat (unat (replicate 16 (8 :: u8) ! 4) mod 64), released = []\<rparr>,
     demo_redirect\<lparr>attempts := [],
        dialled := dialled demo_redirect
          @ [(host dsn_default, port dsn_default, timeout dsn_default),
             (host dsn_default, ucast (33001 :: i32), timeout dsn_default)],
        abandoned := abandoned demo_redirect @
          [(demo_tcp (be_bytes 4 (33001 :: i32)))
             \<lparr>sent := sent (demo_tcp (be_bytes 4 (33001 :: i32))) @ bytes_of ''CUBRK'' @ [3, 0x47, 0, 0, 0],
              arrivals := []\<rparr>]\<rparr>)"
  by (rule connect_redirected [where rc = 0 and session = 5 and ?as1.0 = "[]"
      and ?s1.0 = "demo_tcp (be_bytes 4 (33001 :: i32))"])
    (simp_all add: demo_redirect_def)

text \<open>
  C21. The other two answers of the broker. A negative port, whatever follows it, is returned
  as a server error with that code after one connection attempt; the stream is dropped and has
  been sent the ten bytes of the handshake and nothing else, so no credentials. Port zero makes
  the client open the database on the stream it has, behind the handshake.
\<close>

theorem connect_reused_or_rejected:
  assumes "attempts net = Inr s # later" and "room s = None"
    and "arrivals s = arrive (be_bytes 4 (p :: i32)) @ as" and "sint p < 0"
    and "attempts net' = Inr s' # later'" and "room s' = None"
    and "arrivals s' = arrive (be_bytes 4 (0 :: i32) @ frame (open_response cas rc broker session)) @ as'"
    and "0 \<le> sint rc" and "length broker = 16"
  shows "connect_with_dsn d net =
      (Inl (Err (CE_ServerError p (bytes_of ''broker rejected connection''))),
       net\<lparr>attempts := later, dialled := dialled net @ [(host d, port d, timeout d)],
           abandoned := abandoned net @
             [s\<lparr>sent := sent s @ bytes_of ''CUBRK'' @ [3, 0x47, 0, 0, 0], arrivals := as\<rparr>]\<rparr>)
    \<and> connect_with_dsn d net' =
      (Inr \<lparr>conn = Some \<lparr>stream = s'\<lparr>sent := sent s' @ bytes_of ''CUBRK'' @ [3, 0x47, 0, 0, 0] @
                write_open_database (database d) (user d) (password d), arrivals := as'\<rparr>,
              conn_cas_info = cas\<rparr>,
            client_auto_commit = auto_commit d,
            client_proto_version = word_of_nat (unat (broker ! 4) mod 64), released = []\<rparr>,
       net'\<lparr>attempts := later', dialled := dialled net' @ [(host d, port d, timeout d)]\<rparr>)"
    (is "?rejected \<and> ?reused")
proof
  let ?k = "\<lambda>s. \<lparr>stream = s, conn_cas_info = CAS 0 0 0 0\<rparr>"
  let ?as = "arrive (frame (open_response cas rc broker session)) @ as'"
  have h: "healthy (?k s)" "healthy (?k s')" "healthy (exchanged write_client_info_exchange ?as (?k s'))"
    using assms by (simp_all add: healthy_def)
  show ?rejected
    using assms handshake_step [OF h(1), of p as]
    by (simp add: connect_with_dsn_def conn_connect_def and_then_def connect_to_def Let_def
        dropping_def exchanged_def flip: client_info_bytes)
  note op = open_step [OF h(3) frameable_open [OF assms(9)] _ parse_open_response [OF assms(8,9)],
      of cas session as']
  show ?reused
    using assms handshake_step [OF h(2), of 0 ?as]
    by (simp add: connect_with_dsn_def conn_connect_def and_then_def connect_to_def Let_def op)
      (simp add: exchanged_def client_info_bytes)
qed

definition demo_answer :: "i32 \<Rightarrow> network" where
  "demo_answer p = \<lparr>attempts = [Inr (demo_tcp (be_bytes 4 p @
      frame (open_response (CAS 1 2 3 4) 0 (replicate 16 8) 5)))], dialled = [], abandoned = []\<rparr>"

theorem connect_reused_or_rejected_witness:
  "fst (connect_with_dsn dsn_default (demo_answer (- 1000))) =
      Inl (Err (CE_ServerError (- 1000) (bytes_of ''broker rejected connection'')))
    \<and> pred_sum (\<lambda>_. False) (\<lambda>c. conn c \<noteq> None) (fst (connect_with_dsn dsn_default (demo_answer 0)))"
  using connect_reused_or_rejected [where d = dsn_default and net = "demo_answer (- 1000)"
      and net' = "demo_answer 0" and p = "- 1000" and rc = 0 and session = 5 and cas = "CAS 1 2 3 4"
      and broker = "replicate 16 8" and as' = "[]" and later = "[]" and later' = "[]"
      and s = "demo_tcp (be_bytes 4 (- 1000 :: i32) @ frame (open_response (CAS 1 2 3 4) 0 (replicate 16 8) 5))"
      and s' = "demo_tcp (be_bytes 4 (0 :: i32) @ frame (open_response (CAS 1 2 3 4) 0 (replicate 16 8) 5))"
      and as = "arrive (frame (open_response (CAS 1 2 3 4) 0 (replicate 16 8) 5))"]
  by (simp add: demo_answer_def)

section \<open>Statements that succeed\<close>

definition after :: "bytes \<Rightarrow> arrival list \<Rightarrow> cas_info \<Rightarrow> connection \<Rightarrow> connection" where
  "after out as cas k = (exchanged out as k)\<lparr>conn_cas_info := cas\<rparr>"

lemma after_simps [simp]:
  "conn_cas_info (after out as cas k) = cas"
  "healthy (after out as cas k) = healthy k"
  "arrivals (stream (after out as cas k)) = as"
  "sent (stream (after out as cas k)) = sent (stream k) @ out"
  "after out2 as2 cas2 (after out as cas k) = after (out @ out2) as2 cas2 k"
  "exchanged out2 as2 (after out as cas k) = after (out @ out2) as2 cas k"
  by (simp_all add: after_def exchanged_def healthy_def)

lemma request_ok:
  assumes "healthy k" and "frameable resp" and "arrivals (stream k) = arrive (frame resp) @ as"
    and "parse resp = Inr (x, cas)"
  shows "request req parse k = (Inr x, after (req (conn_cas_info k)) as cas k)"
  by (simp add: request_frame [OF assms(1-3)] assms(4) after_def)

lemma on_conn_ok: "conn c = Some k \<Longrightarrow> m k = (Inr x, k') \<Longrightarrow> on_conn m c = (Inr x, c\<lparr>conn := Some k'\<rparr>)"
  and on_conn_Inl: "conn c = Some k \<Longrightarrow> m k = (Inl e, k') \<Longrightarrow> on_conn m c = (Inl e, c\<lparr>conn := Some k'\<rparr>)"
  by (simp_all add: on_conn_def)

lemma close_query_handle_frame:
  assumes "conn c = Some k" and "healthy k" and "frameable resp"
    and "arrivals (stream k) = arrive (frame resp) @ as"
  shows "close_query_handle h c =
    (Inr (), c\<lparr>conn := Some (exchanged (write_close_req_handle h (conn_cas_info k)) as k)\<rparr>)"
proof -
  let ?k = "exchanged (write_close_req_handle h (conn_cas_info k)) (arrivals (stream k)) k"
  have "recv_framed ?k = (Inr resp, with_arrivals ?k as)"
    by (rule recv_framed_frame) (use assms in simp_all)
  with assms show ?thesis
    by (simp add: close_query_handle_def send_framed_def write_all_healthy)
      (simp add: exchanged_def)
qed

text \<open>The first response of a statement: well-formed in the sense of the response format.\<close>

definition result_ok :: "prepare_and_execute_result \<Rightarrow> wire_row list \<Rightarrow> bool" where
  "result_ok r ws \<longleftrightarrow>
     0 < sint (pae_query_handle r) \<and> columns_ok (pae_columns r) \<and> infos_ok (pae_result_infos r)
     \<and> rows_ok (pae_columns r) (pae_statement_type r) ws
     \<and> (pae_tuple_count r, pae_rows r) = reported (pae_statement_type r) ws"

lemma parse_result_ok:
  "result_ok r ws \<Longrightarrow> parse_prepare_and_execute (enc_prepare_and_execute u v cas r ws) v = Inr (r, cas)"
  unfolding parse_prepare_and_execute_def result_ok_def
  by (rule run_decodes, rule decodes_prepare_and_execute) auto

lemma prepare_and_execute_ok:
  assumes "conn c = Some k" and "healthy k" and "result_ok r ws"
    and "frameable (enc_prepare_and_execute u (client_proto_version c) cas r ws)"
    and "arrivals (stream k) =
      arrive (frame (enc_prepare_and_execute u (client_proto_version c) cas r ws)) @ as"
  shows "prepare_and_execute ff sql ps c =
    (Inr r, c\<lparr>conn := Some (after (write_prepare_and_execute (interpolate_params ff sql ps)
       (client_auto_commit c) (conn_cas_info k)) as cas k)\<rparr>)"
  unfolding prepare_and_execute_def
  by (rule on_conn_ok [OF assms(1)], rule request_ok [OF assms(2,4,5)],
      rule parse_result_ok [OF assms(3)])

text \<open>
  C10. A successful statement takes two exchanges: the client sends FC=41 with the
  interpolated text and its token, then FC=6 with the handle the server returned and the
  token of the first response, and returns the number of affected rows. What the server
  answers to the second request does not matter, and both responses are consumed, so the
  connection is in step for the next request.
\<close>

theorem execute_round_trips:
  assumes "conn c = Some k" and "healthy k" and "result_ok r ws"
    and "frameable (enc_prepare_and_execute u (client_proto_version c) cas r ws)" and "frameable closed"
    and "arrivals (stream k) =
      arrive (frame (enc_prepare_and_execute u (client_proto_version c) cas r ws) @ frame closed) @ as"
  shows "execute ff sql ps c =
    (Inr (affected_rows (pae_result_infos r)),
     c\<lparr>conn := Some (after (write_prepare_and_execute (interpolate_params ff sql ps)
           (client_auto_commit c) (conn_cas_info k)
         @ write_close_req_handle (pae_query_handle r) cas) as cas k)\<rparr>)"
proof -
  let ?k = "after (write_prepare_and_execute (interpolate_params ff sql ps)
       (client_auto_commit c) (conn_cas_info k)) (arrive (frame closed) @ as) cas k"
  have p: "prepare_and_execute ff sql ps c = (Inr r, c\<lparr>conn := Some ?k\<rparr>)"
    by (rule prepare_and_execute_ok [OF assms(1-4)]) (simp add: assms(6))
  have "close_query_handle h (c\<lparr>conn := Some ?k\<rparr>) =
      (Inr (), c\<lparr>conn := Some (exchanged (write_close_req_handle h cas) as ?k)\<rparr>)" for h
    using close_query_handle_frame [of "c\<lparr>conn := Some ?k\<rparr>" ?k closed as h] assms(2,5) by simp
  moreover have "0 < sint (pae_query_handle r)" using assms(3) by (simp add: result_ok_def)
  ultimately show ?thesis
    by (simp add: execute_def and_then_Inr [where m = "prepare_and_execute ff sql ps", OF p] and_then_Inr)
qed

definition demo_response :: bytes where
  "demo_response = enc_prepare_and_execute demo_unread 8 (CAS 5 6 7 8) demo_result demo_rows"

definition demo_closed :: bytes where
  "demo_closed = cas_bytes (CAS 5 6 7 8) @ be_bytes 4 (0 :: i32)"

lemma demo_result_ok: "result_ok demo_result demo_rows"
  by (simp add: result_ok_def demo_result_def demo_ok)

lemma frameable_demo: "frameable demo_response" "frameable demo_closed"
  by (simp_all add: frameable_def demo_response_def demo_closed_def enc_prepare_and_execute_def
      demo_result_def enc_columns_def demo_columns_def demo_column_def enc_column_def enc_string_def
      enc_tail_def enc_result_infos_def demo_info_def enc_result_info_def enc_version_fields_def
      enc_inline_rows_def demo_rows_def enc_row_def enc_cell_def is_select_def is_call_def
      self_typed_def demo_unread_def)

theorem execute_round_trips_witness:
  "execute demo_ff (bytes_of ''SELECT ?'') [V_Int 1] (demo_client (frame demo_response @ frame demo_closed)) =
    (Inr (affected_rows (pae_result_infos demo_result)),
     (demo_client (frame demo_response @ frame demo_closed))\<lparr>conn :=
       Some (after (write_prepare_and_execute (interpolate_params demo_ff (bytes_of ''SELECT ?'') [V_Int 1])
           (client_auto_commit (demo_client (frame demo_response @ frame demo_closed)))
           (conn_cas_info (demo_conn (frame demo_response @ frame demo_closed)))
         @ write_close_req_handle (pae_query_handle demo_result) (CAS 5 6 7 8)) [] (CAS 5 6 7 8)
         (demo_conn (frame demo_response @ frame demo_closed)))\<rparr>)"
  by (rule execute_round_trips [where r = demo_result and ws = demo_rows and u = demo_unread])
    (simp_all add: demo_result_ok frameable_demo flip: demo_response_def)

section \<open>Fetching the remaining rows\<close>

text \<open>A page: the response code and the token of a fetch response, and its rows.\<close>

type_synonym page = "i32 \<times> cas_info \<times> wire_row list"

definition page_ok :: "column_metadata list \<Rightarrow> statement_type \<Rightarrow> page \<Rightarrow> bool" where
  "page_ok cols st = (\<lambda>(rc, cas, ws).
     0 \<le> sint rc \<and> ws \<noteq> [] \<and> rows_ok cols st ws \<and> frameable (enc_fetch cas rc cols st ws))"

definition page_frame :: "column_metadata list \<Rightarrow> statement_type \<Rightarrow> page \<Rightarrow> bytes" where
  "page_frame cols st = (\<lambda>(rc, cas, ws). frame (enc_fetch cas rc cols st ws))"

definition page_rows :: "page \<Rightarrow> row list" where
  "page_rows = (\<lambda>(rc, cas, ws). map row_values ws)"

text \<open>The fetch requests for the pages, from \<open>n\<close> rows on, and the token after them.\<close>

fun fetch_requests :: "i32 \<Rightarrow> nat \<Rightarrow> cas_info \<Rightarrow> page list \<Rightarrow> bytes" where
  "fetch_requests h n cas [] = []"
| "fetch_requests h n cas ((rc, cas', ws) # ps) =
     write_fetch h (usize_as_i32 n) 100 cas @ fetch_requests h (n + length ws) cas' ps"

fun last_token :: "cas_info \<Rightarrow> page list \<Rightarrow> cas_info" where
  "last_token cas [] = cas"
| "last_token cas ((rc, cas', ws) # ps) = last_token cas' ps"

lemma usize_as_i32_add: "usize_as_i32 m + usize_as_i32 n = usize_as_i32 (m + n)"
  by (simp add: usize_as_i32_def)

lemma fetch_once_page:
  assumes "conn c = Some k" and "healthy k" and "page_ok cols st (rc, cas, ws)" and "cols \<noteq> []"
    and "arrivals (stream k) = arrive (page_frame cols st (rc, cas, ws)) @ as"
  shows "fetch_once h cols st n c =
    (Inr \<lparr>fetch_tuple_count = usize_as_i32 (length ws), fetch_rows = map row_values ws\<rparr>,
     c\<lparr>conn := Some (after (write_fetch h n 100 (conn_cas_info k)) as cas k)\<rparr>)"
proof -
  have "parse_fetch (enc_fetch cas rc cols st ws) cols st =
      Inr (\<lparr>fetch_tuple_count = usize_as_i32 (length ws), fetch_rows = map row_values ws\<rparr>, cas)"
    unfolding parse_fetch_def
    by (rule run_decodes, rule decodes_fetch) (use assms in \<open>simp_all add: page_ok_def\<close>)
  moreover have "frameable (enc_fetch cas rc cols st ws)"
    using assms(3) by (simp add: page_ok_def)
  ultimately have "request (write_fetch h n 100) (\<lambda>resp. parse_fetch resp cols st) k =
      (Inr \<lparr>fetch_tuple_count = usize_as_i32 (length ws), fetch_rows = map row_values ws\<rparr>,
       after (write_fetch h n 100 (conn_cas_info k)) as cas k)"
    using assms by (intro request_ok [where resp = "enc_fetch cas rc cols st ws"]) (simp_all add: page_frame_def)
  then show ?thesis
    unfolding fetch_once_def DEFAULT_FETCH_SIZE_def by (rule on_conn_ok [OF assms(1)])
qed

lemma fetch_loop_pages:
  assumes "list_all (page_ok cols st) pages" and "cols \<noteq> []"
    and "conn c = Some k" and "healthy k"
    and "arrivals (stream k) = arrive (concat (map (page_frame cols st) pages)) @ as"
    and "n + length (concat (map page_rows pages)) < 2 ^ 31"
    and "total_count = usize_as_i32 (n + length (concat (map page_rows pages)))"
  shows "fetch_loop h cols st total_count (usize_as_i32 n) rows c =
    (Inr (rows @ concat (map page_rows pages)),
     c\<lparr>conn := Some (after (fetch_requests h n (conn_cas_info k) pages) as
         (last_token (conn_cas_info k) pages) k)\<rparr>)"
  using assms
proof (induction pages arbitrary: n c k rows)
  case Nil
  have "after [] as (conn_cas_info k) k = k"
    using Nil.prems(5) by (simp add: after_def exchanged_def)
  moreover have "c\<lparr>conn := Some k\<rparr> = c"
    using Nil.prems(3) by simp
  ultimately show ?case
    using Nil.prems(7) by (simp add: fetch_loop.simps)
next
  case (Cons p ps)
  obtain rc cas ws where p: "p = (rc, cas, ws)" by (cases p)
  let ?as = "arrive (concat (map (page_frame cols st) ps)) @ as"
  let ?k = "after (write_fetch h (usize_as_i32 n) 100 (conn_cas_info k)) ?as cas k"
  have ws: "0 < length ws" "ws \<noteq> []" "length ws < 2 ^ 31"
    using Cons.prems(1) by (simp_all add: p page_ok_def rows_ok_def)
  have once: "fetch_once h cols st (usize_as_i32 n) c =
      (Inr \<lparr>fetch_tuple_count = usize_as_i32 (length ws), fetch_rows = map row_values ws\<rparr>,
       c\<lparr>conn := Some ?k\<rparr>)"
    using Cons.prems by (intro fetch_once_page) (simp_all add: p)
  have len: "length (page_rows p) = length ws" by (simp add: p page_rows_def)
  have lt: "sint (usize_as_i32 n) < sint total_count"
    using Cons.prems(6,7) ws(1) by (simp add: len sint_usize_as_i32 del: length_greater_0_conv)
  have nz: "usize_as_i32 (length ws) \<noteq> 0"
    using ws sint_usize_as_i32 [of "length ws"] by auto
  have "fetch_loop h cols st total_count (usize_as_i32 n) rows c =
      fetch_loop h cols st total_count (usize_as_i32 (n + length ws)) (rows @ map row_values ws)
        (c\<lparr>conn := Some ?k\<rparr>)"
    using lt nz by (subst fetch_loop.simps) (simp add: once usize_as_i32_add)
  also have "\<dots> = (Inr ((rows @ map row_values ws) @ concat (map page_rows ps)),
      (c\<lparr>conn := Some ?k\<rparr>)\<lparr>conn := Some (after (fetch_requests h (n + length ws) cas ps) as
         (last_token cas ps) ?k)\<rparr>)"
    using Cons.prems Cons.IH [of "c\<lparr>conn := Some ?k\<rparr>" ?k "n + length ws" "rows @ map row_values ws"]
    by (simp add: len add.assoc)
  finally show ?case by (simp add: p page_rows_def)
qed

text \<open>The conditional fetch of \<open>query\<close> and \<open>query_with\<close>.\<close>

lemma fetch_if:
  assumes "fetch_loop h cols st total_count (usize_as_i32 (length rows)) rows c = (Inr x, c')"
    and "is_select st"
  shows "and_then (if is_select st \<and> sint (usize_as_i32 (length rows)) < sint total_count
      then fetch_remaining h cols st total_count rows else ok rows) g c = g x c'"
  using assms
  by (cases "sint (usize_as_i32 (length rows)) < sint total_count")
    (simp_all add: and_then_def fetch_remaining_def fetch_loop.simps [of _ _ _ total_count _ rows c])

text \<open>
  C4. A SELECT whose rows come in several pages returns all rows, in order, exactly once:
  the rows of the first response and of every fetch response until the announced total is
  reached. The fetch requests ask for position after position with the latest token, the
  handle is closed at the end, and all responses are consumed.
\<close>

theorem query_fetches_all:
  assumes "conn c = Some k" and "healthy k" and "result_ok r ws"
    and "frameable (enc_prepare_and_execute u (client_proto_version c) cas r ws)" and "frameable closed"
    and "pae_statement_type r = ST_Select" and "pae_columns r \<noteq> []"
    and "list_all (page_ok (pae_columns r) ST_Select) pages"
    and "length ws + length (concat (map page_rows pages)) < 2 ^ 31"
    and "pae_total_tuple_count r = usize_as_i32 (length ws + length (concat (map page_rows pages)))"
    and "arrivals (stream k) =
      arrive (frame (enc_prepare_and_execute u (client_proto_version c) cas r ws)
        @ concat (map (page_frame (pae_columns r) ST_Select) pages) @ frame closed) @ as"
  shows "query ff sql ps c =
    (Inr \<lparr>qr_columns = pae_columns r, qr_rows = map row_values ws @ concat (map page_rows pages),
          qr_total_count = pae_total_tuple_count r\<rparr>,
     c\<lparr>conn := Some (after (write_prepare_and_execute (interpolate_params ff sql ps)
           (client_auto_commit c) (conn_cas_info k)
         @ fetch_requests (pae_query_handle r) (length ws) cas pages
         @ write_close_req_handle (pae_query_handle r) (last_token cas pages)) as (last_token cas pages) k)\<rparr>)"
proof -
  let ?fs = "concat (map (page_frame (pae_columns r) ST_Select) pages)"
  let ?req = "write_prepare_and_execute (interpolate_params ff sql ps) (client_auto_commit c) (conn_cas_info k)"
  let ?k1 = "after ?req (arrive ?fs @ arrive (frame closed) @ as) cas k"
  let ?k2 = "after (?req @ fetch_requests (pae_query_handle r) (length ws) cas pages)
    (arrive (frame closed) @ as) (last_token cas pages) k"
  have p: "prepare_and_execute ff sql ps c = (Inr r, c\<lparr>conn := Some ?k1\<rparr>)"
    by (rule prepare_and_execute_ok [OF assms(1-4)]) (simp add: assms(11))
  have rows: "pae_rows r = map row_values ws"
    using assms(3,6) by (simp add: result_ok_def reported_def is_select_def)
  have f: "fetch_loop (pae_query_handle r) (pae_columns r) (pae_statement_type r)
      (pae_total_tuple_count r) (usize_as_i32 (length (pae_rows r))) (pae_rows r) (c\<lparr>conn := Some ?k1\<rparr>) =
      (Inr (map row_values ws @ concat (map page_rows pages)), c\<lparr>conn := Some ?k2\<rparr>)"
    unfolding rows assms(6) length_map
    using fetch_loop_pages [OF assms(8,7), of "c\<lparr>conn := Some ?k1\<rparr>" ?k1 "arrive (frame closed) @ as"
        "length ws" "pae_total_tuple_count r" "pae_query_handle r" "map row_values ws"] assms(2,9,10)
    by simp
  have sel: "is_select (pae_statement_type r)" by (simp add: assms(6) is_select_def)
  have "close_query_handle (pae_query_handle r) (c\<lparr>conn := Some ?k2\<rparr>) =
      (Inr (), c\<lparr>conn := Some (exchanged (write_close_req_handle (pae_query_handle r) (last_token cas pages)) as ?k2)\<rparr>)"
    using close_query_handle_frame [of "c\<lparr>conn := Some ?k2\<rparr>" ?k2 closed as] assms(2,5) by simp
  moreover have "0 < sint (pae_query_handle r)" using assms(3) by (simp add: result_ok_def)
  ultimately show ?thesis
    by (simp add: query_def and_then_Inr [where m = "prepare_and_execute ff sql ps", OF p] and_then_Inr
        Let_def fetch_if [OF f sel] split del: if_split)
qed

definition paged_result :: prepare_and_execute_result where
  "paged_result = demo_result\<lparr>pae_total_tuple_count := 4\<rparr>"

definition paged_response :: bytes where
  "paged_response = enc_prepare_and_execute demo_unread 8 (CAS 5 6 7 8) paged_result demo_rows"

definition demo_pages :: "page list" where
  "demo_pages = [(0, CAS 9 9 9 9, demo_rows)]"

definition paged_traffic :: bytes where
  "paged_traffic = frame paged_response @ concat (map (page_frame demo_columns ST_Select) demo_pages)
     @ frame demo_closed"

lemma length_demo_rows: "length demo_rows = 2" "length (map row_values demo_rows) = 2"
  by (simp_all add: demo_rows_def)

lemma demo_pages_ok: "list_all (page_ok demo_columns ST_Select) demo_pages"
  using demo_ok(3)
  by (simp add: demo_pages_def page_ok_def)
    (simp add: demo_rows_def enc_fetch_def frameable_def enc_row_def demo_columns_def demo_column_def
      enc_cell_def is_call_def self_typed_def)

lemma paged_facts:
  "result_ok paged_result demo_rows" "frameable paged_response"
  "pae_columns paged_result = demo_columns" "pae_statement_type paged_result = ST_Select"
  "pae_total_tuple_count paged_result = 4"
proof -
  have "length paged_response = length demo_response"
    by (simp add: paged_response_def demo_response_def paged_result_def enc_prepare_and_execute_def)
  with frameable_demo(1) show "frameable paged_response" by (simp add: frameable_def)
qed (use demo_result_ok in \<open>simp_all add: paged_result_def result_ok_def demo_result_def\<close>)

theorem query_fetches_all_witness:
  "query demo_ff (bytes_of ''SELECT ?'') [V_Int 1] (demo_client paged_traffic) =
    (Inr \<lparr>qr_columns = pae_columns paged_result,
          qr_rows = map row_values demo_rows @ concat (map page_rows demo_pages),
          qr_total_count = pae_total_tuple_count paged_result\<rparr>,
     (demo_client paged_traffic)\<lparr>conn := Some (after
         (write_prepare_and_execute (interpolate_params demo_ff (bytes_of ''SELECT ?'') [V_Int 1])
           (client_auto_commit (demo_client paged_traffic)) (conn_cas_info (demo_conn paged_traffic))
         @ fetch_requests (pae_query_handle paged_result) (length demo_rows) (CAS 5 6 7 8) demo_pages
         @ write_close_req_handle (pae_query_handle paged_result) (last_token (CAS 5 6 7 8) demo_pages))
         [] (last_token (CAS 5 6 7 8) demo_pages) (demo_conn paged_traffic))\<rparr>)"
proof (rule query_fetches_all [where u = demo_unread and closed = demo_closed])
  have two: "length (concat (map page_rows demo_pages)) = 2"
    by (simp add: demo_pages_def page_rows_def length_demo_rows)
  show "length demo_rows + length (concat (map page_rows demo_pages)) < 2 ^ 31"
    "pae_total_tuple_count paged_result =
       usize_as_i32 (length demo_rows + length (concat (map page_rows demo_pages)))"
    unfolding two paged_facts by (simp_all add: length_demo_rows usize_as_i32_def)
  show "list_all (page_ok (pae_columns paged_result) ST_Select) demo_pages"
    by (simp add: paged_facts demo_pages_ok)
qed (simp_all add: paged_facts frameable_demo paged_traffic_def demo_columns_def flip: paged_response_def)

section \<open>Statements that fail\<close>

text \<open>
  C12. A server error is reported and the session goes on: when the server answers an
  operation with an error response, the operation returns the server's code and message, the
  connection stays open with its token, and exactly one response has been consumed, so the
  next operation is in step.
\<close>

theorem server_error_keeps_session:
  assumes "conn c = Some k" and "healthy k" and "sint rc < 0" and "wf_str message"
    and "frameable (error_body cas rc code message n)"
    and "arrivals (stream k) = arrive (frame (error_body cas rc code message n)) @ as"
    and "e = CE_Protocol (PE_ServerError code message)"
  shows "execute ff sql ps c = (Inl (Err e), c\<lparr>conn := Some (exchanged (write_prepare_and_execute
        (interpolate_params ff sql ps) (client_auto_commit c) (conn_cas_info k)) as k)\<rparr>)
    \<and> query ff sql ps c = (Inl (Err e), c\<lparr>conn := Some (exchanged (write_prepare_and_execute
        (interpolate_params ff sql ps) (client_auto_commit c) (conn_cas_info k)) as k)\<rparr>)
    \<and> prepare sql c = (Inl (Err e), c\<lparr>conn := Some (exchanged (write_prepare sql (client_auto_commit c)
        (conn_cas_info k)) as k)\<rparr>)
    \<and> commit c = (Inl (Err e), c\<lparr>conn := Some (exchanged (write_end_tran Commit (conn_cas_info k)) as k)\<rparr>)
    \<and> rollback c = (Inl (Err e), c\<lparr>conn := Some (exchanged (write_end_tran Rollback (conn_cas_info k)) as k)\<rparr>)
    \<and> ping c = (Inl (Err e), c\<lparr>conn := Some (exchanged (write_get_db_version (client_auto_commit c)
        (conn_cas_info k)) as k)\<rparr>)"
proof -
  note hyps = assms(2,5,6,3,4)
  have o: "on_conn (request req parse_prepare) c =
      (Inl (Err e), c\<lparr>conn := Some (exchanged (req (conn_cas_info k)) as k)\<rparr>)"
    "on_conn (request req parse_simple_unit) c =
      (Inl (Err e), c\<lparr>conn := Some (exchanged (req (conn_cas_info k)) as k)\<rparr>)"
    "on_conn (request req parse_get_db_version) c =
      (Inl (Err e), c\<lparr>conn := Some (exchanged (req (conn_cas_info k)) as k)\<rparr>)"
    "on_conn (request req (\<lambda>resp. parse_prepare_and_execute resp v)) c =
      (Inl (Err e), c\<lparr>conn := Some (exchanged (req (conn_cas_info k)) as k)\<rparr>)" for req v
    unfolding assms(7)
    by (rule on_conn_Inl [OF assms(1)], rule prepare.request_error [OF hyps] simple.request_error [OF hyps]
        db_version.request_error [OF hyps] prepare_and_execute.request_error [OF hyps])+
  have p: "prepare_and_execute ff sql ps c = (Inl (Err e), c\<lparr>conn := Some (exchanged
      (write_prepare_and_execute (interpolate_params ff sql ps) (client_auto_commit c) (conn_cas_info k)) as k)\<rparr>)"
    unfolding prepare_and_execute_def by (rule o)
  show ?thesis
    by (simp add: execute_def query_def and_then_Inl [where m = "prepare_and_execute ff sql ps", OF p]
        prepare_def commit_def rollback_def end_tran_def ping_def and_then_Inl o)
qed

definition demo_error :: bytes where
  "demo_error = error_body (CAS 0 0 0 0) (- 1) (- 493) (bytes_of ''Syntax'') 2"

lemma demo_error_ok: "frameable demo_error" "wf_str (bytes_of ''Syntax'')"
  by (simp_all add: demo_error_def error_body_def frameable_def wf_str_def bytes_of_def
      utf8_check_Suc utf8_tail_ascii)

theorem server_error_keeps_session_witness:
  "execute demo_ff [63] [] (demo_client (frame demo_error)) =
      (Inl (Err (CE_Protocol (PE_ServerError (- 493) (bytes_of ''Syntax'')))),
       (demo_client (frame demo_error))\<lparr>conn := Some (exchanged (write_prepare_and_execute
        (interpolate_params demo_ff [63] []) (client_auto_commit (demo_client (frame demo_error)))
        (conn_cas_info (demo_conn (frame demo_error)))) [] (demo_conn (frame demo_error)))\<rparr>)"
  by (rule server_error_keeps_session [where cas = "CAS 0 0 0 0" and rc = "- 1"
        and n = 2, THEN conjunct1])
    (simp_all add: demo_error_ok flip: demo_error_def)

lemma simple_response:
  "0 \<le> sint (rc :: i32) \<Longrightarrow> parse_simple_unit (cas_bytes cas @ be_bytes 4 rc @ body) = Inr ((), cas)"
  by (simp only: parse_simple_unit_head run_parser_def response_head_run) simp

lemma end_tran_frame:
  assumes "conn c = Some k" and "healthy k" and "0 \<le> sint (rc :: i32)"
    and "frameable (cas_bytes cas @ be_bytes 4 rc @ body)"
    and "arrivals (stream k) = arrive (frame (cas_bytes cas @ be_bytes 4 rc @ body)) @ as"
  shows "end_tran t c =
    (Inr (), c\<lparr>conn := Some (after (write_end_tran t (conn_cas_info k)) as cas k)\<rparr>)"
  unfolding end_tran_def
  by (rule on_conn_ok [OF assms(1)], rule request_ok [OF assms(2,4,5)], rule simple_response [OF assms(3)])

text \<open>A ping whose read fails, and a commit on the response that arrives late.\<close>

lemma late_response:
  assumes "conn c = Some k" and "healthy k"
    and "arrivals (stream k) = Read_Fails e # arrive (frame (cas_bytes cas @ be_bytes 4 rc @ body)) @ as"
    and "0 \<le> sint (rc :: i32)" and "frameable (cas_bytes cas @ be_bytes 4 rc @ body)"
    and "out = write_get_db_version (client_auto_commit c) (conn_cas_info k)"
    and "k1 = exchanged out (arrive (frame (cas_bytes cas @ be_bytes 4 rc @ body)) @ as) k"
  shows "ping c = (Inl (Err (CE_Io e)), c\<lparr>conn := Some k1\<rparr>)"
    and "commit (c\<lparr>conn := Some k1\<rparr>) =
      (Inr (), c\<lparr>conn := Some (after (write_end_tran Commit (conn_cas_info k1)) as cas k1)\<rparr>)"
proof -
  have "take_arrivals 4 (Read_Fails e # as') = (Inl e, as')" for as'
    by (simp add: numeral_eq_Suc)
  then have r: "request (write_get_db_version (client_auto_commit c)) parse_get_db_version k =
      (Inl (Err (CE_Io e)), k1)"
    using assms(2,3,6,7)
    by (simp add: request_def round_trip_def cas_info_def send_framed_def and_then_def
        write_all_healthy recv_framed_def read_exact_def)
      (simp add: exchanged_def)
  show "ping c = (Inl (Err (CE_Io e)), c\<lparr>conn := Some k1\<rparr>)"
    unfolding ping_def by (rule on_conn_Inl, rule assms(1), rule r)
  show "commit (c\<lparr>conn := Some k1\<rparr>) =
      (Inr (), c\<lparr>conn := Some (after (write_end_tran Commit (conn_cas_info k1)) as cas k1)\<rparr>)"
    using end_tran_frame [of "c\<lparr>conn := Some k1\<rparr>" k1 rc cas body as Commit] assms(2,4,5,7)
    by (simp add: commit_def)
qed

text \<open>
  C35. After a read timeout the client is out of step: the operation that timed out returns
  the I/O error but the connection stays open, and when its response arrives late the next
  operation takes it for its own. A commit sent after a timed-out ping reports success on the
  ping's response, whatever the server will answer to the commit.
\<close>

theorem timeout_desynchronises:
  assumes "conn c = Some k" and "healthy k"
    and "arrivals (stream k) = Read_Fails e # arrive (frame (cas_bytes cas @ be_bytes 4 rc @ body)) @ as"
    and "0 \<le> sint (rc :: i32)" and "frameable (cas_bytes cas @ be_bytes 4 rc @ body)"
  shows "fst (ping c) = Inl (Err (CE_Io e))
    \<and> \<not> is_closed (snd (ping c))
    \<and> fst (commit (snd (ping c))) = Inr ()
    \<and> (\<exists>k'. conn (snd (commit (snd (ping c)))) = Some k' \<and> arrivals (stream k') = as)"
  using late_response [OF assms refl refl] by (simp add: is_closed_def)

definition late_client :: client where
  "late_client = \<lparr>conn = Some \<lparr>stream = (demo_tcp [])\<lparr>arrivals := Read_Fails Io_WouldBlock #
       arrive (frame (cas_bytes (CAS 1 1 1 1) @ be_bytes 4 (0 :: i32) @ []))\<rparr>, conn_cas_info = CAS 1 1 1 1\<rparr>,
     client_auto_commit = False, client_proto_version = 8, released = []\<rparr>"

theorem timeout_desynchronises_witness:
  "fst (ping late_client) = Inl (Err (CE_Io Io_WouldBlock))
    \<and> \<not> is_closed (snd (ping late_client))
    \<and> fst (commit (snd (ping late_client))) = Inr ()
    \<and> (\<exists>k'. conn (snd (commit (snd (ping late_client)))) = Some k' \<and> arrivals (stream k') = [])"
  by (rule timeout_desynchronises [where k = "the (conn late_client)" and rc = 0 and body = "[]"
        and cas = "CAS 1 1 1 1"])
    (simp_all add: late_client_def healthy_def frameable_def)

section \<open>Counting affected rows\<close>

lemma affected_rows_int:
  "affected_rows infos = word_of_int (sum_list (map (\<lambda>i. sint (result_count i)) infos))"
proof -
  have step: "word_of_int s + i32_as_u64 w = word_of_int (s + sint w)" for s w
    unfolding i32_as_u64_def scast_eq of_int_add by (rule refl)
  have "foldl (\<lambda>affected info. affected + i32_as_u64 (result_count info)) (word_of_int s) infos =
      word_of_int (s + sum_list (map (\<lambda>i. sint (result_count i)) infos))" for s
    by (induction infos arbitrary: s) (simp_all only: foldl.simps step list.map sum_list.Nil sum_list.Cons add.assoc add_0_right)
  from this [of 0] show ?thesis by (simp add: affected_rows_def)
qed

text \<open>
  C37. The affected-row count: with non-negative counts (and fewer than \<open>2 ^ 33\<close> results) it
  is their sum, but a single result that reports an error with \<open>-1\<close> yields the largest
  unsigned 64-bit number instead of an error.
\<close>

theorem affected_rows_count:
  assumes "list_all (\<lambda>i. 0 \<le> sint (result_count i)) infos" and "length infos < 2 ^ 33"
    and "result_count failed = - 1"
  shows "unat (affected_rows infos) = sum_list (map (\<lambda>i. nat (sint (result_count i))) infos)
    \<and> affected_rows [failed] = 2 ^ 64 - 1"
proof
  let ?s = "sum_list (map (\<lambda>i. sint (result_count i)) infos)"
  have "0 \<le> ?s \<and> ?s \<le> 2 ^ 31 * int (length infos)
      \<and> nat ?s = sum_list (map (\<lambda>i. nat (sint (result_count i))) infos)"
    using assms(1)
  proof (induction infos)
    case (Cons i infos)
    with sint_i32_bounds(2) [of "result_count i"] show ?case by (auto simp: nat_add_distrib algebra_simps)
  qed simp
  moreover from this assms(2) have "?s < 2 ^ 64" by simp
  ultimately show "unat (affected_rows infos) = sum_list (map (\<lambda>i. nat (sint (result_count i))) infos)"
    by (simp add: affected_rows_int unat_eq_nat_uint unsigned_of_int take_bit_int_eq_self)
  show "affected_rows [failed] = 2 ^ 64 - 1"
    by (simp add: affected_rows_int assms(3))
qed

theorem affected_rows_count_witness:
  "unat (affected_rows [demo_info, demo_info\<lparr>result_count := 5\<rparr>]) =
      sum_list (map (\<lambda>i. nat (sint (result_count i))) [demo_info, demo_info\<lparr>result_count := 5\<rparr>])
    \<and> affected_rows [demo_info\<lparr>result_count := - 1\<rparr>] = 2 ^ 64 - 1"
  by (rule affected_rows_count) (simp_all add: demo_info_def)

section \<open>Handles\<close>

text \<open>
  C34. A statement is closed once: closing an open statement sends one FC=6 request with its
  handle, whatever the server answers; closing it again sends nothing; and a closed statement
  refuses to run, on any client, without touching the connection.
\<close>

theorem statement_closes_once:
  assumes "conn c = Some k" and "healthy k" and "frameable resp"
    and "arrivals (stream k) = arrive (frame resp) @ as"
    and "\<not> stmt_closed s" and "0 < sint (stmt_query_handle s)"
    and "s' = s\<lparr>stmt_closed := True, stmt_query_handle := 0\<rparr>"
  shows "statement_close (s, c) = (Inr (), (s', c\<lparr>conn := Some (exchanged
        (write_close_req_handle (stmt_query_handle s) (conn_cas_info k)) as k)\<rparr>))
    \<and> statement_close (s', c') = (Inr (), (s', c'))
    \<and> statement_execute ff s' ps c' = (Inl (Err CE_ConnectionClosed), c')
    \<and> query_with ff s' ps c' = (Inl (Err CE_ConnectionClosed), c')"
  using assms(5-7) close_query_handle_frame [OF assms(1-4)]
  by (simp add: statement_close_def Let_def statement_execute_def query_with_def)

definition demo_statement :: statement where
  "demo_statement = \<lparr>stmt_query_handle = 7, stmt_statement_type = ST_Select, stmt_bind_count = 0,
     stmt_columns = demo_columns, stmt_closed = False, stmt_sql = []\<rparr>"

theorem statement_closes_once_witness:
  "statement_close (demo_statement, demo_client (frame demo_closed)) =
      (Inr (), (demo_statement\<lparr>stmt_closed := True, stmt_query_handle := 0\<rparr>,
        (demo_client (frame demo_closed))\<lparr>conn := Some (exchanged
        (write_close_req_handle (stmt_query_handle demo_statement) (conn_cas_info (demo_conn (frame demo_closed)))) []
          (demo_conn (frame demo_closed)))\<rparr>))
    \<and> statement_close (demo_statement\<lparr>stmt_closed := True, stmt_query_handle := 0\<rparr>, closed_demo) =
        (Inr (), (demo_statement\<lparr>stmt_closed := True, stmt_query_handle := 0\<rparr>, closed_demo))
    \<and> statement_execute demo_ff (demo_statement\<lparr>stmt_closed := True, stmt_query_handle := 0\<rparr>) [] closed_demo
        = (Inl (Err CE_ConnectionClosed), closed_demo)
    \<and> query_with demo_ff (demo_statement\<lparr>stmt_closed := True, stmt_query_handle := 0\<rparr>) [] closed_demo
        = (Inl (Err CE_ConnectionClosed), closed_demo)"
  by (rule statement_closes_once [where resp = demo_closed])
    (simp_all add: frameable_demo demo_statement_def)

text \<open>
  C36. A query that fails while fetching leaks its handle: when the first response leaves rows
  to fetch and the server answers the fetch with an error, the query returns that error after
  sending FC=41 and FC=8 only; the handle that FC=41 opened is never closed.
\<close>

theorem failed_fetch_leaks_handle:
  assumes "conn c = Some k" and "healthy k" and "result_ok r ws"
    and "frameable (enc_prepare_and_execute u (client_proto_version c) cas r ws)"
    and "pae_statement_type r = ST_Select" and "sint (usize_as_i32 (length ws)) < sint (pae_total_tuple_count r)"
    and "sint rc < 0" and "wf_str message" and "frameable (error_body cas' rc code message n)"
    and "arrivals (stream k) = arrive (frame (enc_prepare_and_execute u (client_proto_version c) cas r ws))
        @ arrive (frame (error_body cas' rc code message n)) @ as"
  shows "query ff sql ps c =
    (Inl (Err (CE_Protocol (PE_ServerError code message))),
     c\<lparr>conn := Some (after (write_prepare_and_execute (interpolate_params ff sql ps)
           (client_auto_commit c) (conn_cas_info k)
         @ write_fetch (pae_query_handle r) (usize_as_i32 (length ws)) 100 cas) as cas k)\<rparr>)"
proof -
  let ?req = "write_prepare_and_execute (interpolate_params ff sql ps) (client_auto_commit c) (conn_cas_info k)"
  let ?k1 = "after ?req (arrive (frame (error_body cas' rc code message n)) @ as) cas k"
  let ?f = "\<lambda>m. write_fetch (pae_query_handle r) m 100"
  have p: "prepare_and_execute ff sql ps c = (Inr r, c\<lparr>conn := Some ?k1\<rparr>)"
    by (rule prepare_and_execute_ok [OF assms(1-4,10)])
  have rows: "length (pae_rows r) = length ws"
    using assms(3,5) by (simp add: result_ok_def reported_def is_select_def)
  have "request (?f m) (\<lambda>resp. parse_fetch resp (pae_columns r) st) ?k1 =
      (Inl (Err (CE_Protocol (PE_ServerError code message))), exchanged (?f m (conn_cas_info ?k1)) as ?k1)" for m st
    by (rule fetch.request_error [OF _ assms(9) _ assms(7,8)]) (simp_all add: assms(2))
  then have "fetch_once (pae_query_handle r) (pae_columns r) st m (c\<lparr>conn := Some ?k1\<rparr>) =
      (Inl (Err (CE_Protocol (PE_ServerError code message))),
       c\<lparr>conn := Some (exchanged (?f m cas) as ?k1)\<rparr>)" for st m
    by (simp add: fetch_once_def DEFAULT_FETCH_SIZE_def on_conn_def)
  then have "fetch_loop (pae_query_handle r) (pae_columns r) st (pae_total_tuple_count r)
        (usize_as_i32 (length ws)) rs (c\<lparr>conn := Some ?k1\<rparr>) =
      (Inl (Err (CE_Protocol (PE_ServerError code message))),
       c\<lparr>conn := Some (exchanged (?f (usize_as_i32 (length ws)) cas) as ?k1)\<rparr>)" for rs st
    using assms(6) by (simp add: fetch_loop.simps)
  then show ?thesis
    using assms(6)
    by (simp add: query_def and_then_Inr [where m = "prepare_and_execute ff sql ps", OF p] Let_def
        assms(5) rows is_select_def fetch_remaining_def and_then_Inl)
qed

theorem failed_fetch_leaks_handle_witness:
  "query demo_ff [63] [] (demo_client (frame paged_response @ frame demo_error)) =
    (Inl (Err (CE_Protocol (PE_ServerError (- 493) (bytes_of ''Syntax'')))),
     (demo_client (frame paged_response @ frame demo_error))\<lparr>conn := Some (after
         (write_prepare_and_execute (interpolate_params demo_ff [63] [])
           (client_auto_commit (demo_client (frame paged_response @ frame demo_error)))
           (conn_cas_info (demo_conn (frame paged_response @ frame demo_error)))
         @ write_fetch (pae_query_handle paged_result) (usize_as_i32 (length demo_rows)) 100 (CAS 5 6 7 8))
         [] (CAS 5 6 7 8) (demo_conn (frame paged_response @ frame demo_error)))\<rparr>)"
  by (rule failed_fetch_leaks_handle [where u = demo_unread and cas' = "CAS 0 0 0 0" and rc = "- 1" and n = 2])
    (simp_all add: paged_facts demo_error_ok length_demo_rows usize_as_i32_def
      flip: demo_error_def paged_response_def)

end
