(* ===== verification/Fetch_Bounds.thy ===== *)
theory Fetch_Bounds
  imports Client_Laws
begin

text \<open>
  How long fetching goes on: every round but the last consumes a frame, so what arrives
  bounds the requests; and nothing else does, because a server that reports negative counts
  keeps the loop going.
\<close>

section \<open>What is sent\<close>

definition sent_count :: "client \<Rightarrow> nat" where
  "sent_count c = (case conn c of None \<Rightarrow> 0 | Some k \<Rightarrow> length (sent (stream k)))"

lemma write_all_sends: "length (sent (stream (snd (write_all data k)))) \<le> length (sent (stream k)) + length data"
  by (simp add: write_all_def tcp_write_all_def split: option.split)

lemma recv_framed_sends [simp]: "sent (stream (snd (recv_framed k))) = sent (stream k)"
  by (subst stream_framed) simp

lemma request_sends:
  "length (sent (stream (snd (request req parse k)))) \<le> length (sent (stream k)) + length (req (conn_cas_info k))"
proof -
  obtain res k1 where w: "send_framed (req (conn_cas_info k)) k = (res, k1)"
    by (cases "send_framed (req (conn_cas_info k)) k")
  have k1: "length (sent (stream k1)) \<le> length (sent (stream k)) + length (req (conn_cas_info k))"
    using write_all_sends [of "req (conn_cas_info k)" k] w by (simp add: send_framed_def)
  obtain res2 k2 where r: "recv_framed k1 = (res2, k2)" by (cases "recv_framed k1")
  have k2: "sent (stream k2) = sent (stream k1)" using recv_framed_sends [of k1] r by simp
  have "sent (stream (snd (request req parse k))) \<in> {sent (stream k1), sent (stream k2)}"
    using w r by (auto simp: request_def round_trip_def cas_info_def and_then_def lift_proto_def
        set_cas_info_def split: sum.split prod.split)
  with k1 k2 show ?thesis by auto
qed

lemma length_write_fetch: "length (write_fetch h n m cas) = 46"
  by (simp add: write_fetch_def write_defs build_request_def)

lemma fetch_once_sends: "sent_count (snd (fetch_once h cols st n c)) \<le> sent_count c + 46"
proof (cases "conn c")
  case (Some k)
  then show ?thesis
    using request_sends [of "write_fetch h n DEFAULT_FETCH_SIZE" "\<lambda>resp. parse_fetch resp cols st" k]
    by (simp add: fetch_once_def on_conn_def sent_count_def length_write_fetch case_prod_unfold)
qed (simp add: fetch_once_def on_conn_def sent_count_def)

lemma fetch_loop_sends:
  "sent_count (snd (fetch_loop h cols st t n rows c)) \<le> sent_count c + 46 * (pending c div 8 + 1)"
proof (induction h cols st t n rows c rule: fetch_loop.induct)
  case (1 h cols st t n rows c)
  obtain res c1 where f: "fetch_once h cols st n c = (res, c1)" by (cases "fetch_once h cols st n c")
  have c1: "sent_count c1 \<le> sent_count c + 46" using fetch_once_sends [of h cols st n c] f by simp
  show ?case
  proof (cases "sint n < sint t \<and> (\<exists>x. res = Inr x \<and> fetch_tuple_count x \<noteq> 0)")
    case True
    then obtain x where x: "res = Inr x" "fetch_tuple_count x \<noteq> 0" and lt: "sint n < sint t" by blast
    from fetch_once_consumes [OF f [unfolded x(1)]]
    have "pending c1 div 8 + 1 \<le> pending c div 8" by linarith
    with 1 lt f x c1 show ?thesis by (fastforce simp: fetch_loop.simps [of h cols st t n rows c])
  next
    case False
    with f c1 show ?thesis
      by (auto simp: fetch_loop.simps [of h cols st t n rows c] split: sum.split)
  qed
qed

section \<open>Negative counts\<close>

definition negative_page :: "cas_info \<Rightarrow> bytes" where
  "negative_page cas = cas_bytes cas @ be_bytes 4 (0 :: i32) @ be_bytes 4 (- 1 :: i32)"

lemma parse_negative_page:
  "parse_fetch (negative_page cas) cols st = Inr (\<lparr>fetch_tuple_count = - 1, fetch_rows = []\<rparr>, cas)"
proof -
  have "decodes (and_then parse_int (\<lambda>tuple_count.
      and_then (if sint tuple_count > 0 \<and> cols \<noteq> [] then parse_row_data tuple_count cols st else ok []) (\<lambda>rows.
      ok (\<lparr>fetch_tuple_count = tuple_count, fetch_rows = rows\<rparr>, cas))))
    (\<lparr>fetch_tuple_count = - 1, fetch_rows = []\<rparr>, cas) (be_bytes 4 (- 1 :: i32))"
    by (rule decodes_last [OF decodes_scalars(3)]) (simp add: decodes_ok del: ok_apply)
  then have "decodes (parse_fetch_body cols st) (\<lparr>fetch_tuple_count = - 1, fetch_rows = []\<rparr>, cas) (negative_page cas)"
    unfolding parse_fetch_body_def negative_page_def by (rule decodes_response_head) simp
  from decodes_run [OF this, of "[]"] show ?thesis by (simp add: parse_fetch_def run_parser_def)
qed

lemma frameable_negative_page [simp]: "frameable (negative_page cas)"
  by (simp add: frameable_def negative_page_def)

text \<open>The row count that the client has after \<open>i\<close> such pages.\<close>

definition below_zero :: "nat \<Rightarrow> i32" where
  "below_zero i = word_of_int (- int i)"

lemma below_zero_Suc: "below_zero i + (- 1) = below_zero (Suc i)"
  by (simp add: below_zero_def)

lemma sint_below_zero:
  assumes "i \<le> 2 ^ 31"
  shows "sint (below_zero i) = - int i"
proof -
  have small: "sint (word_of_int x :: i32) = x" if "- (2 ^ 31) \<le> x" "x \<le> 0" for x
    using that by (simp add: signed_of_int signed_take_bit_int_eq_self)
  show ?thesis unfolding below_zero_def by (rule small) (use assms in simp_all)
qed

lemma fetch_once_eof:
  assumes "conn c = Some k" and "healthy k" and "arrivals (stream k) = []"
  shows "fetch_once h cols st n c =
    (Inl (Err (CE_Io Io_UnexpectedEof)), c\<lparr>conn := Some (exchanged (write_fetch h n 100 (conn_cas_info k)) [] k)\<rparr>)"
  unfolding fetch_once_def DEFAULT_FETCH_SIZE_def
  by (rule on_conn_Inl [OF assms(1)], rule request_eof [OF assms(2,3)])

lemma negative_pages_loop:
  assumes "conn c = Some k" and "healthy k" and "0 < sint t" and "i + n \<le> 2 ^ 31"
    and "arrivals (stream k) = arrive (concat (replicate n (frame (negative_page cas))))"
  shows "fst (fetch_loop h cols st t (below_zero i) rows c) = Inl (Err (CE_Io Io_UnexpectedEof))
    \<and> sent_count (snd (fetch_loop h cols st t (below_zero i) rows c)) = sent_count c + 46 * (n + 1)"
  using assms
proof (induction n arbitrary: i c k)
  case 0
  then have lt: "sint (below_zero i) < sint t" by (simp add: sint_below_zero)
  have "fetch_once h cols st (below_zero i) c = (Inl (Err (CE_Io Io_UnexpectedEof)),
      c\<lparr>conn := Some (exchanged (write_fetch h (below_zero i) 100 (conn_cas_info k)) [] k)\<rparr>)"
    by (rule fetch_once_eof) (use "0.prems" in simp_all)
  with lt "0.prems"(1) show ?case
    by (simp add: fetch_loop.simps sent_count_def length_write_fetch)
next
  case (Suc n)
  let ?f = "below_zero i"
  let ?as = "arrive (concat (replicate n (frame (negative_page cas))))"
  let ?k = "after (write_fetch h ?f 100 (conn_cas_info k)) ?as cas k"
  have lt: "sint ?f < sint t" using Suc.prems by (simp add: sint_below_zero)
  have "request (write_fetch h ?f 100) (\<lambda>resp. parse_fetch resp cols st) k =
      (Inr \<lparr>fetch_tuple_count = - 1, fetch_rows = []\<rparr>, ?k)"
    by (rule request_ok [where resp = "negative_page cas"])
      (use Suc.prems in \<open>simp_all add: parse_negative_page\<close>)
  then have once: "fetch_once h cols st ?f c =
      (Inr \<lparr>fetch_tuple_count = - 1, fetch_rows = []\<rparr>, c\<lparr>conn := Some ?k\<rparr>)"
    unfolding fetch_once_def DEFAULT_FETCH_SIZE_def by (rule on_conn_ok [OF Suc.prems(1)])
  have "fetch_loop h cols st t ?f rows c =
      fetch_loop h cols st t (below_zero (Suc i)) rows (c\<lparr>conn := Some ?k\<rparr>)"
    using lt by (subst fetch_loop.simps) (simp add: once below_zero_Suc del: add_uminus_conv_diff)
  moreover have "sent_count (c\<lparr>conn := Some ?k\<rparr>) = sent_count c + 46"
    using Suc.prems(1) by (simp add: sent_count_def length_write_fetch)
  ultimately show ?case
    using Suc.IH [of "c\<lparr>conn := Some ?k\<rparr>" ?k "Suc i"] Suc.prems by simp
qed

text \<open>
  C28. Fetching ends, but only because the server stops answering: the number of requests
  that \<open>fetch_remaining\<close> sends is at most one more than the frames that can arrive (each
  request has 46 bytes, each frame at least 8), whatever the server answers. The counts that
  the server reports do not bound it: a server that answers \<open>n\<close> times with the count \<open>-1\<close> and
  no rows gets \<open>n + 1\<close> requests, for every \<open>n\<close> up to \<open>2 ^ 31\<close>, although the client wanted
  a fixed number of rows.
\<close>

theorem fetching_ends:
  assumes "conn c = Some k" and "healthy k" and "0 < sint total_count" and "n \<le> 2 ^ 31"
    and "arrivals (stream k) = arrive (concat (replicate n (frame (negative_page cas))))"
  shows "sent_count (snd (fetch_remaining h cols st t rows c')) \<le> sent_count c' + 46 * (pending c' div 8 + 1)
    \<and> fst (fetch_remaining h cols st total_count [] c) = Inl (Err (CE_Io Io_UnexpectedEof))
    \<and> sent_count (snd (fetch_remaining h cols st total_count [] c)) = sent_count c + 46 * (n + 1)"
proof -
  have "below_zero 0 = usize_as_i32 0" by (simp add: below_zero_def usize_as_i32_def)
  with negative_pages_loop [OF assms(1-3) _ assms(5), of 0] assms(4) show ?thesis
    unfolding fetch_remaining_def by (simp del: mult_Suc_right) (use fetch_loop_sends in simp)
qed

theorem fetching_ends_witness:
  "sent_count (snd (fetch_remaining 1 [] ST_Select 5 [] (demo_client []))) \<le>
      sent_count (demo_client []) + 46 * (pending (demo_client []) div 8 + 1)
    \<and> fst (fetch_remaining 1 [] ST_Select 1 []
        (demo_client (concat (replicate 2 (frame (negative_page (CAS 1 1 1 1)))))))
        = Inl (Err (CE_Io Io_UnexpectedEof))
    \<and> sent_count (snd (fetch_remaining 1 [] ST_Select 1 []
        (demo_client (concat (replicate 2 (frame (negative_page (CAS 1 1 1 1))))))))
        = sent_count (demo_client (concat (replicate 2 (frame (negative_page (CAS 1 1 1 1)))))) + 46 * (2 + 1)"
  by (rule fetching_ends [where cas = "CAS 1 1 1 1"
        and k = "demo_conn (concat (replicate 2 (frame (negative_page (CAS 1 1 1 1)))))"])
    simp_all

end
