(* ===== verification/Prepared_Laws.thy ===== *)
theory Prepared_Laws
  imports Client_Laws
begin

text \<open>
  The life of a prepared statement on the wire: \<open>prepare\<close> (FC=2), \<open>query_with\<close> without
  parameters (FC=3 and as many FC=8 as there are pages) and \<open>close\<close> (FC=6).
\<close>

section \<open>Each step\<close>

text \<open>What \<open>prepare\<close> makes of the response.\<close>

definition prepared :: "bytes \<Rightarrow> prepare_result \<Rightarrow> statement" where
  "prepared sql p =
     \<lparr>stmt_query_handle = prep_query_handle p, stmt_statement_type = prep_statement_type p,
      stmt_bind_count = prep_bind_count p, stmt_columns = prep_columns p, stmt_closed = False,
      stmt_sql = sql\<rparr>"

lemma prepared_simps [simp]:
  "stmt_query_handle (prepared sql p) = prep_query_handle p"
  "stmt_statement_type (prepared sql p) = prep_statement_type p"
  "stmt_columns (prepared sql p) = prep_columns p" "\<not> stmt_closed (prepared sql p)"
  by (simp_all add: prepared_def)

text \<open>Well-formed responses to \<open>prepare\<close> and to the execution of a prepared SELECT.\<close>

definition prepare_ok :: "prepare_result \<Rightarrow> bool" where
  "prepare_ok p \<longleftrightarrow> 0 < sint (prep_query_handle p) \<and> columns_ok (prep_columns p)
     \<and> prep_columns p \<noteq> [] \<and> prep_statement_type p = ST_Select"

definition executed_ok :: "column_metadata list \<Rightarrow> execute_result \<Rightarrow> wire_row list \<Rightarrow> bool" where
  "executed_ok cols e ws \<longleftrightarrow> 0 \<le> sint (exec_total_tuple_count e) \<and> infos_ok (exec_result_infos e)
     \<and> rows_ok cols ST_Select ws \<and> (exec_tuple_count e, exec_rows e) = reported ST_Select ws"

lemma prepare_frame:
  assumes "conn c = Some k" and "healthy k" and "prepare_ok p"
    and "frameable (enc_prepare u cas p)"
    and "arrivals (stream k) = arrive (frame (enc_prepare u cas p)) @ as"
  shows "prepare sql c = (Inr (prepared sql p),
    c\<lparr>conn := Some (after (write_prepare sql (client_auto_commit c) (conn_cas_info k)) as cas k)\<rparr>)"
proof -
  have "parse_prepare (enc_prepare u cas p) = Inr (p, cas)"
    unfolding parse_prepare_def
    by (rule run_decodes, rule decodes_prepare) (use assms(3) in \<open>simp_all add: prepare_ok_def\<close>)
  then have "on_conn (request (write_prepare sql (client_auto_commit c)) parse_prepare) c =
      (Inr p, c\<lparr>conn := Some (after (write_prepare sql (client_auto_commit c) (conn_cas_info k)) as cas k)\<rparr>)"
    by (intro on_conn_ok [OF assms(1)] request_ok [OF assms(2,4,5)])
  then show ?thesis by (simp add: prepare_def and_then_Inr prepared_def)
qed

lemma run_statement_frame:
  assumes "conn c = Some k" and "healthy k" and "prepare_ok p"
    and "executed_ok (prep_columns p) e ws"
    and "frameable (enc_execute u (client_proto_version c) cas (prep_columns p) ST_Select e ws)"
    and "arrivals (stream k) =
      arrive (frame (enc_execute u (client_proto_version c) cas (prep_columns p) ST_Select e ws)) @ as"
  shows "run_statement (prepared sql p) [] c = (Inr e, c\<lparr>conn := Some (after
    (write_execute (prep_query_handle p) ST_Select [] (client_auto_commit c) (conn_cas_info k)) as cas k)\<rparr>)"
proof -
  have "parse_execute (enc_execute u (client_proto_version c) cas (prep_columns p) ST_Select e ws)
      (prep_columns p) ST_Select (client_proto_version c) = Inr (e, cas)"
    unfolding parse_execute_def
    by (rule run_decodes, rule decodes_execute)
      (use assms(3,4) in \<open>simp_all add: prepare_ok_def executed_ok_def\<close>)
  moreover have "prep_statement_type p = ST_Select" using assms(3) by (simp add: prepare_ok_def)
  ultimately show ?thesis
    unfolding run_statement_def
    by (simp, intro on_conn_ok [OF assms(1)] request_ok [OF assms(2,5,6)]) simp
qed

lemma query_with_frames:
  assumes "conn c = Some k" and "healthy k" and "prepare_ok p"
    and "executed_ok (prep_columns p) e ws"
    and "frameable (enc_execute u (client_proto_version c) cas (prep_columns p) ST_Select e ws)"
    and "list_all (page_ok (prep_columns p) ST_Select) pages"
    and "length ws + length (concat (map page_rows pages)) < 2 ^ 31"
    and "exec_total_tuple_count e = usize_as_i32 (length ws + length (concat (map page_rows pages)))"
    and "arrivals (stream k) =
      arrive (frame (enc_execute u (client_proto_version c) cas (prep_columns p) ST_Select e ws))
        @ arrive (concat (map (page_frame (prep_columns p) ST_Select) pages)) @ as"
  shows "query_with ff (prepared sql p) [] c =
    (Inr \<lparr>qr_columns = prep_columns p, qr_rows = map row_values ws @ concat (map page_rows pages),
          qr_total_count = exec_total_tuple_count e\<rparr>,
     c\<lparr>conn := Some (after
         (write_execute (prep_query_handle p) ST_Select [] (client_auto_commit c) (conn_cas_info k)
            @ fetch_requests (prep_query_handle p) (length ws) cas pages)
         as (last_token cas pages) k)\<rparr>)"
proof -
  let ?req = "write_execute (prep_query_handle p) ST_Select [] (client_auto_commit c) (conn_cas_info k)"
  let ?k1 = "after ?req (arrive (concat (map (page_frame (prep_columns p) ST_Select) pages)) @ as) cas k"
  let ?k2 = "after (?req @ fetch_requests (prep_query_handle p) (length ws) cas pages) as
    (last_token cas pages) k"
  have run: "run_statement (prepared sql p) [] c = (Inr e, c\<lparr>conn := Some ?k1\<rparr>)"
    by (rule run_statement_frame [OF assms(1-5,9)])
  have rows: "exec_rows e = map row_values ws" and cols: "prep_columns p \<noteq> []"
    and st: "prep_statement_type p = ST_Select"
    using assms(3,4) by (simp_all add: executed_ok_def prepare_ok_def reported_def is_select_def)
  have "fetch_loop (prep_query_handle p) (prep_columns p) ST_Select (exec_total_tuple_count e)
      (usize_as_i32 (length (exec_rows e))) (exec_rows e) (c\<lparr>conn := Some ?k1\<rparr>) =
      (Inr (map row_values ws @ concat (map page_rows pages)), c\<lparr>conn := Some ?k2\<rparr>)"
    unfolding rows length_map
    using fetch_loop_pages [OF assms(6) cols, of "c\<lparr>conn := Some ?k1\<rparr>" ?k1 as "length ws"
        "exec_total_tuple_count e" "prep_query_handle p" "map row_values ws"] assms(2,7,8)
    by simp
  note fetch = fetch_if [OF this, unfolded is_select_def, simplified]
  show ?thesis
    by (simp add: query_with_def and_then_Inr [where m = "run_statement (prepared sql p) []", OF run]
        Let_def st is_select_def fetch cong: if_cong split del: if_split)
qed

section \<open>The whole life\<close>

text \<open>
  C11. A prepared SELECT, from preparing to closing it, when the server answers every request:
  the statement has the handle and the columns of the prepare response; running it without
  parameters returns all rows of the execute response and of every page, in order and exactly
  once, under those columns; closing it gives the handle back and marks it closed. Over the
  three operations the client writes FC=2, FC=3, one FC=8 per page and FC=6, each with the
  token of the response before it, and consumes exactly the responses to them.
\<close>

theorem prepared_query_fetches_all:
  assumes "conn c = Some k" and "healthy k" and "prepare_ok p" and "executed_ok (prep_columns p) e ws"
    and "frameable (enc_prepare u cas p)"
    and "frameable (enc_execute u' (client_proto_version c) cas' (prep_columns p) ST_Select e ws)"
    and "frameable closed" and "list_all (page_ok (prep_columns p) ST_Select) pages"
    and "length ws + length (concat (map page_rows pages)) < 2 ^ 31"
    and "exec_total_tuple_count e = usize_as_i32 (length ws + length (concat (map page_rows pages)))"
    and "arrivals (stream k) = arrive (frame (enc_prepare u cas p)
        @ frame (enc_execute u' (client_proto_version c) cas' (prep_columns p) ST_Select e ws)
        @ concat (map (page_frame (prep_columns p) ST_Select) pages) @ frame closed) @ as"
  shows "\<exists>c1 c2. prepare sql c = (Inr (prepared sql p), c1)
    \<and> query_with ff (prepared sql p) [] c1 =
        (Inr \<lparr>qr_columns = prep_columns p, qr_rows = map row_values ws @ concat (map page_rows pages),
              qr_total_count = exec_total_tuple_count e\<rparr>, c2)
    \<and> statement_close (prepared sql p, c2) =
        (Inr (), ((prepared sql p)\<lparr>stmt_closed := True, stmt_query_handle := 0\<rparr>,
          c\<lparr>conn := Some (after
            (write_prepare sql (client_auto_commit c) (conn_cas_info k)
             @ write_execute (prep_query_handle p) ST_Select [] (client_auto_commit c) cas
             @ fetch_requests (prep_query_handle p) (length ws) cas' pages
             @ write_close_req_handle (prep_query_handle p) (last_token cas' pages))
            as (last_token cas' pages) k)\<rparr>))"
proof -
  let ?ex = "enc_execute u' (client_proto_version c) cas' (prep_columns p) ST_Select e ws"
  let ?fs = "concat (map (page_frame (prep_columns p) ST_Select) pages)"
  let ?as2 = "arrive (frame closed) @ as"
  let ?k1 = "after (write_prepare sql (client_auto_commit c) (conn_cas_info k))
    (arrive (frame ?ex) @ arrive ?fs @ ?as2) cas k"
  let ?k2 = "after (write_prepare sql (client_auto_commit c) (conn_cas_info k)
      @ write_execute (prep_query_handle p) ST_Select [] (client_auto_commit c) cas
      @ fetch_requests (prep_query_handle p) (length ws) cas' pages) ?as2 (last_token cas' pages) k"
  have 1: "prepare sql c = (Inr (prepared sql p), c\<lparr>conn := Some ?k1\<rparr>)"
    by (rule prepare_frame [OF assms(1-3,5)]) (simp add: assms(11))
  have 2: "query_with ff (prepared sql p) [] (c\<lparr>conn := Some ?k1\<rparr>) =
      (Inr \<lparr>qr_columns = prep_columns p, qr_rows = map row_values ws @ concat (map page_rows pages),
            qr_total_count = exec_total_tuple_count e\<rparr>, c\<lparr>conn := Some ?k2\<rparr>)"
    using query_with_frames [of "c\<lparr>conn := Some ?k1\<rparr>" ?k1 p e ws u' cas' pages ?as2 ff sql]
      assms(2-4,6,8-10) by simp
  have "close_query_handle (prep_query_handle p) (c\<lparr>conn := Some ?k2\<rparr>) =
      (Inr (), c\<lparr>conn := Some (exchanged (write_close_req_handle (prep_query_handle p) (last_token cas' pages)) as ?k2)\<rparr>)"
    using close_query_handle_frame [of "c\<lparr>conn := Some ?k2\<rparr>" ?k2 closed as] assms(2,7) by simp
  then have "statement_close (prepared sql p, c\<lparr>conn := Some ?k2\<rparr>) =
      (Inr (), ((prepared sql p)\<lparr>stmt_closed := True, stmt_query_handle := 0\<rparr>,
        c\<lparr>conn := Some (exchanged (write_close_req_handle (prep_query_handle p) (last_token cas' pages)) as ?k2)\<rparr>))"
    using assms(3) by (simp add: statement_close_def prepare_ok_def)
  with 1 2 show ?thesis by simp
qed

definition demo_prepared :: prepare_result where
  "demo_prepared = \<lparr>prep_query_handle = 1, prep_statement_type = ST_Select, prep_bind_count = 0,
     prep_columns = demo_columns\<rparr>"

definition demo_executed :: execute_result where
  "demo_executed = \<lparr>exec_total_tuple_count = 4, exec_result_infos = [demo_info], exec_tuple_count = 2,
     exec_rows = [[V_Int 7, V_String [97, 98]], [V_Int 8, V_Null]]\<rparr>"

definition prepared_traffic :: bytes where
  "prepared_traffic = frame (enc_prepare demo_unread (CAS 5 5 5 5) demo_prepared)
     @ frame (enc_execute demo_unread 8 (CAS 6 6 6 6) demo_columns ST_Select demo_executed demo_rows)
     @ concat (map (page_frame demo_columns ST_Select) demo_pages) @ frame demo_closed"

lemma demo_prepared_ok:
  "prepare_ok demo_prepared" "executed_ok demo_columns demo_executed demo_rows"
  "frameable (enc_prepare demo_unread (CAS 5 5 5 5) demo_prepared)"
  "frameable (enc_execute demo_unread 8 (CAS 6 6 6 6) demo_columns ST_Select demo_executed demo_rows)"
proof -
  show "frameable (enc_prepare demo_unread (CAS 5 5 5 5) demo_prepared)"
    by (simp add: frameable_def enc_prepare_def demo_prepared_def enc_columns_def demo_columns_def
        demo_column_def enc_column_def enc_string_def demo_unread_def)
  show "frameable (enc_execute demo_unread 8 (CAS 6 6 6 6) demo_columns ST_Select demo_executed demo_rows)"
    by (simp add: frameable_def enc_execute_def demo_executed_def enc_tail_def enc_result_infos_def
        demo_info_def enc_result_info_def enc_version_fields_def enc_inline_rows_def demo_columns_def
        demo_column_def demo_rows_def enc_row_def enc_cell_def is_select_def is_call_def self_typed_def)
qed (use demo_ok in \<open>simp_all add: prepare_ok_def demo_prepared_def executed_ok_def demo_executed_def\<close>,
    simp add: demo_columns_def)

theorem prepared_query_fetches_all_witness:
  "\<exists>c1 c2. prepare (bytes_of ''SELECT 1'') (demo_client prepared_traffic) =
      (Inr (prepared (bytes_of ''SELECT 1'') demo_prepared), c1)
    \<and> query_with demo_ff (prepared (bytes_of ''SELECT 1'') demo_prepared) [] c1 =
        (Inr \<lparr>qr_columns = prep_columns demo_prepared,
              qr_rows = map row_values demo_rows @ concat (map page_rows demo_pages),
              qr_total_count = exec_total_tuple_count demo_executed\<rparr>, c2)
    \<and> statement_close (prepared (bytes_of ''SELECT 1'') demo_prepared, c2) =
        (Inr (), ((prepared (bytes_of ''SELECT 1'') demo_prepared)\<lparr>stmt_closed := True, stmt_query_handle := 0\<rparr>,
          (demo_client prepared_traffic)\<lparr>conn := Some (after
            (write_prepare (bytes_of ''SELECT 1'') (client_auto_commit (demo_client prepared_traffic))
               (conn_cas_info (demo_conn prepared_traffic))
             @ write_execute (prep_query_handle demo_prepared) ST_Select []
                 (client_auto_commit (demo_client prepared_traffic)) (CAS 5 5 5 5)
             @ fetch_requests (prep_query_handle demo_prepared) (length demo_rows) (CAS 6 6 6 6) demo_pages
             @ write_close_req_handle (prep_query_handle demo_prepared) (last_token (CAS 6 6 6 6) demo_pages))
            [] (last_token (CAS 6 6 6 6) demo_pages) (demo_conn prepared_traffic))\<rparr>))"
proof (rule prepared_query_fetches_all [where u = demo_unread and u' = demo_unread and closed = demo_closed])
  have two: "length (concat (map page_rows demo_pages)) = 2"
    by (simp add: demo_pages_def page_rows_def length_demo_rows)
  show "length demo_rows + length (concat (map page_rows demo_pages)) < 2 ^ 31"
    "exec_total_tuple_count demo_executed =
       usize_as_i32 (length demo_rows + length (concat (map page_rows demo_pages)))"
    unfolding two by (simp_all add: length_demo_rows usize_as_i32_def demo_executed_def)
qed (use demo_prepared_ok demo_pages_ok in
    \<open>simp_all add: demo_prepared_def frameable_demo prepared_traffic_def\<close>)

end
