(* ===== verification/Lockstep.thy ===== *)
theory Lockstep
  imports Client_Laws
begin

text \<open>
  Request and response stay paired. The client writes to a stream and reads from it, and
  nothing on the wire says which response answers which request: the client relies on reading
  exactly one frame for each frame it writes. This theory proves that every operation does so,
  whatever the responses contain, and that an operation sees nothing of what arrives behind
  its own responses. It follows the session token through the same exchanges: which token each
  request carries, and which responses the client takes its next one from.
\<close>

section \<open>Exchanges\<close>

text \<open>What arrives from a server that answers with \<open>rs\<close>, and what is left after \<open>n\<close> answers.\<close>

definition framed :: "bytes list \<Rightarrow> arrival list" where
  "framed rs = arrive (concat (map frame rs))"

lemma framed_simps [simp]: "framed [] = []" "framed (r # rs) = arrive (frame r) @ framed rs"
  by (simp_all add: framed_def)

definition is_request :: "bytes \<Rightarrow> bool" where
  "is_request q \<longleftrightarrow> (\<exists>payload cas. payload \<noteq> [] \<and> q = build_request payload cas)"

text \<open>
  The token. A request carries one in its header. The client closes a query handle without
  looking at the response, so it keeps its token there, and at an error; any other response
  has a token that a strict client takes.
\<close>

definition carries :: "cas_info \<Rightarrow> bytes \<Rightarrow> bool" where
  "carries cas q \<longleftrightarrow> (\<exists>payload. payload \<noteq> [] \<and> q = build_request payload cas)"

definition closes_handle :: "bytes \<Rightarrow> bool" where
  "closes_handle q \<longleftrightarrow> q ! 8 = function_code_u8 FC_CloseReqHandle"

definition refusal :: "bytes \<Rightarrow> bool" where
  "refusal r \<longleftrightarrow> length r < 8 \<or> sint (be_word (take 4 (drop 4 r)) :: i32) < 0"

definition next_token :: "bool \<Rightarrow> bytes \<Rightarrow> bytes \<Rightarrow> cas_info \<Rightarrow> cas_info \<Rightarrow> bool" where
  "next_token strict q r cas cas' \<longleftrightarrow>
     (if closes_handle q \<or> refusal r then cas' = cas
      else cas_bytes cas' = take 4 r \<or> \<not> strict \<and> cas' = cas)"

text \<open>
  The requests \<open>qs\<close> carry the tokens that a client has which begins with \<open>cas\<close>, reads the
  responses \<open>rs\<close> and ends with \<open>cas'\<close>. Where a response is missing, the token stays.
\<close>

primrec stamped :: "bool \<Rightarrow> cas_info \<Rightarrow> bytes list \<Rightarrow> bytes list \<Rightarrow> cas_info \<Rightarrow> bool" where
  "stamped strict cas [] rs cas' \<longleftrightarrow> cas' = cas"
| "stamped strict cas (q # qs) rs cas' \<longleftrightarrow> carries cas q \<and>
     (case rs of
        [] \<Rightarrow> stamped strict cas qs [] cas'
      | r # rs' \<Rightarrow> \<exists>cas1. next_token strict q r cas cas1 \<and> stamped strict cas1 qs rs' cas')"

lemma carries_request: "carries cas q \<Longrightarrow> is_request q"
  unfolding carries_def is_request_def by blast

lemma stamped_append:
  "stamped b cas qs rs cas1 \<Longrightarrow> stamped b cas1 qs' (drop (length qs) rs) cas' \<Longrightarrow>
     stamped b cas (qs @ qs') rs cas'"
  by (induction qs arbitrary: cas rs) (auto split: list.splits)

lemma stamped_lax: "stamped True cas qs rs cas' \<Longrightarrow> stamped b cas qs rs cas'"
proof (induction qs arbitrary: cas rs)
  case (Cons q qs)
  have "next_token b q r cas cas1" if "next_token True q r cas cas1" for r cas1
    using that by (auto simp: next_token_def)
  with Cons show ?case by (auto split: list.splits) blast
qed simp

lemma stamped_weaken: "stamped b cas qs rs cas' \<Longrightarrow> (b' \<Longrightarrow> b) \<Longrightarrow> stamped b' cas qs rs cas'"
  by (cases b; cases b') (auto intro: stamped_lax)

text \<open>The client \<open>c\<close> on the connection \<open>k\<close> with \<open>as\<close> about to arrive.\<close>

definition facing :: "client \<Rightarrow> connection \<Rightarrow> arrival list \<Rightarrow> client" where
  "facing c k as = c\<lparr>conn := Some (with_arrivals k as)\<rparr>"

text \<open>The connection \<open>k\<close> after the requests \<open>qs\<close>, with the token \<open>cas\<close>.\<close>

definition asked :: "bytes list \<Rightarrow> cas_info \<Rightarrow> connection \<Rightarrow> connection" where
  "asked qs cas k = (exchanged (concat qs) [] k)\<lparr>conn_cas_info := cas\<rparr>"

text \<open>
  The operation \<open>m\<close> of the client \<open>c\<close> has the outcome \<open>res\<close> after the requests \<open>qs\<close> when the
  server answers with \<open>rs\<close>. If there are enough answers, it takes one for each request and
  does not look at what follows them; if the stream ends too early, it takes them all. The
  requests carry the tokens they should, strictly if the operation succeeds.
\<close>

definition exchange ::
  "'a client_action \<Rightarrow> client \<Rightarrow> connection \<Rightarrow> bytes list \<Rightarrow>
     (client_error, 'a) outcome \<Rightarrow> bytes list \<Rightarrow> cas_info \<Rightarrow> bool" where
  "exchange m c k rs res qs cas \<longleftrightarrow> list_all is_request qs \<and>
     stamped (\<not> isl res) (conn_cas_info k) qs rs cas \<and>
     (\<forall>as. length qs \<le> length rs \<or> as = [] \<longrightarrow>
        m (facing c k (framed rs @ as)) =
          (res, facing c (asked qs cas k) (framed (drop (length qs) rs) @ as)))"

definition lockstep :: "'a client_action \<Rightarrow> bool" where
  "lockstep m \<longleftrightarrow> (\<forall>c k rs. healthy k \<longrightarrow> list_all frameable rs \<longrightarrow>
     (\<exists>res qs cas. exchange m c k rs res qs cas))"

lemma lockstepI:
  "(\<And>c k rs. healthy k \<Longrightarrow> list_all frameable rs \<Longrightarrow> \<exists>res qs cas. exchange m c k rs res qs cas)
     \<Longrightarrow> lockstep m"
  by (simp add: lockstep_def)

lemma lockstepE:
  assumes "lockstep m" and "healthy k" and "list_all frameable rs"
  obtains res qs cas where "exchange m c k rs res qs cas"
  using assms unfolding lockstep_def by blast

lemma facing_simps [simp]:
  "client_auto_commit (facing c k as) = client_auto_commit c"
  "client_proto_version (facing c k as) = client_proto_version c"
  "conn (facing c k as) = Some (with_arrivals k as)"
  "facing c (with_arrivals k as') as = facing c k as"
  by (simp_all add: facing_def)

lemma asked_simps [simp]:
  "healthy (asked qs cas k) = healthy k"
  "conn_cas_info (asked qs cas k) = cas"
  "asked qs' cas' (asked qs cas k) = asked (qs @ qs') cas' k"
  "asked [] (conn_cas_info k) k = with_arrivals k []"
  by (simp_all add: asked_def exchanged_def healthy_def)

text \<open>Only the behaviour on connections counts.\<close>

lemma exchange_cong:
  "(\<And>k as. m (facing c k as) = m' (facing c k as)) \<Longrightarrow> exchange m c = exchange m' c"
  by (simp add: fun_eq_iff exchange_def)

section \<open>How exchanges compose\<close>

named_theorems lockstep_intros

lemma exchange_none:
  assumes "\<And>as. m (facing c k as) = (res, facing c k as)"
  shows "exchange m c k rs res [] (conn_cas_info k)"
  by (simp add: exchange_def assms)

lemma lockstep_pure: "(\<And>c. m c = (res, c)) \<Longrightarrow> lockstep m"
  by (blast intro: lockstepI exchange_none)

lemma lockstep_ok [lockstep_intros]: "lockstep (ok x)"
  and lockstep_throw [lockstep_intros]: "lockstep (throw e)"
  by (rule lockstep_pure, rule ok_apply) (rule lockstep_pure, rule throw_apply)

lemma exchange_and_then:
  assumes m: "exchange m c k rs (Inr x) qs cas"
    and f: "exchange (f x) c (asked qs cas k) (drop (length qs) rs) res qs' cas'"
  shows "exchange (and_then m f) c k rs res (qs @ qs') cas'"
  unfolding exchange_def
proof (intro conjI allI impI)
  show "list_all is_request (qs @ qs')" using m f by (simp add: exchange_def)
  show "stamped (\<not> isl res) (conn_cas_info k) (qs @ qs') rs cas'"
    using m f by (auto simp: exchange_def intro: stamped_append stamped_lax)
  fix as :: "arrival list"
  assume enough: "length (qs @ qs') \<le> length rs \<or> as = []"
  with m have 1: "m (facing c k (framed rs @ as)) =
      (Inr x, facing c (asked qs cas k) (framed (drop (length qs) rs) @ as))"
    by (auto simp: exchange_def)
  from enough f have 2: "f x (facing c (asked qs cas k) (framed (drop (length qs) rs) @ as)) =
      (res, facing c (asked (qs @ qs') cas' k) (framed (drop (length (qs @ qs')) rs) @ as))"
    by (auto simp: exchange_def add.commute)
  from 1 2 show "and_then m f (facing c k (framed rs @ as)) =
      (res, facing c (asked (qs @ qs') cas' k) (framed (drop (length (qs @ qs')) rs) @ as))"
    by (simp add: and_then_def)
qed

lemma exchange_and_then_error:
  "exchange m c k rs (Inl e) qs cas \<Longrightarrow> exchange (and_then m f) c k rs (Inl e) qs cas"
  by (simp add: exchange_def and_then_def)

lemma list_all_drop: "list_all P xs \<Longrightarrow> list_all P (drop n xs)"
  by (auto simp: list_all_iff dest: in_set_dropD)

lemma lockstep_and_then [lockstep_intros]:
  assumes "lockstep m" and "\<And>x. lockstep (f x)"
  shows "lockstep (and_then m f)"
proof (rule lockstepI)
  fix c k rs
  assume env: "healthy k" "list_all frameable rs"
  obtain r qs cas where m: "exchange m c k rs r qs cas" by (rule lockstepE [OF assms(1) env])
  show "\<exists>res qs cas. exchange (and_then m f) c k rs res qs cas"
  proof (cases r)
    case (Inl e)
    with m show ?thesis by (blast intro: exchange_and_then_error)
  next
    case (Inr x)
    have "healthy (asked qs cas k)" "list_all frameable (drop (length qs) rs)"
      using env by (simp_all add: list_all_drop)
    then obtain res qs' cas' where
      "exchange (f x) c (asked qs cas k) (drop (length qs) rs) res qs' cas'"
      by (rule lockstepE [OF assms(2)])
    with m Inr show ?thesis by (blast intro: exchange_and_then)
  qed
qed

lemma lockstep_if [lockstep_intros]: "lockstep m \<Longrightarrow> lockstep m' \<Longrightarrow> lockstep (if b then m else m')"
  by simp

section \<open>One request\<close>

lemma facing_asked:
  "facing c (asked [q] cas k) as = c\<lparr>conn := Some ((exchanged q as k)\<lparr>conn_cas_info := cas\<rparr>)\<rparr>"
  by (simp add: facing_def asked_def exchanged_def)

text \<open>A builder of requests that carry the token they are given, and do not close a handle.\<close>

definition stamps :: "(cas_info \<Rightarrow> bytes) \<Rightarrow> bool" where
  "stamps req \<longleftrightarrow> (\<forall>cas. carries cas (req cas) \<and> \<not> closes_handle (req cas))"

lemma answers_taken: "answers cas r \<Longrightarrow> \<not> refusal r \<and> cas_bytes cas = take 4 r"
  by (auto simp: answers_def refusal_def be_word_be_bytes_width)

context response_parser begin

lemma exchange_answered:
  assumes "healthy k" and "frameable r" and "stamps req"
  shows "exchange (on_conn (request req parse)) c k (r # rs)
    (case parse r of Inl e \<Rightarrow> Inl (map_fault CE_Protocol e) | Inr (x, cas) \<Rightarrow> Inr x)
    [req (conn_cas_info k)]
    (case parse r of Inl e \<Rightarrow> conn_cas_info k | Inr (x, cas) \<Rightarrow> cas)"
    (is "exchange ?m c k _ ?res _ ?cas")
  unfolding exchange_def
proof (intro conjI allI impI)
  let ?q = "req (conn_cas_info k)"
  have q: "carries (conn_cas_info k) ?q" "\<not> closes_handle ?q" using assms(3) by (auto simp: stamps_def)
  show "list_all is_request [?q]" using carries_request [OF q(1)] by simp
  have "next_token (\<not> isl ?res) ?q r (conn_cas_info k) ?cas"
    using q(2) answers_taken [OF head] by (auto simp: next_token_def split: sum.splits)
  then show "stamped (\<not> isl ?res) (conn_cas_info k) [?q] (r # rs) ?cas" using q(1) by simp
  fix as
  have "request req parse (with_arrivals k (arrive (frame r) @ framed rs @ as)) =
      (case parse r of
         Inl e \<Rightarrow> (Inl (map_fault CE_Protocol e), exchanged ?q (framed rs @ as) k)
       | Inr (x, cas) \<Rightarrow> (Inr x, (exchanged ?q (framed rs @ as) k)\<lparr>conn_cas_info := cas\<rparr>))"
    using assms(1,2) request_frame [of "with_arrivals k (framed (r # rs) @ as)" r "framed rs @ as" req parse]
    by (simp add: healthy_def exchanged_def split: sum.split)
  then show "?m (facing c k (framed (r # rs) @ as)) =
      (?res, facing c (asked [?q] ?cas k) (framed (drop (length [?q]) (r # rs)) @ as))"
    by (auto simp: on_conn_def facing_asked split: sum.split) (simp_all add: facing_def exchanged_def)
qed

lemma exchange_unanswered:
  assumes "healthy k" and "stamps req"
  shows "exchange (on_conn (request req parse)) c k [] (Inl (Err (CE_Io Io_UnexpectedEof)))
      [req (conn_cas_info k)] (conn_cas_info k)"
proof -
  have "carries (conn_cas_info k) (req (conn_cas_info k))" using assms(2) by (simp add: stamps_def)
  with assms(1) request_eof [of "with_arrivals k []" req parse] show ?thesis
    by (simp add: exchange_def on_conn_def facing_asked healthy_def carries_request)
      (simp add: facing_def exchanged_def)
qed

lemma exchange_request:
  assumes "healthy k" and "list_all frameable rs" and "stamps req"
  shows "\<exists>res q cas. exchange (on_conn (request req parse)) c k rs res [q] cas
    \<and> (rs = [] \<longrightarrow> res = Inl (Err (CE_Io Io_UnexpectedEof)))"
  using exchange_unanswered [OF assms(1,3)] exchange_answered [OF assms(1) _ assms(3)] assms(2)
  by (cases rs) (simp_all, blast+)

end

lemma lockstep_request:
  assumes "\<And>c. m c = on_conn (request (req (client_auto_commit c)) (parse (client_proto_version c))) c"
    and "\<And>b. stamps (req b)" and "\<And>v. response_parser (parse v)"
  shows "lockstep m"
proof (rule lockstepI)
  fix c k rs
  assume "healthy k" "list_all frameable rs"
  from response_parser.exchange_request [where c = c, OF assms(3) [of "client_proto_version c"] this
      assms(2) [of "client_auto_commit c"]]
  have "\<exists>res qs cas. exchange (on_conn (request (req (client_auto_commit c)) (parse (client_proto_version c))))
    c k rs res qs cas" by blast
  then show "\<exists>res qs cas. exchange m c k rs res qs cas"
    by (subst exchange_cong [of m]) (simp add: assms(1))
qed

section \<open>The operations\<close>

lemma carries_build:
  "carries cas (build_request (fc # body) cas)"
  "closes_handle (build_request (fc # body) cas) \<longleftrightarrow> fc = function_code_u8 FC_CloseReqHandle"
  by (auto simp: carries_def closes_handle_def build_request_def build_header_def nth_append)

lemma requests_are_stamped [simp]:
  "stamps (write_prepare_and_execute sql ac)" "stamps (write_prepare sql ac)"
  "stamps (write_execute h st ps ac)" "stamps (write_fetch h n m)"
  "stamps (write_end_tran t)" "stamps (write_get_db_version ac)"
  "carries cas (write_close_req_handle h cas)" "closes_handle (write_close_req_handle h cas)"
  by (simp_all add: stamps_def write_prepare_and_execute_def write_prepare_def write_execute_def
      write_fetch_def write_close_req_handle_def write_end_tran_def write_get_db_version_def Let_def
      carries_build)

lemma close_request [simp]: "is_request (write_close_req_handle h cas)"
  by (rule carries_request) (rule requests_are_stamped)

lemma exchange_close_query_handle:
  assumes "healthy k" and "list_all frameable rs"
  shows "exchange (close_query_handle h) c k rs (Inr ())
    [write_close_req_handle h (conn_cas_info k)] (conn_cas_info k)"
proof (cases rs)
  case Nil
  have "close_query_handle h (facing c k []) =
      (Inr (), facing c (asked [write_close_req_handle h (conn_cas_info k)] (conn_cas_info k) k) [])"
    using assms(1)
    by (simp add: close_query_handle_def send_framed_healthy healthy_def recv_framed_eof facing_asked)
      (simp add: facing_def exchanged_def)
  then show ?thesis by (simp add: exchange_def Nil)
next
  case (Cons r rs')
  have "close_query_handle h (facing c k (framed rs @ as)) =
      (Inr (), facing c (asked [write_close_req_handle h (conn_cas_info k)] (conn_cas_info k) k)
        (framed rs' @ as))" for as
    using assms close_query_handle_frame [of "facing c k (framed rs @ as)" "with_arrivals k (framed rs @ as)"
        r "framed rs' @ as" h]
    by (simp add: Cons healthy_def facing_asked) (simp add: facing_def exchanged_def)
  then show ?thesis by (simp add: exchange_def Cons next_token_def)
qed

lemma lockstep_close_query_handle [lockstep_intros]: "lockstep (close_query_handle h)"
  by (blast intro: lockstepI exchange_close_query_handle)

lemmas parsers_have_heads [simp] =
  prepare_and_execute.response_parser_axioms prepare.response_parser_axioms
  execute.response_parser_axioms fetch.response_parser_axioms db_version.response_parser_axioms
  simple.response_parser_axioms

lemma lockstep_prepare_and_execute [lockstep_intros]: "lockstep (prepare_and_execute ff sql ps)"
  by (rule lockstep_request, rule prepare_and_execute_def) simp_all

lemma lockstep_end_tran [lockstep_intros]: "lockstep (end_tran t)"
  by (rule lockstep_request, simp only: end_tran_def) simp_all

lemma lockstep_ping [lockstep_intros]: "lockstep ping"
  by (rule lockstep_request, rule ping_def) simp_all

lemma lockstep_run_statement [lockstep_intros]: "lockstep (run_statement s ps)"
  by (rule lockstep_request, rule run_statement_def) simp_all

lemma lockstep_prepare [lockstep_intros]: "lockstep (prepare sql)"
proof -
  have "prepare sql = and_then
      (\<lambda>c. on_conn (request (write_prepare sql (client_auto_commit c)) parse_prepare) c)
      (\<lambda>result. ok \<lparr>stmt_query_handle = prep_query_handle result,
          stmt_statement_type = prep_statement_type result,
          stmt_bind_count = prep_bind_count result, stmt_columns = prep_columns result,
          stmt_closed = False, stmt_sql = sql\<rparr>)"
    by (rule ext) (simp add: prepare_def and_then_def)
  moreover have "lockstep (\<lambda>c. on_conn (request (write_prepare sql (client_auto_commit c)) parse_prepare) c)"
    by (rule lockstep_request, rule refl) simp_all
  ultimately show ?thesis by (simp add: lockstep_and_then lockstep_ok)
qed

text \<open>The loop of fetches.\<close>

lemma fetch_loop_steps:
  "fetch_loop h cols st t n rows =
     (if sint n < sint t
      then and_then (fetch_once h cols st n) (\<lambda>page.
        if fetch_tuple_count page = 0 then ok rows
        else fetch_loop h cols st t (n + fetch_tuple_count page) (rows @ fetch_rows page))
      else ok rows)"
  by (rule ext, subst fetch_loop.simps) (auto simp: and_then_def split: prod.splits sum.splits)

lemma exchange_ok: "\<exists>res qs cas. exchange (ok x) c k rs res qs cas"
  by (blast intro: exchange_none ok_apply)

lemma exchange_fetch_once:
  assumes "healthy k" and "list_all frameable rs"
  shows "\<exists>res q cas. exchange (fetch_once h cols st n) c k rs res [q] cas
    \<and> (rs = [] \<longrightarrow> res = Inl (Err (CE_Io Io_UnexpectedEof)))"
  unfolding fetch_once_def by (rule fetch.exchange_request [OF assms]) simp

lemma exchange_fetch_loop:
  assumes "healthy k" and "list_all frameable rs"
  shows "\<exists>res qs cas. exchange (fetch_loop h cols st t n rows) c k rs res qs cas"
  using assms
proof (induction rs arbitrary: n rows k)
  case Nil
  then obtain q cas where "exchange (fetch_once h cols st n) c k [] (Inl (Err (CE_Io Io_UnexpectedEof))) [q] cas"
    using exchange_fetch_once [OF Nil] by blast
  then show ?case
    by (subst fetch_loop_steps) (auto simp: exchange_ok dest: exchange_and_then_error)
next
  case (Cons r rs)
  then obtain res q cas where once: "exchange (fetch_once h cols st n) c k (r # rs) res [q] cas"
    using exchange_fetch_once [OF Cons.prems] by blast
  have next_page: "\<exists>res qs cas'. exchange (if fetch_tuple_count page = 0 then ok rows
      else fetch_loop h cols st t (n + fetch_tuple_count page) (rows @ fetch_rows page))
      c (asked [q] cas k) rs res qs cas'" for page
    using Cons by (simp add: exchange_ok)
  show ?case
  proof (cases "sint n < sint t")
    case False
    then show ?thesis by (subst fetch_loop_steps) (simp add: exchange_ok)
  next
    case True
    show ?thesis
    proof (cases res)
      case (Inl e)
      with True once show ?thesis by (subst fetch_loop_steps) (auto dest: exchange_and_then_error)
    next
      case (Inr page)
      from next_page obtain res' qs cas' where rest: "exchange (if fetch_tuple_count page = 0 then ok rows
          else fetch_loop h cols st t (n + fetch_tuple_count page) (rows @ fetch_rows page))
          c (asked [q] cas k) rs res' qs cas'" by blast
      show ?thesis
        by (subst fetch_loop_steps, unfold if_P [OF True], intro exI,
            rule exchange_and_then [OF once [unfolded Inr]]) (use rest in simp)
    qed
  qed
qed

lemma lockstep_fetch_remaining [lockstep_intros]: "lockstep (fetch_remaining h cols st t rows)"
  unfolding fetch_remaining_def by (blast intro: lockstepI exchange_fetch_loop)

lemma lockstep_execute [lockstep_intros]: "lockstep (execute ff sql ps)"
  unfolding execute_def by (intro lockstep_intros)

lemma lockstep_query [lockstep_intros]: "lockstep (query ff sql ps)"
  unfolding query_def Let_def by (intro lockstep_intros)

lemma lockstep_last_insert_id [lockstep_intros]: "lockstep (last_insert_id ff dbg)"
  unfolding last_insert_id_def
  by (intro lockstep_intros) (auto split: list.split intro: lockstep_intros)

lemma lockstep_statement_execute [lockstep_intros]: "lockstep (statement_execute ff s ps)"
  unfolding statement_execute_def by (intro lockstep_intros)

lemma lockstep_query_with [lockstep_intros]: "lockstep (query_with ff s ps)"
  unfolding query_with_def Let_def by (intro lockstep_intros)

section \<open>Sessions\<close>

text \<open>
  What a user can do with an open client, one call after another. The user goes on after an
  error; \<open>dbg\<close> is the \<open>Debug\<close> text of a value, as in \<open>last_insert_id\<close>.
\<close>

datatype operation =
    Do_Execute bytes "db_value list"
  | Do_Query bytes "db_value list"
  | Do_Prepare bytes
  | Do_Statement_Execute statement "db_value list"
  | Do_Query_With statement "db_value list"
  | Do_Statement_Close statement
  | Do_Commit
  | Do_Rollback
  | Do_Ping
  | Do_Last_Insert_Id
  | Do_Set_Auto_Commit bool

datatype answer = Affected u64 | Rows query_result | Prepared statement | Version bytes | Done

definition returns :: "('a \<Rightarrow> 'b) \<Rightarrow> ('s, 'e, 'a) action \<Rightarrow> ('s, 'e, 'b) action" where
  "returns f m = and_then m (\<lambda>x. ok (f x))"

fun perform :: "float_fmt \<Rightarrow> (db_value \<Rightarrow> bytes) \<Rightarrow> operation \<Rightarrow> answer client_action" where
  "perform ff dbg (Do_Execute sql ps) = returns Affected (execute ff sql ps)"
| "perform ff dbg (Do_Query sql ps) = returns Rows (query ff sql ps)"
| "perform ff dbg (Do_Prepare sql) = returns Prepared (prepare sql)"
| "perform ff dbg (Do_Statement_Execute s ps) = returns Affected (statement_execute ff s ps)"
| "perform ff dbg (Do_Query_With s ps) = returns Rows (query_with ff s ps)"
| "perform ff dbg (Do_Statement_Close s) =
     (\<lambda>c. case statement_close (s, c) of (res, (s', c')) \<Rightarrow> (map_sum id (\<lambda>_. Prepared s') res, c'))"
| "perform ff dbg Do_Commit = returns (\<lambda>_. Done) commit"
| "perform ff dbg Do_Rollback = returns (\<lambda>_. Done) rollback"
| "perform ff dbg Do_Ping = returns Version ping"
| "perform ff dbg Do_Last_Insert_Id = returns Version (last_insert_id ff dbg)"
| "perform ff dbg (Do_Set_Auto_Commit b) = (\<lambda>c. (Inr Done, set_auto_commit b c))"

primrec perform_all ::
  "float_fmt \<Rightarrow> (db_value \<Rightarrow> bytes) \<Rightarrow> operation list \<Rightarrow> client \<Rightarrow>
     (client_error, answer) outcome list \<times> client" where
  "perform_all ff dbg [] c = ([], c)"
| "perform_all ff dbg (op # ops) c =
     (case perform ff dbg op c of (res, c1) \<Rightarrow>
        case perform_all ff dbg ops c1 of (results, c2) \<Rightarrow> (res # results, c2))"

lemma lockstep_returns [lockstep_intros]: "lockstep m \<Longrightarrow> lockstep (returns f m)"
  unfolding returns_def by (intro lockstep_intros)

text \<open>Closing a statement never fails, whether or not it has a handle to close.\<close>

lemma close_query_handle_Inr: "close_query_handle h c = (res, c') \<Longrightarrow> res = Inr ()"
  by (auto simp: close_query_handle_def split: option.splits prod.splits sum.splits)

lemma lockstep_statement_close: "lockstep (perform ff dbg (Do_Statement_Close s))"
proof (cases "stmt_closed s \<or> sint (stmt_query_handle s) \<le> 0")
  case True
  then obtain s' where "perform ff dbg (Do_Statement_Close s) c = (Inr (Prepared s'), c)" for c
    by (cases "stmt_closed s") (simp_all add: statement_close_def Let_def not_less)
  then show ?thesis by (rule lockstep_pure)
next
  case False
  then have "perform ff dbg (Do_Statement_Close s) =
      returns (\<lambda>_. Prepared (s\<lparr>stmt_closed := True, stmt_query_handle := 0\<rparr>))
        (close_query_handle (stmt_query_handle s))"
    by (auto simp: fun_eq_iff statement_close_def Let_def returns_def and_then_def
        dest: close_query_handle_Inr split: prod.splits)
  then show ?thesis by (simp add: lockstep_returns lockstep_close_query_handle)
qed

lemma lockstep_perform:
  "\<nexists>b. op = Do_Set_Auto_Commit b \<Longrightarrow> lockstep (perform ff dbg op)"
  by (cases op)
    (simp_all only: perform.simps commit_def rollback_def, (intro lockstep_intros | rule lockstep_statement_close [simplified] | simp)+)

section \<open>The theorem\<close>

lemma perform_lockstep:
  assumes "healthy k" and "list_all frameable rs"
  shows "\<exists>res qs cas c'. list_all is_request qs \<and> stamped (\<not> isl res) (conn_cas_info k) qs rs cas
    \<and> (\<forall>as. length qs \<le> length rs \<or> as = [] \<longrightarrow>
         perform ff dbg op (facing c k (framed rs @ as)) =
           (res, facing c' (asked qs cas k) (framed (drop (length qs) rs) @ as)))"
proof (cases "\<exists>b. op = Do_Set_Auto_Commit b")
  case True
  then obtain b where "op = Do_Set_Auto_Commit b" by blast
  then show ?thesis
    by (intro exI [of _ "Inr Done"] exI [of _ "[]"] exI [of _ "conn_cas_info k"]
        exI [of _ "set_auto_commit b c"]) (simp add: set_auto_commit_def facing_def)
next
  case False
  then have "lockstep (perform ff dbg op)" by (blast intro: lockstep_perform)
  then show ?thesis by (rule lockstepE [OF _ assms]) (unfold exchange_def, blast)
qed

text \<open>A session is strict if none of its operations fails.\<close>

lemma perform_all_lockstep:
  assumes "healthy k" and "list_all frameable rs"
  shows "\<exists>results qs cas c'. length results = length ops \<and> list_all is_request qs
    \<and> stamped (list_all (\<lambda>res. \<not> isl res) results) (conn_cas_info k) qs rs cas
    \<and> (\<forall>as. length qs \<le> length rs \<or> as = [] \<longrightarrow>
         perform_all ff dbg ops (facing c k (framed rs @ as)) =
           (results, facing c' (asked qs cas k) (framed (drop (length qs) rs) @ as)))"
  using assms
proof (induction ops arbitrary: c k rs)
  case Nil
  show ?case by (intro exI [of _ "[]"] exI [of _ "conn_cas_info k"] exI [of _ c]) simp
next
  case (Cons op ops)
  obtain res qs cas c1 where 1: "list_all is_request qs"
    and s: "stamped (\<not> isl res) (conn_cas_info k) qs rs cas"
    and p: "\<And>as. length qs \<le> length rs \<or> as = [] \<Longrightarrow> perform ff dbg op (facing c k (framed rs @ as)) =
       (res, facing c1 (asked qs cas k) (framed (drop (length qs) rs) @ as))"
    using perform_lockstep [OF Cons.prems, of ff dbg op c] by blast
  have env: "healthy (asked qs cas k)" "list_all frameable (drop (length qs) rs)"
    using Cons.prems by (simp_all add: list_all_drop)
  obtain results qs' cas' c2 where 2: "length results = length ops" "list_all is_request qs'"
    and s': "stamped (list_all (\<lambda>res. \<not> isl res) results) cas qs' (drop (length qs) rs) cas'"
    and p': "\<And>as. length qs' \<le> length (drop (length qs) rs) \<or> as = [] \<Longrightarrow>
       perform_all ff dbg ops (facing c1 (asked qs cas k) (framed (drop (length qs) rs) @ as)) =
       (results, facing c2 (asked qs' cas' (asked qs cas k))
          (framed (drop (length qs') (drop (length qs) rs)) @ as))"
    using Cons.IH [OF env, of c1, unfolded asked_simps(2)] by blast
  have "perform_all ff dbg (op # ops) (facing c k (framed rs @ as)) =
      (res # results, facing c2 (asked (qs @ qs') cas' k) (framed (drop (length (qs @ qs')) rs) @ as))"
    if "length (qs @ qs') \<le> length rs \<or> as = []" for as
  proof -
    from that have "length qs \<le> length rs \<or> as = []"
      "length qs' \<le> length (drop (length qs) rs) \<or> as = []" by auto
    from p [OF this(1)] p' [OF this(2)] show ?thesis by (simp add: add.commute)
  qed
  moreover have "stamped (list_all (\<lambda>res. \<not> isl res) (res # results)) (conn_cas_info k) (qs @ qs') rs cas'"
    by (rule stamped_append) (rule stamped_weaken [OF s], simp, rule stamped_weaken [OF s'], simp)
  ultimately show ?case using 1 2
    by (intro exI [of _ "res # results"] exI [of _ "qs @ qs'"] exI [of _ cas'] exI [of _ c2]) simp
qed

text \<open>
  C5. The client stays in step with the server over a whole session. Take any sequence of
  operations on an open client (execute, query, prepare, statements, transactions, pings,
  changes of auto-commit), and any list of frames that the server answers with: results,
  server errors, or bytes that no parser accepts. Then the client writes whole requests, reads
  exactly one frame for each of them, and leaves the frames behind them untouched; if the
  frames run out, it has read them all. And if there are enough of them, nothing that arrives
  later, data or failure, changes any result or any request: no operation ever takes the
  response of another for its own.
\<close>

theorem session_in_step:
  assumes "healthy k" and "list_all frameable rs"
  shows "\<exists>results qs cas c'. length results = length ops \<and> list_all is_request qs
    \<and> perform_all ff dbg ops (facing c k (framed rs)) =
        (results, facing c' (asked qs cas k) (framed (drop (length qs) rs)))
    \<and> (length qs \<le> length rs \<longrightarrow> (\<forall>as. perform_all ff dbg ops (facing c k (framed rs @ as)) =
        (results, facing c' (asked qs cas k) (framed (drop (length qs) rs) @ as))))"
  using perform_all_lockstep [OF assms, of ops ff dbg c] by (metis append_Nil2)

theorem session_in_step_witness:
  "\<exists>results qs cas c'. length results = length [Do_Execute [63] [], Do_Ping] \<and> list_all is_request qs
    \<and> perform_all demo_ff (\<lambda>_. []) [Do_Execute [63] [], Do_Ping]
          (facing (demo_client []) (demo_conn []) (framed [demo_error, demo_error])) =
        (results, facing c' (asked qs cas (demo_conn [])) (framed (drop (length qs) [demo_error, demo_error])))
    \<and> (length qs \<le> length [demo_error, demo_error] \<longrightarrow>
        (\<forall>as. perform_all demo_ff (\<lambda>_. []) [Do_Execute [63] [], Do_Ping]
            (facing (demo_client []) (demo_conn []) (framed [demo_error, demo_error] @ as)) =
          (results, facing c' (asked qs cas (demo_conn []))
             (framed (drop (length qs) [demo_error, demo_error]) @ as))))"
  by (rule session_in_step) (use demo_error_ok in simp_all)

text \<open>
  C29. The token of every request of a session. Take any operations and any frames that the
  server answers with, as for staying in step. The first request carries the token that the
  connection was opened with. A response that is an error (its status is negative) and the
  response to closing a handle (FC=6) leave the client's token as it is, whatever token they
  hold; every other response replaces it with its first four bytes, if no operation of the
  session fails, and if some fail it either does or leaves the token. Each request carries the
  token that the client has then, and the last token is the client's. (The protocol notes,
  section 16.1, say that the token of the server response must be stored and sent with every
  subsequent request. The client does not do that for errors and for FC=6: after a statement
  that the server refuses, the rollback carries the token from before.)
\<close>

theorem request_tokens:
  assumes "healthy k" and "list_all frameable rs"
  shows "\<exists>results qs cas c'. perform_all ff dbg ops (facing c k (framed rs)) =
        (results, facing c' (asked qs cas k) (framed (drop (length qs) rs)))
    \<and> stamped (list_all (\<lambda>res. \<not> isl res) results) (conn_cas_info k) qs rs cas"
  using perform_all_lockstep [OF assms, of ops ff dbg c] by (metis append_Nil2)

theorem request_tokens_witness:
  "\<exists>results qs cas c'. perform_all demo_ff (\<lambda>_. []) [Do_Execute [63] [], Do_Rollback]
          (facing (demo_client []) (demo_conn []) (framed [demo_error, demo_error])) =
        (results, facing c' (asked qs cas (demo_conn [])) (framed (drop (length qs) [demo_error, demo_error])))
    \<and> stamped (list_all (\<lambda>res. \<not> isl res) results) (conn_cas_info (demo_conn [])) qs
        [demo_error, demo_error] cas"
  by (rule request_tokens) (use demo_error_ok in simp_all)

end
