(* ===== verification/Wire_Requests.thy ===== *)
theory Wire_Requests
  imports Handshake
begin

text \<open>
  The requests as values: what a server reads in the frames that the builders of
  \<open>request.rs\<close> and \<open>handshake.rs\<close> write. \<open>decode_request\<close> is defined on bytes alone, from the
  argument lists in the comments of the builders; every builder is an encoder for it.
\<close>

section \<open>Requests and their decoding\<close>

datatype db_request =
    Req_Prepare_And_Execute bytes bool
  | Req_Prepare bytes bool
  | Req_Execute i32 bool "bytes list" bool
  | Req_Fetch i32 i32 i32
  | Req_Close i32
  | Req_Last_Insert_Id
  | Req_Db_Version bool
  | Req_End_Tran transaction_type
  | Req_Con_Close

text \<open>
  One argument: an integer, a flag, a text with its terminating zero, the kind of a transaction
  end. An argument of another length, another flag or another kind is refused.
\<close>

definition int_arg :: "bytes \<Rightarrow> i32 option" where
  "int_arg a = (if length a = 4 then Some (be_word a) else None)"

definition flag_arg :: "bytes \<Rightarrow> bool option" where
  "flag_arg a = (if a = [1] then Some True else if a = [0] then Some False else None)"

definition text_arg :: "bytes \<Rightarrow> bytes option" where
  "text_arg a = (if a \<noteq> [] \<and> last a = 0 then Some (butlast a) else None)"

definition tran_arg :: "bytes \<Rightarrow> transaction_type option" where
  "tran_arg a = (if a = [1] then Some Commit else if a = [2] then Some Rollback else None)"

text \<open>The arguments that every client of this protocol version sends alike are checked too.\<close>

definition zero_int :: bytes where
  "zero_int = be_bytes 4 (0 :: i32)"

definition decode_args :: "u8 \<Rightarrow> bytes list \<Rightarrow> db_request option" where
  "decode_args fc args =
     (if fc = 41 then
        (case args of [n, sql, prep, ac, flag, cols, rws, binds, cache, tmo] \<Rightarrow>
           if n = be_bytes 4 (3 :: i32) \<and> prep = [0] \<and> flag = [2] \<and> cols = zero_int \<and> rws = zero_int
              \<and> binds = [] \<and> cache = zero_int @ zero_int \<and> tmo = zero_int
           then Option.bind (text_arg sql) (\<lambda>sql.
                map_option (Req_Prepare_And_Execute sql) (flag_arg ac))
           else None
         | _ \<Rightarrow> None)
      else if fc = 2 then
        (case args of [sql, prep, ac] \<Rightarrow>
           if prep = [0]
           then Option.bind (text_arg sql) (\<lambda>sql. map_option (Req_Prepare sql) (flag_arg ac))
           else None
         | _ \<Rightarrow> None)
      else if fc = 3 then
        (case args of [h, flag, cols, rws, binds, fetch, ac, fwd, cache, tmo] \<Rightarrow>
           if flag = [0] \<and> cols = zero_int \<and> rws = zero_int \<and> fwd = [1]
              \<and> cache = zero_int @ zero_int \<and> tmo = zero_int
           then Option.bind (int_arg h) (\<lambda>h. Option.bind (flag_arg fetch) (\<lambda>fetch.
                Option.bind (args_of binds) (\<lambda>ps. map_option (Req_Execute h fetch ps) (flag_arg ac))))
           else None
         | _ \<Rightarrow> None)
      else if fc = 8 then
        (case args of [h, pos, n, sens, idx] \<Rightarrow>
           if sens = [0] \<and> idx = zero_int
           then Option.bind (int_arg h) (\<lambda>h. Option.bind (int_arg pos) (\<lambda>pos.
                map_option (Req_Fetch h pos) (int_arg n)))
           else None
         | _ \<Rightarrow> None)
      else if fc = 6 then
        (case args of [h] \<Rightarrow> map_option Req_Close (int_arg h) | _ \<Rightarrow> None)
      else if fc = 40 then (if args = [] then Some Req_Last_Insert_Id else None)
      else if fc = 15 then
        (case args of [ac] \<Rightarrow> map_option Req_Db_Version (flag_arg ac) | _ \<Rightarrow> None)
      else if fc = 1 then
        (case args of [t] \<Rightarrow> map_option Req_End_Tran (tran_arg t) | _ \<Rightarrow> None)
      else if fc = 31 then (if args = [] then Some Req_Con_Close else None)
      else None)"

definition decode_request :: "bytes \<Rightarrow> (cas_info \<times> db_request) option" where
  "decode_request q =
     (case request_of q of
        None \<Rightarrow> None
      | Some (cas, fc, args) \<Rightarrow> map_option (Pair cas) (decode_args fc args))"

section \<open>The builders are encoders\<close>

lemma arg_simps [simp]:
  "int_arg (be_bytes 4 h) = Some h" "flag_arg [bool_byte b] = Some b"
  "text_arg (s @ [0]) = Some s" "tran_arg [transaction_type_u8 t] = Some t"
  by (cases t; simp add: int_arg_def flag_arg_def bool_byte_def text_arg_def tran_arg_def
      be_word_be_bytes_width)+

lemma handshake_request_args:
  "request_of (write_end_tran t cas) = Some (cas, 1, [[transaction_type_u8 t]])"
  "request_of (write_get_db_version ac cas) = Some (cas, 15, [[bool_byte ac]])"
  "request_of (write_con_close cas) = Some (cas, 31, [])"
  by (simp_all add: write_end_tran_def write_get_db_version_def write_con_close_def request_simps
      bool_byte_def)

text \<open>Decoding what each builder writes.\<close>

lemma decode_statement_requests:
  "length sql < 2 ^ 31 - 1 \<Longrightarrow>
     decode_request (write_prepare_and_execute sql ac cas) = Some (cas, Req_Prepare_And_Execute sql ac)"
  "length sql < 2 ^ 31 - 1 \<Longrightarrow>
     decode_request (write_prepare sql ac cas) = Some (cas, Req_Prepare sql ac)"
  "length (encode_bind_params ps) < 2 ^ 31 \<Longrightarrow>
     decode_request (write_execute h st ps ac cas) =
       Some (cas, Req_Execute h (st = ST_Select) (map param_arg ps) ac)"
  using prepare_and_execute_request [of sql ac cas] statement_requests [of sql ac cas]
    execute_request [of ps h st ac cas]
  by (simp_all add: decode_request_def decode_args_def zero_int_def)

lemma decode_short_requests [simp]:
  "decode_request (write_fetch h current n cas) = Some (cas, Req_Fetch h (current + 1) n)"
  "decode_request (write_close_req_handle h cas) = Some (cas, Req_Close h)"
  "decode_request (write_get_last_insert_id cas) = Some (cas, Req_Last_Insert_Id)"
  "decode_request (write_get_db_version ac cas) = Some (cas, Req_Db_Version ac)"
  "decode_request (write_end_tran t cas) = Some (cas, Req_End_Tran t)"
  "decode_request (write_con_close cas) = Some (cas, Req_Con_Close)"
  using statement_requests [of "[]"]
  by (simp_all add: decode_request_def decode_args_def handshake_request_args zero_int_def)

text \<open>
  C17. Every request of the driver means what it was built from. A server that splits a frame
  into token, function code and length-prefixed arguments, and checks the constant ones,
  reads back from each of the nine builders the token and the data it was given: the
  SQL text, the auto-commit flag, the handle, the position (one past the rows already received)
  and the size of a fetch, one entry per bind parameter, and whether a transaction is to be
  committed (argument 1) or rolled back (argument 2). Of the type of a statement, an execute
  request keeps whether it is a SELECT. This holds for SQL texts below \<open>2 ^ 31 - 1\<close> bytes and
  for encoded parameters below \<open>2 ^ 31\<close> bytes in all, whose lengths fit the length field.
  (Section 5 of the protocol notes has 0 and 1 for commit and rollback.)
\<close>

theorem requests_decode:
  assumes "length sql < 2 ^ 31 - 1" and "length (encode_bind_params ps) < 2 ^ 31"
  shows "decode_request (write_prepare_and_execute sql ac cas) =
      Some (cas, Req_Prepare_And_Execute sql ac)
    \<and> decode_request (write_prepare sql ac cas) = Some (cas, Req_Prepare sql ac)
    \<and> decode_request (write_execute h st ps ac cas) =
        Some (cas, Req_Execute h (st = ST_Select) (map param_arg ps) ac)
    \<and> decode_request (write_fetch h current n cas) = Some (cas, Req_Fetch h (current + 1) n)
    \<and> decode_request (write_close_req_handle h cas) = Some (cas, Req_Close h)
    \<and> decode_request (write_get_last_insert_id cas) = Some (cas, Req_Last_Insert_Id)
    \<and> decode_request (write_get_db_version ac cas) = Some (cas, Req_Db_Version ac)
    \<and> decode_request (write_end_tran t cas) = Some (cas, Req_End_Tran t)
    \<and> decode_request (write_con_close cas) = Some (cas, Req_Con_Close)"
  using assms by (simp add: decode_statement_requests)

theorem requests_decode_witness:
  "decode_request (write_prepare_and_execute (bytes_of ''SELECT 1'') True (CAS 1 2 3 4)) =
      Some (CAS 1 2 3 4, Req_Prepare_And_Execute (bytes_of ''SELECT 1'') True)
    \<and> decode_request (write_prepare (bytes_of ''SELECT 1'') True (CAS 1 2 3 4)) =
        Some (CAS 1 2 3 4, Req_Prepare (bytes_of ''SELECT 1'') True)
    \<and> decode_request (write_execute 7 ST_Insert [V_Int 5, V_Null] True (CAS 1 2 3 4)) =
        Some (CAS 1 2 3 4, Req_Execute 7 (ST_Insert = ST_Select) (map param_arg [V_Int 5, V_Null]) True)
    \<and> decode_request (write_fetch 7 100 100 (CAS 1 2 3 4)) =
        Some (CAS 1 2 3 4, Req_Fetch 7 (100 + 1) 100)
    \<and> decode_request (write_close_req_handle 7 (CAS 1 2 3 4)) = Some (CAS 1 2 3 4, Req_Close 7)
    \<and> decode_request (write_get_last_insert_id (CAS 1 2 3 4)) = Some (CAS 1 2 3 4, Req_Last_Insert_Id)
    \<and> decode_request (write_get_db_version True (CAS 1 2 3 4)) = Some (CAS 1 2 3 4, Req_Db_Version True)
    \<and> decode_request (write_end_tran Commit (CAS 1 2 3 4)) =
        Some (CAS 1 2 3 4, Req_End_Tran Commit)
    \<and> decode_request (write_con_close (CAS 1 2 3 4)) = Some (CAS 1 2 3 4, Req_Con_Close)"
  by (rule requests_decode) (simp_all add: encode_bind_params_concat)

end
