(* ===== verification/Reference_Server.thy ===== *)
theory Reference_Server
  imports Wire_Requests Response_Format
begin

text \<open>
  A reference server for the driver: the counterpart of its requests for direct statements
  (FC=41, FC=8, FC=6), transaction ends (FC=1) and the version (FC=15). It is no model of code:
  the database behind it is a parameter, and the server only decodes requests, keeps cursors
  and the session token, and formats responses. The formats are those that the comments of the
  request builders and of the response parsers give (\<open>request.rs\<close>, \<open>response.rs\<close>); the protocol
  notes differ from them in places. The specification of the client is stated against
  it: what a statement means is the \<open>verdict\<close> that the database gives it.
\<close>

section \<open>Databases\<close>

datatype effect =
    Selected "column_metadata list" "wire_row list"
  | Changed statement_type i32 "result_info list"

text \<open>A statement fails with a code and a message, or has an effect.\<close>

type_synonym verdict = "i32 \<times> bytes + effect"

text \<open>
  The database: the verdict on a statement (with the auto-commit flag it is sent with), the end
  of a transaction, the version text, how many rows the server puts in one response, and how
  it changes the token with a response that the client takes the token from (\<open>renew\<close>) and with
  the other ones, that is errors and the responses to FC=6 (\<open>renew_silently\<close>).
\<close>

record 'd database =
  run_sql :: "bool \<Rightarrow> bytes \<Rightarrow> 'd \<Rightarrow> verdict \<times> 'd"
  finish_tran :: "transaction_type \<Rightarrow> 'd \<Rightarrow> 'd"
  product :: bytes
  page_size :: nat
  renew :: "cas_info \<Rightarrow> cas_info"
  renew_silently :: "cas_info \<Rightarrow> cas_info"

section \<open>Cursors\<close>

text \<open>A cursor holds its columns and all its rows; its handle is its slot, counted from one.\<close>

type_synonym cursor = "column_metadata list \<times> wire_row list"

definition open_cursor :: "cursor \<Rightarrow> cursor option list \<Rightarrow> i32 \<times> cursor option list" where
  "open_cursor cur cs =
     (let i = length (takeWhile (\<lambda>x. x \<noteq> None) cs)
      in (usize_as_i32 (Suc i), if i < length cs then cs[i := Some cur] else cs @ [Some cur]))"

definition cursor_of :: "i32 \<Rightarrow> cursor option list \<Rightarrow> cursor option" where
  "cursor_of h cs =
     (let i = nat (sint h) - 1 in if 0 < sint h \<and> i < length cs then cs ! i else None)"

definition close_cursor :: "i32 \<Rightarrow> cursor option list \<Rightarrow> cursor option list" where
  "close_cursor h cs = cs[nat (sint h) - 1 := None]"

section \<open>Responses\<close>

record 'd server =
  contents :: 'd
  cursors :: "cursor option list"
  token :: cas_info

definition blank :: unread where
  "blank = \<lparr>u_lifetime = 0, u_updatable = 0, u_reusable = 0, u_marker = None, u_pad = (0, 0, 0),
     u_cache_sec = 0, u_cache_usec = 0, u_column_info = 0, u_shard = 0, u_fetch_code = 0\<rparr>"

definition select_info :: "wire_row list \<Rightarrow> result_info" where
  "select_info ws = \<lparr>stmt_type = ST_Select, result_count = usize_as_i32 (length ws), oid = replicate 8 0\<rparr>"

text \<open>The first response to a statement: a result set with its first page, or a count.\<close>

fun statement_result :: "nat \<Rightarrow> i32 \<Rightarrow> effect \<Rightarrow> prepare_and_execute_result" where
  "statement_result n h (Selected cols ws) =
     \<lparr>pae_query_handle = h, pae_statement_type = ST_Select, pae_bind_count = 0, pae_columns = cols,
      pae_total_tuple_count = usize_as_i32 (length ws), pae_result_infos = [select_info ws],
      pae_tuple_count = usize_as_i32 (length (take n ws)), pae_rows = map row_values (take n ws)\<rparr>"
| "statement_result n h (Changed st count infos) =
     \<lparr>pae_query_handle = h, pae_statement_type = st, pae_bind_count = 0, pae_columns = [],
      pae_total_tuple_count = count, pae_result_infos = infos, pae_tuple_count = 0, pae_rows = []\<rparr>"

fun first_page :: "nat \<Rightarrow> effect \<Rightarrow> wire_row list" where
  "first_page n (Selected cols ws) = take n ws"
| "first_page n (Changed st count infos) = []"

definition statement_response :: "nat \<Rightarrow> i32 \<Rightarrow> cas_info \<Rightarrow> i32 \<Rightarrow> effect \<Rightarrow> bytes" where
  "statement_response n v t h eff =
     enc_prepare_and_execute blank v t (statement_result n h eff) (first_page n eff)"

fun cursor_for :: "effect \<Rightarrow> cursor" where
  "cursor_for (Selected cols ws) = (cols, ws)"
| "cursor_for (Changed st count infos) = ([], [])"

definition simple_body :: "cas_info \<Rightarrow> bytes" where
  "simple_body t = cas_bytes t @ be_bytes 4 (0 :: i32)"

section \<open>Serving\<close>

definition refuse :: "'d database \<Rightarrow> 'd server \<Rightarrow> i32 \<Rightarrow> bytes \<Rightarrow> bytes \<times> 'd server" where
  "refuse db srv code message =
     (let t = renew_silently db (token srv)
      in (error_body t (- 1) code message 1, srv\<lparr>token := t\<rparr>))"

definition run_statement_request ::
  "'d database \<Rightarrow> i32 \<Rightarrow> bytes \<Rightarrow> bool \<Rightarrow> 'd server \<Rightarrow> bytes \<times> 'd server" where
  "run_statement_request db v sql ac srv =
     (case run_sql db ac sql (contents srv) of (verdict, d) \<Rightarrow>
        case verdict of
          Inl (code, message) \<Rightarrow> refuse db (srv\<lparr>contents := d\<rparr>) code message
        | Inr eff \<Rightarrow>
            (case open_cursor (cursor_for eff) (cursors srv) of (h, cs) \<Rightarrow>
               let t = renew db (token srv)
               in (statement_response (page_size db) v t h eff,
                   srv\<lparr>contents := d, cursors := cs, token := t\<rparr>)))"

definition fetch_request ::
  "'d database \<Rightarrow> i32 \<Rightarrow> i32 \<Rightarrow> i32 \<Rightarrow> 'd server \<Rightarrow> bytes \<times> 'd server" where
  "fetch_request db h pos n srv =
     (case cursor_of h (cursors srv) of
        None \<Rightarrow> refuse db srv (- 1) []
      | Some (cols, ws) \<Rightarrow>
          let t = renew db (token srv);
              page = take (min (nat (sint n)) (page_size db)) (drop (nat (sint pos) - 1) ws)
          in (enc_fetch t 0 cols ST_Select page, srv\<lparr>token := t\<rparr>))"

definition respond :: "'d database \<Rightarrow> i32 \<Rightarrow> db_request \<Rightarrow> 'd server \<Rightarrow> bytes \<times> 'd server" where
  "respond db v r srv =
     (case r of
        Req_Prepare_And_Execute sql ac \<Rightarrow> run_statement_request db v sql ac srv
      | Req_Fetch h pos n \<Rightarrow> fetch_request db h pos n srv
      | Req_Close h \<Rightarrow>
          let t = renew_silently db (token srv)
          in (simple_body t, srv\<lparr>cursors := close_cursor h (cursors srv), token := t\<rparr>)
      | Req_End_Tran b \<Rightarrow>
          let t = renew db (token srv)
          in (simple_body t, srv\<lparr>contents := finish_tran db b (contents srv), token := t\<rparr>)
      | Req_Db_Version ac \<Rightarrow>
          let t = renew db (token srv)
          in (simple_body t @ product db @ [0], srv\<lparr>token := t\<rparr>)
      | _ \<Rightarrow> refuse db srv (- 1) [])"

text \<open>
  A frame that is no request, or has another token than the last one, is dropped without an
  answer. The server speaks the version \<open>v\<close> of the protocol.
\<close>

definition serve_one :: "'d database \<Rightarrow> i32 \<Rightarrow> bytes \<Rightarrow> 'd server \<Rightarrow> (bytes \<times> 'd server) option" where
  "serve_one db v q srv =
     (case decode_request q of
        None \<Rightarrow> None
      | Some (cas, r) \<Rightarrow> if cas = token srv then Some (respond db v r srv) else None)"

primrec serve :: "'d database \<Rightarrow> i32 \<Rightarrow> bytes list \<Rightarrow> 'd server \<Rightarrow> (bytes list \<times> 'd server) option" where
  "serve db v [] srv = Some ([], srv)"
| "serve db v (q # qs) srv =
     Option.bind (serve_one db v q srv) (\<lambda>(r, srv1).
     map_option (\<lambda>(rs, srv2). (r # rs, srv2)) (serve db v qs srv1))"

lemma serve_append:
  "serve db v qs srv = Some (rs, srv1) \<Longrightarrow> serve db v qs' srv1 = Some (rs', srv2) \<Longrightarrow>
     serve db v (qs @ qs') srv = Some (rs @ rs', srv2)"
  by (induction qs arbitrary: srv rs) (auto split: bind_splits)

lemma serve_length: "serve db v qs srv = Some (rs, srv') \<Longrightarrow> length rs = length qs"
  by (induction qs arbitrary: srv rs) (auto split: bind_splits)

section \<open>Well-formed databases\<close>

text \<open>
  What the wire format can carry: texts are UTF-8, cells fit their columns, counts fit their
  fields, and a page of rows fits a frame.
\<close>

fun effect_ok :: "nat \<Rightarrow> effect \<Rightarrow> bool" where
  "effect_ok n (Selected cols ws) \<longleftrightarrow> cols \<noteq> [] \<and> columns_ok cols \<and> rows_ok cols ST_Select ws
     \<and> length (concat (map (enc_column None (0, 0, 0)) cols)) < 2 ^ 30
     \<and> list_all (\<lambda>w. length (enc_row False cols w) * n < 2 ^ 30) ws"
| "effect_ok n (Changed st count infos) \<longleftrightarrow> st \<noteq> ST_Select \<and> list_all result_info_ok infos
     \<and> length infos < 2 ^ 25"

definition verdict_ok :: "nat \<Rightarrow> verdict \<Rightarrow> bool" where
  "verdict_ok n verdict \<longleftrightarrow>
     (case verdict of
        Inl (code, message) \<Rightarrow> wf_str message \<and> length message < 2 ^ 30
      | Inr eff \<Rightarrow> effect_ok n eff)"

definition database_ok :: "'d database \<Rightarrow> bool" where
  "database_ok db \<longleftrightarrow> 0 < page_size db \<and> string_ok (product db)
     \<and> (\<forall>ac sql d. verdict_ok (page_size db) (fst (run_sql db ac sql d)))"

text \<open>The server between statements: no cursor is open.\<close>

definition idle_server :: "'d server \<Rightarrow> bool" where
  "idle_server srv \<longleftrightarrow> list_all (\<lambda>x. x = None) (cursors srv)"

section \<open>Facts on cursors and frames\<close>

lemma open_cursor_idle:
  assumes "list_all (\<lambda>x. x = None) cs" and "open_cursor cur cs = (h, cs')"
  shows "h = 1" "cursor_of h cs' = Some cur" "list_all (\<lambda>x. x = None) (close_cursor h cs')"
proof -
  have "takeWhile (\<lambda>x. x \<noteq> None) cs = []" using assms(1) by (cases cs) auto
  with assms(2) have h: "h = 1" and cs': "cs' = (if 0 < length cs then cs[0 := Some cur] else cs @ [Some cur])"
    by (auto simp: open_cursor_def usize_as_i32_def)
  show "h = 1" by (rule h)
  show "cursor_of h cs' = Some cur" by (auto simp: h cs' cursor_of_def)
  show "list_all (\<lambda>x. x = None) (close_cursor h cs')"
    using assms(1) by (cases cs) (auto simp: h cs' close_cursor_def)
qed

text \<open>A page fits a frame.\<close>

lemma length_concat_page:
  assumes "list_all (\<lambda>w. length (f w) * n < N) ws" and "length ws \<le> n" and "0 < N"
  shows "length (concat (map f ws)) < (N :: nat)"
proof (cases "ws = []")
  case True
  with assms(3) show ?thesis by simp
next
  case False
  define m where "m = Max (set (map (length \<circ> f) ws))"
  have mem: "m \<in> set (map (length \<circ> f) ws)" unfolding m_def using False by (intro Max_in) auto
  then obtain w where w: "w \<in> set ws" "m = length (f w)" by auto
  have "length (concat (map f ws)) \<le> length ws * m"
  proof -
    have "\<forall>w \<in> set ws. length (f w) \<le> m" unfolding m_def by auto
    then show ?thesis by (induction ws) auto
  qed
  also have "\<dots> \<le> n * m" using assms(2) by simp
  also have "\<dots> < N" using assms(1) w by (auto simp: list_all_iff mult.commute)
  finally show ?thesis .
qed

end
