(* ===== verification/Database_Laws.thy ===== *)
theory Database_Laws
  imports Reference_Server Lockstep
begin

text \<open>
  The client against the reference server: conversations between the two and how they compose,
  and what each operation on direct statements comes to. A statement has the outcome that the
  database gives it, however the server pages the rows, and leaves no cursor open.
\<close>

section \<open>Conversations\<close>

text \<open>
  The operation \<open>m\<close> of the client \<open>c\<close> has the outcome \<open>res\<close> in a conversation that takes the
  server from \<open>srv\<close> to \<open>srv'\<close>: on any healthy connection that holds the server's token, with
  the server's answers arriving, the client sends the requests that the server answers so, and
  ends with the server's token.
\<close>

definition converse ::
  "'d database \<Rightarrow> 'a client_action \<Rightarrow> client \<Rightarrow> 'd server \<Rightarrow> (client_error, 'a) outcome \<Rightarrow> 'd server \<Rightarrow> bool"
  where
  "converse db m c srv res srv' \<longleftrightarrow> (\<exists>qs rs.
     serve db (client_proto_version c) qs srv = Some (rs, srv') \<and> list_all frameable rs
     \<and> (\<forall>k. healthy k \<longrightarrow> conn_cas_info k = token srv \<longrightarrow> exchange m c k rs res qs (token srv')))"

lemma framed_append: "framed (xs @ ys) = framed xs @ framed ys"
  by (simp add: framed_def)

lemma stamped_more:
  "stamped b cas qs rs cas' \<Longrightarrow> length qs \<le> length rs \<Longrightarrow> stamped b cas qs (rs @ rs') cas'"
  by (induction qs arbitrary: cas rs) (auto split: list.splits)

lemma exchange_more:
  assumes "exchange m c k rs res qs cas" and "length qs \<le> length rs"
  shows "exchange m c k (rs @ rs') res qs cas"
  using assms by (simp add: exchange_def framed_append stamped_more)

lemma converse_and_then:
  assumes m: "converse db m c srv (Inr x) srv1" and f: "converse db (f x) c srv1 res srv2"
  shows "converse db (and_then m f) c srv res srv2"
proof -
  let ?v = "client_proto_version c"
  obtain qs rs where 1: "serve db ?v qs srv = Some (rs, srv1)" "list_all frameable rs"
    and e1: "\<And>k. healthy k \<Longrightarrow> conn_cas_info k = token srv \<Longrightarrow> exchange m c k rs (Inr x) qs (token srv1)"
    using m unfolding converse_def by blast
  obtain qs' rs' where 2: "serve db ?v qs' srv1 = Some (rs', srv2)" "list_all frameable rs'"
    and e2: "\<And>k. healthy k \<Longrightarrow> conn_cas_info k = token srv1 \<Longrightarrow> exchange (f x) c k rs' res qs' (token srv2)"
    using f unfolding converse_def by blast
  have len: "length rs = length qs" using serve_length [OF 1(1)] .
  have "exchange (and_then m f) c k (rs @ rs') res (qs @ qs') (token srv2)"
    if "healthy k" "conn_cas_info k = token srv" for k
  proof (rule exchange_and_then)
    show "exchange m c k (rs @ rs') (Inr x) qs (token srv1)"
      by (rule exchange_more [OF e1 [OF that]]) (simp add: len)
    show "exchange (f x) c (asked qs (token srv1) k) (drop (length qs) (rs @ rs')) res qs' (token srv2)"
      using e2 [of "asked qs (token srv1) k"] that by (simp add: len [symmetric])
  qed
  moreover have "serve db ?v (qs @ qs') srv = Some (rs @ rs', srv2)"
    by (rule serve_append [OF 1(1) 2(1)])
  ultimately show ?thesis unfolding converse_def using 1(2) 2(2) by fastforce
qed

lemma converse_and_then_error:
  "converse db m c srv (Inl e) srv1 \<Longrightarrow> converse db (and_then m f) c srv (Inl e) srv1"
  unfolding converse_def by (meson exchange_and_then_error)

lemma converse_ok: "converse db (ok x) c srv (Inr x) srv"
proof -
  have "exchange (ok x) c k [] (Inr x) [] (conn_cas_info k)" for k
    by (rule exchange_none) (rule ok_apply)
  then show ?thesis
    unfolding converse_def by (intro exI [of _ "[]"]) (auto dest: sym)
qed

lemma converse_last: "converse db m c srv (Inr x) srv1 \<Longrightarrow> converse db (and_then m (\<lambda>x. ok (f x))) c srv (Inr (f x)) srv1"
  by (rule converse_and_then [OF _ converse_ok])

lemma converse_returns: "converse db m c srv res srv1 \<Longrightarrow> converse db (returns f m) c srv (map_sum id f res) srv1"
  unfolding returns_def by (cases res) (simp_all add: converse_last converse_and_then_error)

section \<open>One request\<close>

lemma converse_request:
  assumes "serve_one db (client_proto_version c) (req (token srv)) srv = Some (r, srv')"
    and "frameable r" and "stamps req" and parser: "response_parser parse" and "parse r = Inr (x, token srv')"
  shows "converse db (on_conn (request req parse)) c srv (Inr x) srv'"
  unfolding converse_def
proof (intro exI conjI allI impI)
  show "serve db (client_proto_version c) [req (token srv)] srv = Some ([r], srv')"
    by (simp add: assms(1))
  show "list_all frameable [r]" by (simp add: assms(2))
  fix k assume "healthy k" "conn_cas_info k = token srv"
  with response_parser.exchange_answered [OF parser, of k r req c "[]"] assms
  show "exchange (on_conn (request req parse)) c k [r] (Inr x) [req (token srv)] (token srv')" by simp
qed

lemma converse_refused:
  assumes "serve_one db (client_proto_version c) (req (token srv)) srv = Some (r, srv')"
    and "frameable r" and "stamps req" and parser: "response_parser parse" and "parse r = Inl e"
    and "token srv' = token srv"
  shows "converse db (on_conn (request req parse)) c srv (Inl (map_fault CE_Protocol e)) srv'"
  unfolding converse_def
proof (intro exI conjI allI impI)
  show "serve db (client_proto_version c) [req (token srv)] srv = Some ([r], srv')"
    by (simp add: assms(1))
  show "list_all frameable [r]" by (simp add: assms(2))
  fix k assume "healthy k" "conn_cas_info k = token srv"
  with response_parser.exchange_answered [OF parser, of k r req c "[]"] assms
  show "exchange (on_conn (request req parse)) c k [r] (Inl (map_fault CE_Protocol e))
      [req (token srv)] (token srv')" by simp
qed

lemma frameable_simple: "frameable (simple_body t)"
  by (simp add: frameable_def simple_body_def)

lemma converse_close:
  assumes "\<And>t. renew_silently db t = t"
  shows "converse db (close_query_handle h) c srv (Inr ())
    (srv\<lparr>cursors := close_cursor h (cursors srv)\<rparr>)"
  unfolding converse_def
proof (intro exI conjI allI impI)
  show "serve db (client_proto_version c) [write_close_req_handle h (token srv)] srv =
      Some ([simple_body (token srv)], srv\<lparr>cursors := close_cursor h (cursors srv)\<rparr>)"
    by (simp add: serve_one_def respond_def Let_def assms)
  show "list_all frameable [simple_body (token srv)]" by (simp add: frameable_simple)
  fix k assume "healthy k" "conn_cas_info k = token srv"
  with exchange_close_query_handle [of k "[simple_body (token srv)]" h c]
  show "exchange (close_query_handle h) c k [simple_body (token srv)] (Inr ())
      [write_close_req_handle h (token srv)] (token (srv\<lparr>cursors := close_cursor h (cursors srv)\<rparr>))"
    by (simp add: frameable_simple)
qed

lemma converse_cong:
  "(\<And>k as. m (facing c k as) = m' (facing c k as)) \<Longrightarrow>
     converse db m' c srv res srv' \<Longrightarrow> converse db m c srv res srv'"
  unfolding converse_def using exchange_cong [of m c m'] by simp

section \<open>The responses of the server are read back\<close>

lemma length_enc_result_info: "list_all result_info_ok infos \<Longrightarrow>
     length (concat (map (enc_result_info sec usec) infos)) = 21 * length infos"
  by (induction infos) (simp_all add: enc_result_info_def result_info_ok_def)

lemma selected_ok:
  assumes "effect_ok n (Selected cols ws)"
  shows "cols \<noteq> []" "columns_ok cols" "rows_ok cols ST_Select ws" "length ws < 2 ^ 31"
  using assms by (simp_all add: rows_ok_def)

lemma page_frameable:
  assumes "effect_ok n (Selected cols ws)" and "length page \<le> n" and "set page \<subseteq> set ws"
  shows "length (concat (map (enc_row (is_call ST_Select) cols) page)) < 2 ^ 30"
    and "rows_ok cols ST_Select page"
proof -
  have "list_all (\<lambda>w. length (enc_row False cols w) * n < 2 ^ 30) page"
    using assms by (auto simp: list_all_iff)
  from length_concat_page [OF this assms(2)]
  show "length (concat (map (enc_row (is_call ST_Select) cols) page)) < 2 ^ 30"
    by (simp add: is_call_def)
  show "rows_ok cols ST_Select page"
  proof (cases "page = []")
    case True
    then show ?thesis by (simp add: rows_ok_def)
  next
    case False
    then obtain w where "w \<in> set page" by (cases page) auto
    with assms(1,3) have "length (enc_row False cols w) * n < 2 ^ 30" "4 \<le> length (enc_row False cols w)"
      by (auto simp: list_all_iff enc_row_def split: prod.splits)
    then have "4 * n < 2 ^ 30" by (meson le_less_trans mult_le_mono1)
    with assms show ?thesis by (auto simp: rows_ok_def list_all_iff)
  qed
qed

lemma statement_result_ok:
  assumes "effect_ok n eff" and "0 < sint h"
  shows "result_ok (statement_result n h eff) (first_page n eff)"
proof (cases eff)
  case (Selected cols ws)
  then show ?thesis
    using assms page_frameable(2) [of n cols ws "take n ws"]
    by (auto simp: result_ok_def infos_ok_def select_info_def result_info_ok_def reported_def
        is_select_def dest: in_set_takeD)
next
  case (Changed st count infos)
  then show ?thesis
    using assms
    by (simp add: result_ok_def infos_ok_def columns_ok_def rows_ok_def reported_def usize_as_i32_def)
qed

lemma statement_frameable:
  assumes "effect_ok n eff"
  shows "frameable (statement_response n v t h eff)"
proof (cases eff)
  case (Selected cols ws)
  have "length (concat (map (enc_row (is_call ST_Select) cols) (take n ws))) < 2 ^ 30"
    using assms Selected page_frameable(1) [of n cols ws "take n ws"] by (auto dest: in_set_takeD)
  with assms Selected show ?thesis
    by (simp add: frameable_def statement_response_def enc_prepare_and_execute_def enc_columns_def
        enc_tail_def enc_result_infos_def enc_version_fields_def enc_inline_rows_def blank_def
        select_info_def enc_result_info_def is_select_def)
next
  case (Changed st count infos)
  with assms length_enc_result_info [of infos 0 0] show ?thesis
    by (simp add: frameable_def statement_response_def enc_prepare_and_execute_def enc_columns_def
        enc_tail_def enc_result_infos_def enc_version_fields_def enc_inline_rows_def blank_def
        is_select_def)
qed

section \<open>The first request of a statement\<close>

lemma serve_statement:
  assumes "length sql < 2 ^ 31 - 1"
  shows "serve_one db v (write_prepare_and_execute sql ac (token srv)) srv =
    Some (run_statement_request db v sql ac srv)"
  using assms by (simp add: serve_one_def decode_statement_requests respond_def)

lemma verdict_okD:
  assumes "database_ok db" and "run_sql db ac sql d = (verdict, d')"
  shows "verdict_ok (page_size db) verdict"
proof -
  from assms(1) have "verdict_ok (page_size db) (fst (run_sql db ac sql d))"
    unfolding database_ok_def by blast
  with assms(2) show ?thesis by simp
qed

lemma converse_statement:
  assumes db: "database_ok db" and len: "length (interpolate_params ff sql ps) < 2 ^ 31 - 1"
    and run: "run_sql db (client_auto_commit c) (interpolate_params ff sql ps) (contents srv) = (Inr eff, d)"
    and cur: "open_cursor (cursor_for eff) (cursors srv) = (h, cs)" and h: "0 < sint h"
  shows "converse db (prepare_and_execute ff sql ps) c srv
    (Inr (statement_result (page_size db) h eff))
    (srv\<lparr>contents := d, cursors := cs, token := renew db (token srv)\<rparr>)"
proof -
  let ?v = "client_proto_version c" and ?n = "page_size db" and ?t = "renew db (token srv)"
  have eff: "effect_ok ?n eff" using verdict_okD [OF db run] by (simp add: verdict_ok_def)
  show ?thesis
  proof (rule converse_cong)
    show "converse db (on_conn (request
        (write_prepare_and_execute (interpolate_params ff sql ps) (client_auto_commit c))
        (\<lambda>resp. parse_prepare_and_execute resp ?v))) c srv (Inr (statement_result ?n h eff))
      (srv\<lparr>contents := d, cursors := cs, token := ?t\<rparr>)"
    proof (rule converse_request)
      show "serve_one db ?v (write_prepare_and_execute (interpolate_params ff sql ps)
          (client_auto_commit c) (token srv)) srv =
        Some (statement_response ?n ?v ?t h eff, srv\<lparr>contents := d, cursors := cs, token := ?t\<rparr>)"
        unfolding serve_statement [OF len] by (simp add: run_statement_request_def run cur Let_def)
      show "frameable (statement_response ?n ?v ?t h eff)" by (rule statement_frameable [OF eff])
      show "parse_prepare_and_execute (statement_response ?n ?v ?t h eff) ?v =
          Inr (statement_result ?n h eff, token (srv\<lparr>contents := d, cursors := cs, token := ?t\<rparr>))"
        using parse_result_ok [OF statement_result_ok [OF eff h]]
        by (simp add: statement_response_def)
    qed simp_all
  qed (simp add: prepare_and_execute_def)
qed

text \<open>A refused statement.\<close>

lemma frameable_error: "length message < 2 ^ 30 \<Longrightarrow> frameable (error_body t rc code message 1)"
  by (simp add: frameable_def error_body_def)

lemma converse_statement_refused:
  assumes db: "database_ok db" and len: "length (interpolate_params ff sql ps) < 2 ^ 31 - 1"
    and run: "run_sql db (client_auto_commit c) (interpolate_params ff sql ps) (contents srv) =
      (Inl (code, message), d)"
    and keeps: "renew_silently db (token srv) = token srv"
  shows "converse db (prepare_and_execute ff sql ps) c srv
    (Inl (Err (CE_Protocol (PE_ServerError code message)))) (srv\<lparr>contents := d\<rparr>)"
proof -
  let ?v = "client_proto_version c" and ?r = "error_body (token srv) (- 1) code message 1"
  have m: "wf_str message" "length message < 2 ^ 30"
    using verdict_okD [OF db run] by (simp_all add: verdict_ok_def)
  show ?thesis
  proof (rule converse_cong)
    show "converse db (on_conn (request
        (write_prepare_and_execute (interpolate_params ff sql ps) (client_auto_commit c))
        (\<lambda>resp. parse_prepare_and_execute resp ?v))) c srv
      (Inl (Err (CE_Protocol (PE_ServerError code message)))) (srv\<lparr>contents := d\<rparr>)"
    proof (rule converse_refused [where e = "Err (PE_ServerError code message)", simplified])
      show "serve_one db ?v (write_prepare_and_execute (interpolate_params ff sql ps)
          (client_auto_commit c) (token srv)) srv = Some (?r, srv\<lparr>contents := d\<rparr>)"
        unfolding serve_statement [OF len]
        by (simp add: run_statement_request_def run refuse_def keeps Let_def)
      show "frameable ?r" by (rule frameable_error [OF m(2)])
      show "parse_prepare_and_execute ?r ?v = Inl (Err (PE_ServerError code message))"
        by (rule prepare_and_execute.server_error [OF _ m(1)]) simp
    qed simp_all
  qed (simp add: prepare_and_execute_def)
qed

section \<open>The fetches\<close>

lemma converse_fetch:
  assumes cur: "cursor_of h (cursors srv) = Some (cols, ws)"
    and ok: "effect_ok (page_size db) (Selected cols ws)"
    and n: "n < length ws" and page: "page = take (min 100 (page_size db)) (drop n ws)"
  shows "converse db (fetch_once h cols ST_Select (usize_as_i32 n)) c srv
    (Inr \<lparr>fetch_tuple_count = usize_as_i32 (length page), fetch_rows = map row_values page\<rparr>)
    (srv\<lparr>token := renew db (token srv)\<rparr>)"
  unfolding fetch_once_def DEFAULT_FETCH_SIZE_def
proof (rule converse_request)
  let ?t = "renew db (token srv)"
  have "usize_as_i32 n + 1 = usize_as_i32 (Suc n)"
    using usize_as_i32_add [of n 1] by (simp add: usize_as_i32_def)
  then have "nat (sint (usize_as_i32 n + 1)) - 1 = n"
    using n selected_ok(4) [OF ok] by (simp add: sint_usize_as_i32)
  then show "serve_one db (client_proto_version c) (write_fetch h (usize_as_i32 n) 100 (token srv)) srv =
      Some (enc_fetch ?t 0 cols ST_Select page, srv\<lparr>token := ?t\<rparr>)"
    by (simp add: serve_one_def respond_def fetch_request_def cur page Let_def)
  have p: "length page \<le> page_size db" "set page \<subseteq> set ws"
    by (auto simp: page dest: in_set_takeD in_set_dropD)
  from page_frameable(1) [OF ok this] show "frameable (enc_fetch ?t 0 cols ST_Select page)"
    by (simp add: frameable_def enc_fetch_def)
  show "parse_fetch (enc_fetch ?t 0 cols ST_Select page) cols ST_Select =
      Inr (\<lparr>fetch_tuple_count = usize_as_i32 (length page), fetch_rows = map row_values page\<rparr>,
        token (srv\<lparr>token := ?t\<rparr>))"
    unfolding parse_fetch_def
    using page_frameable(2) [OF ok p] selected_ok(1) [OF ok]
    by (simp add: run_decodes [OF decodes_fetch])
qed simp_all

lemma take_then_drop: "take k xs @ drop (length (take k xs)) xs = xs"
  by (cases "k \<le> length xs") simp_all

lemma converse_fetch_loop:
  assumes cur: "cursor_of h (cursors srv) = Some (cols, ws)"
    and ok: "effect_ok (page_size db) (Selected cols ws)" and size: "0 < page_size db"
    and n: "n \<le> length ws"
  shows "\<exists>t. converse db (fetch_loop h cols ST_Select (usize_as_i32 (length ws)) (usize_as_i32 n) so_far)
    c srv (Inr (so_far @ map row_values (drop n ws))) (srv\<lparr>token := t\<rparr>)"
  using cur n
proof (induction "length ws - n" arbitrary: n so_far srv rule: less_induct)
  case less
  note ws = selected_ok(4) [OF ok]
  show ?case
  proof (cases "n = length ws")
    case True
    then have "converse db (fetch_loop h cols ST_Select (usize_as_i32 (length ws)) (usize_as_i32 n) so_far)
        c srv (Inr (so_far @ map row_values (drop n ws))) (srv\<lparr>token := token srv\<rparr>)"
      by (subst fetch_loop_steps) (simp add: converse_ok del: ok_apply)
    then show ?thesis by blast
  next
    case False
    with less.prems have lt: "n < length ws" by simp
    define page where "page = take (min 100 (page_size db)) (drop n ws)"
    let ?m = "n + length page" and ?srv = "srv\<lparr>token := renew db (token srv)\<rparr>"
    have page: "0 < length page" "?m \<le> length ws" using lt size by (auto simp: page_def)
    have "page @ drop (length page) (drop n ws) = drop n ws"
      unfolding page_def by (rule take_then_drop)
    then have rows: "drop n ws = page @ drop ?m ws" by (simp add: add.commute)
    have less': "length ws - ?m < length ws - n" using lt page(1) by linarith
    obtain t where t: "converse db
        (fetch_loop h cols ST_Select (usize_as_i32 (length ws)) (usize_as_i32 ?m) (so_far @ map row_values page))
        c ?srv (Inr ((so_far @ map row_values page) @ map row_values (drop ?m ws))) (?srv\<lparr>token := t\<rparr>)"
      using less.hyps [OF less' _ page(2), of ?srv "so_far @ map row_values page"] less.prems(1) by auto
    have nz: "usize_as_i32 (length page) \<noteq> 0"
      using page ws sint_usize_as_i32 [of "length page"] by auto
    have go: "sint (usize_as_i32 n) < sint (usize_as_i32 (length ws))"
      using lt ws by (simp add: sint_usize_as_i32)
    have "converse db (fetch_loop h cols ST_Select (usize_as_i32 (length ws)) (usize_as_i32 n) so_far)
        c srv (Inr (so_far @ map row_values (drop n ws))) (srv\<lparr>token := t\<rparr>)"
      unfolding fetch_loop_steps [of h cols ST_Select "usize_as_i32 (length ws)" "usize_as_i32 n"] if_P [OF go]
      by (rule converse_and_then [OF converse_fetch [OF less.prems(1) ok lt page_def]])
        (use t nz rows in \<open>simp add: usize_as_i32_add\<close>)
    then show ?thesis by blast
  qed
qed

section \<open>What statements mean\<close>

text \<open>
  The meaning of a statement over the contents of the database, and what \<open>execute\<close>, \<open>query\<close>
  and \<open>last_insert_id\<close> make of its effect. No page, handle, cursor or token occurs here.
\<close>

definition statement_meaning ::
  "'d database \<Rightarrow> bool \<Rightarrow> bytes \<Rightarrow> 'd \<Rightarrow> (client_error, effect) outcome \<times> 'd" where
  "statement_meaning db ac sql d =
     (case run_sql db ac sql d of (verdict, d') \<Rightarrow>
        (case verdict of
           Inl (code, message) \<Rightarrow> Inl (Err (CE_Protocol (PE_ServerError code message)))
         | Inr eff \<Rightarrow> Inr eff, d'))"

fun affected_by :: "effect \<Rightarrow> u64" where
  "affected_by (Selected cols ws) = word_of_nat (length ws)"
| "affected_by (Changed st count infos) = affected_rows infos"

fun rows_of :: "effect \<Rightarrow> query_result" where
  "rows_of (Selected cols ws) =
     \<lparr>qr_columns = cols, qr_rows = map row_values ws, qr_total_count = usize_as_i32 (length ws)\<rparr>"
| "rows_of (Changed st count infos) = \<lparr>qr_columns = [], qr_rows = [], qr_total_count = count\<rparr>"

definition value_text :: "(db_value \<Rightarrow> bytes) \<Rightarrow> db_value \<Rightarrow> bytes" where
  "value_text dbg v =
     (case v of V_Null \<Rightarrow> [] | V_Int i \<Rightarrow> fmt_int (sint i) | V_Long l \<Rightarrow> fmt_int (sint l)
      | V_Short s \<Rightarrow> fmt_int (sint s) | V_String s \<Rightarrow> s | other \<Rightarrow> dbg other)"

definition id_text :: "(db_value \<Rightarrow> bytes) \<Rightarrow> query_result \<Rightarrow> bytes" where
  "id_text dbg result = (case qr_rows result of (v # _) # _ \<Rightarrow> value_text dbg v | _ \<Rightarrow> [])"

text \<open>
  The operation has the outcome \<open>res\<close> in a conversation that leaves the contents \<open>d\<close> and no
  open cursor.
\<close>

definition settles ::
  "'d database \<Rightarrow> 'a client_action \<Rightarrow> client \<Rightarrow> 'd server \<Rightarrow> (client_error, 'a) outcome \<Rightarrow> 'd \<Rightarrow> bool"
  where
  "settles db m c srv res d \<longleftrightarrow>
     (\<exists>srv'. converse db m c srv res srv' \<and> contents srv' = d \<and> idle_server srv')"

lemma settlesI: "converse db m c srv res srv' \<Longrightarrow> contents srv' = d \<Longrightarrow> idle_server srv' \<Longrightarrow> settles db m c srv res d"
  unfolding settles_def by blast

lemma settles_and_then_pure:
  "settles db m c srv (Inr x) d \<Longrightarrow> f x = ok y \<Longrightarrow> settles db (and_then m f) c srv (Inr y) d"
  unfolding settles_def by (metis converse_and_then converse_ok)

lemma settles_and_then_error: "settles db m c srv (Inl e) d \<Longrightarrow> settles db (and_then m f) c srv (Inl e) d"
  unfolding settles_def by (blast intro: converse_and_then_error)

lemma settles_returns: "settles db m c srv res d \<Longrightarrow> settles db (returns f m) c srv (map_sum id f res) d"
  unfolding settles_def by (blast intro: converse_returns)

section \<open>The operations settle\<close>

lemma select_affected: "length ws < 2 ^ 31 \<Longrightarrow> affected_rows [select_info ws] = word_of_nat (length ws)"
  by (simp add: affected_rows_int select_info_def sint_usize_as_i32)

lemma pae_result_affected:
  assumes "effect_ok n eff"
  shows "affected_rows (pae_result_infos (statement_result n h eff)) = affected_by eff"
proof (cases eff)
  case (Selected cols ws)
  with assms selected_ok(4) [of n cols ws] show ?thesis by (simp add: select_affected)
qed simp

text \<open>
  Both operations run the statement, work with its cursor, close it and return what they made.
\<close>

definition closing :: "prepare_and_execute_result \<Rightarrow> 'a \<Rightarrow> 'a client_action" where
  "closing r y =
     and_then (if sint (pae_query_handle r) > 0 then close_query_handle (pae_query_handle r) else ok ())
       (\<lambda>_. ok y)"

lemma statement_result_handle [simp]: "pae_query_handle (statement_result n h eff) = h"
  by (cases eff) simp_all

lemma converse_closing:
  assumes "\<And>t. renew_silently db t = t" and "0 < sint (pae_query_handle r)"
  shows "converse db (closing r y) c srv (Inr y)
    (srv\<lparr>cursors := close_cursor (pae_query_handle r) (cursors srv)\<rparr>)"
  using converse_last [where f = "\<lambda>_. y", OF converse_close [OF assms(1)]] assms(2)
  by (simp add: closing_def)

lemma settles_statement:
  fixes db :: "'d database"
  assumes db: "database_ok db" and silent: "\<And>t. renew_silently db t = t" and idle: "idle_server srv"
    and len: "length (interpolate_params ff sql ps) < 2 ^ 31 - 1"
    and m: "statement_meaning db (client_auto_commit c) (interpolate_params ff sql ps) (contents srv) = (res, d)"
    and f: "\<And>eff h srv1. effect_ok (page_size db) eff \<Longrightarrow>
       cursor_of h (cursors srv1) = Some (cursor_for eff) \<Longrightarrow>
       \<exists>x t. converse db (f (statement_result (page_size db) h eff)) c srv1 (Inr x) (srv1\<lparr>token := t\<rparr>)
         \<and> y (statement_result (page_size db) h eff) x = g eff"
  shows "settles db (and_then (prepare_and_execute ff sql ps) (\<lambda>r. and_then (f r) (\<lambda>x. closing r (y r x))))
    c srv (map_sum id g res) d"
proof (cases "run_sql db (client_auto_commit c) (interpolate_params ff sql ps) (contents srv)")
  case (Pair verdict d')
  show ?thesis
  proof (cases verdict)
    case (Inl err)
    obtain code message where err: "err = (code, message)" by (cases err)
    have res: "res = Inl (Err (CE_Protocol (PE_ServerError code message)))" "d' = d"
      using m by (simp_all add: statement_meaning_def Pair Inl err)
    have "converse db (prepare_and_execute ff sql ps) c srv
        (Inl (Err (CE_Protocol (PE_ServerError code message)))) (srv\<lparr>contents := d\<rparr>)"
      by (rule converse_statement_refused [OF db len _ silent]) (simp add: Pair Inl err res)
    then show ?thesis
      unfolding res(1) map_sum.simps id_apply using idle
      by (intro settlesI [where srv' = "srv\<lparr>contents := d\<rparr>", OF converse_and_then_error])
        (simp_all add: idle_server_def)
  next
    case (Inr eff)
    have res: "res = Inr eff" "d' = d"
      using m by (simp_all add: statement_meaning_def Pair Inr)
    have eff: "effect_ok (page_size db) eff"
      using verdict_okD [OF db Pair] by (simp add: Inr verdict_ok_def)
    obtain h cs where cur: "open_cursor (cursor_for eff) (cursors srv) = (h, cs)"
      by (cases "open_cursor (cursor_for eff) (cursors srv)")
    note c = open_cursor_idle [OF idle [unfolded idle_server_def] cur]
    let ?r = "statement_result (page_size db) h eff"
    let ?srv = "srv\<lparr>contents := d, cursors := cs, token := renew db (token srv)\<rparr>"
    have 1: "converse db (prepare_and_execute ff sql ps) c srv (Inr ?r) ?srv"
      by (rule converse_statement [OF db len _ cur]) (simp_all add: Pair Inr res c(1))
    obtain x t where 2: "converse db (f ?r) c ?srv (Inr x) (?srv\<lparr>token := t\<rparr>)" and y: "y ?r x = g eff"
      using f [OF eff, of h ?srv] c(2) by auto
    have "converse db (and_then (prepare_and_execute ff sql ps) (\<lambda>r. and_then (f r) (\<lambda>x. closing r (y r x))))
        c srv (Inr (y ?r x)) (?srv\<lparr>token := t, cursors := close_cursor h (cursors ?srv)\<rparr>)"
      using converse_closing [OF silent, of ?r "y ?r x" c "?srv\<lparr>token := t\<rparr>"] c(1)
      by (intro converse_and_then [OF 1] converse_and_then [OF 2]) simp
    from settlesI [OF this [unfolded y]] show ?thesis by (simp add: res idle_server_def c(3))
  qed
qed

lemma settles_execute:
  fixes db :: "'d database"
  assumes "database_ok db" and "\<And>t. renew_silently db t = t" and "idle_server srv"
    and "length (interpolate_params ff sql ps) < 2 ^ 31 - 1"
    and "statement_meaning db (client_auto_commit c) (interpolate_params ff sql ps) (contents srv) = (res, d)"
  shows "settles db (execute ff sql ps) c srv (map_sum id affected_by res) d"
proof -
  have ex: "\<exists>x t. converse db (ok ()) c srv1 (Inr x) (srv1\<lparr>token := t\<rparr>)
      \<and> affected_rows (pae_result_infos (statement_result (page_size db) h eff)) = affected_by eff"
    if "effect_ok (page_size db) eff" for eff and h :: i32 and srv1 :: "'d server"
    using converse_ok [of db "()" c srv1] pae_result_affected [OF that, of h]
    by (intro exI [of _ "()"] exI [of _ "token srv1"]) (simp del: ok_apply)
  show ?thesis
    using settles_statement [OF assms, of "\<lambda>_. ok ()" "\<lambda>r _. affected_rows (pae_result_infos r)" affected_by] ex
    by (simp add: execute_def closing_def)
qed

text \<open>The conditional fetch of \<open>query\<close> completes the first page.\<close>

definition completing :: "prepare_and_execute_result \<Rightarrow> row list client_action" where
  "completing r =
     (if is_select (pae_statement_type r) \<and> sint (usize_as_i32 (length (pae_rows r))) < sint (pae_total_tuple_count r)
      then fetch_remaining (pae_query_handle r) (pae_columns r) (pae_statement_type r)
             (pae_total_tuple_count r) (pae_rows r)
      else ok (pae_rows r))"

lemma converse_completing:
  fixes db :: "'d database" and srv :: "'d server"
  assumes size: "0 < page_size db" and ok: "effect_ok (page_size db) eff"
    and cur: "cursor_of h (cursors srv) = Some (cursor_for eff)"
  shows "\<exists>t. converse db (completing (statement_result (page_size db) h eff)) c srv
    (Inr (qr_rows (rows_of eff))) (srv\<lparr>token := t\<rparr>)"
proof (cases "\<exists>cols ws. eff = Selected cols ws \<and> page_size db < length ws")
  case True
  then obtain cols ws where eff: "eff = Selected cols ws" and lt: "page_size db < length ws" by blast
  note ok = ok [unfolded eff]
  have "sint (usize_as_i32 (page_size db)) < sint (usize_as_i32 (length ws))"
    using lt selected_ok(4) [OF ok] by (simp add: sint_usize_as_i32)
  moreover have "map row_values (take n ws) @ map row_values (drop n ws) = map row_values ws" for n
    by (simp flip: map_append)
  ultimately show ?thesis
    using converse_fetch_loop [OF _ ok size, of h srv "page_size db" "map row_values (take (page_size db) ws)" c]
      cur lt
    by (simp add: eff completing_def is_select_def fetch_remaining_def)
next
  case False
  then have "completing (statement_result (page_size db) h eff) = ok (qr_rows (rows_of eff))"
    using ok by (cases eff) (auto simp: completing_def is_select_def fun_eq_iff)
  then show ?thesis
    using converse_ok [of db "qr_rows (rows_of eff)" c srv]
    by (intro exI [of _ "token srv"]) (simp del: ok_apply)
qed

lemma settles_query:
  fixes db :: "'d database"
  assumes db: "database_ok db" and "\<And>t. renew_silently db t = t" and "idle_server srv"
    and "length (interpolate_params ff sql ps) < 2 ^ 31 - 1"
    and "statement_meaning db (client_auto_commit c) (interpolate_params ff sql ps) (contents srv) = (res, d)"
  shows "settles db (query ff sql ps) c srv (map_sum id rows_of res) d"
proof -
  let ?y = "\<lambda>r rs. \<lparr>qr_columns = pae_columns r, qr_rows = rs, qr_total_count = pae_total_tuple_count r\<rparr>"
  have size: "0 < page_size db" using db by (simp add: database_ok_def)
  have "?y (statement_result n h eff) (qr_rows (rows_of eff)) = rows_of eff" for n and h :: i32 and eff
    by (cases eff) simp_all
  then have ex: "\<exists>x t. converse db (completing (statement_result (page_size db) h eff)) c srv1 (Inr x)
      (srv1\<lparr>token := t\<rparr>) \<and> ?y (statement_result (page_size db) h eff) x = rows_of eff"
    if "effect_ok (page_size db) eff" "cursor_of h (cursors srv1) = Some (cursor_for eff)"
    for eff h and srv1 :: "'d server"
    using converse_completing [OF size that] by blast
  show ?thesis
    using settles_statement [OF assms, of completing ?y rows_of, OF ex]
    by (simp add: query_def closing_def completing_def Let_def)
qed

lemma settles_end_tran:
  assumes "idle_server srv"
  shows "settles db (end_tran tt) c srv (Inr ())
    (finish_tran db tt (contents srv))"
  unfolding end_tran_def
proof (rule settlesI)
  let ?srv = "srv\<lparr>contents := finish_tran db tt (contents srv),
    token := renew db (token srv)\<rparr>"
  show "converse db (on_conn (request (write_end_tran tt) parse_simple_unit)) c srv (Inr ()) ?srv"
  proof (rule converse_request)
    show "serve_one db (client_proto_version c) (write_end_tran tt (token srv)) srv =
        Some (simple_body (renew db (token srv)), ?srv)"
      by (simp add: serve_one_def respond_def Let_def)
    show "parse_simple_unit (simple_body (renew db (token srv))) = Inr ((), token ?srv)"
      using simple_response [of 0 _ "[]"] by (simp add: simple_body_def)
  qed (simp_all add: frameable_simple)
  show "contents ?srv = finish_tran db tt (contents srv)" by simp
  show "idle_server ?srv" using assms by (simp add: idle_server_def)
qed

lemma parse_version:
  assumes "wf_str s"
  shows "parse_get_db_version (simple_body t @ s @ [0]) = Inr (s, t)"
proof -
  let ?r = "advance 8 (reader_new (cas_bytes t @ be_bytes 4 (0 :: i32) @ s @ [0]))"
  have r: "rest ?r = s @ [0]" by simp
  have "decodes (parse_null_term_string (length s + 1)) s (s @ [0])"
    using decodes_string [OF assms, of "length s + 1" 1] by simp
  from decodesD [OF this, of ?r "[]"] r
  have "parse_null_term_string (length s + 1) ?r = (Inr s, advance (length (s @ [0])) ?r)" by simp
  with r show ?thesis
    by (simp add: parse_get_db_version_def handshake_heads simple_body_def run_parser_def
        response_head_run and_then_def remaining_now_def remaining_rest del: rest_advance)
qed

lemma settles_ping:
  assumes "database_ok db" and "idle_server srv"
  shows "settles db ping c srv (Inr (product db)) (contents srv)"
proof (rule settlesI)
  let ?srv = "srv\<lparr>token := renew db (token srv)\<rparr>"
  have p: "wf_str (product db)" "length (product db) < 2 ^ 31 - 2"
    using assms(1) by (simp_all add: database_ok_def string_ok_def)
  show "converse db ping c srv (Inr (product db)) ?srv"
  proof (rule converse_cong)
    show "converse db (on_conn (request (write_get_db_version (client_auto_commit c)) parse_get_db_version))
        c srv (Inr (product db)) ?srv"
    proof (rule converse_request)
      show "serve_one db (client_proto_version c) (write_get_db_version (client_auto_commit c) (token srv)) srv =
          Some (simple_body (renew db (token srv)) @ product db @ [0], ?srv)"
        by (simp add: serve_one_def respond_def Let_def)
      show "frameable (simple_body (renew db (token srv)) @ product db @ [0])"
        using p(2) by (simp add: frameable_def simple_body_def)
      show "parse_get_db_version (simple_body (renew db (token srv)) @ product db @ [0]) =
          Inr (product db, token ?srv)"
        using parse_version [OF p(1)] by simp
    qed simp_all
  qed (simp add: ping_def)
  show "contents ?srv = contents srv" by simp
  show "idle_server ?srv" using assms(2) by (simp add: idle_server_def)
qed

lemma settles_last_insert_id:
  fixes db :: "'d database"
  assumes "database_ok db" and silent: "\<And>t. renew_silently db t = t" and "idle_server srv"
    and "length (interpolate_params ff (bytes_of ''SELECT LAST_INSERT_ID()'') []) < 2 ^ 31 - 1"
    and "statement_meaning db (client_auto_commit c)
      (interpolate_params ff (bytes_of ''SELECT LAST_INSERT_ID()'') []) (contents srv) = (res, d)"
  shows "settles db (last_insert_id ff dbg) c srv (map_sum id (id_text dbg \<circ> rows_of) res) d"
proof (cases res)
  case (Inl e)
  with settles_query [OF assms] show ?thesis
    by (simp add: last_insert_id_def settles_and_then_error)
next
  case (Inr eff)
  have "(case qr_rows r of (v # vs) # rs \<Rightarrow>
      ok (case v of V_Null \<Rightarrow> [] | V_Int i \<Rightarrow> fmt_int (sint i) | V_Long l \<Rightarrow> fmt_int (sint l)
          | V_Short s \<Rightarrow> fmt_int (sint s) | V_String s \<Rightarrow> s | other \<Rightarrow> dbg other)
      | _ \<Rightarrow> ok []) = ok (id_text dbg r)" for r
    by (simp add: id_text_def value_text_def split: list.split)
  with settles_query [OF assms] Inr show ?thesis
    unfolding last_insert_id_def by (auto intro: settles_and_then_pure)
qed

end
