(* ===== verification/Database_Sessions.thy ===== *)
theory Database_Sessions
  imports Database_Laws
begin

text \<open>
  Sessions of direct statements, transaction ends and pings against the reference server: they
  have exactly the results that the database gives, as long as the server keeps its token in
  errors and in the responses to FC=6, where the client keeps its own (theory \<open>Lockstep\<close>).
\<close>

section \<open>Sessions\<close>

text \<open>
  The meaning of an operation over the auto-commit flag and the contents of the database. The
  operations on prepared statements have none here.
\<close>

definition on_effect :: "(effect \<Rightarrow> answer) \<Rightarrow> 'b \<Rightarrow> (client_error, effect) outcome \<times> 'd \<Rightarrow>
     (client_error, answer) outcome \<times> ('b \<times> 'd)" where
  "on_effect f ac = (\<lambda>(res, d). (map_sum id f res, (ac, d)))"

definition last_id_query :: bytes where
  "last_id_query = bytes_of ''SELECT LAST_INSERT_ID()''"

fun meaning ::
  "'d database \<Rightarrow> float_fmt \<Rightarrow> (db_value \<Rightarrow> bytes) \<Rightarrow> operation \<Rightarrow> bool \<times> 'd \<Rightarrow>
     (client_error, answer) outcome \<times> (bool \<times> 'd)" where
  "meaning db ff dbg (Do_Execute sql ps) (ac, d) =
     on_effect (Affected \<circ> affected_by) ac (statement_meaning db ac (interpolate_params ff sql ps) d)"
| "meaning db ff dbg (Do_Query sql ps) (ac, d) =
     on_effect (Rows \<circ> rows_of) ac (statement_meaning db ac (interpolate_params ff sql ps) d)"
| "meaning db ff dbg Do_Commit (ac, d) = (Inr Done, (ac, finish_tran db Commit d))"
| "meaning db ff dbg Do_Rollback (ac, d) = (Inr Done, (ac, finish_tran db Rollback d))"
| "meaning db ff dbg Do_Ping (ac, d) = (Inr (Version (product db)), (ac, d))"
| "meaning db ff dbg Do_Last_Insert_Id (ac, d) =
     on_effect (Version \<circ> id_text dbg \<circ> rows_of) ac (statement_meaning db ac last_id_query d)"
| "meaning db ff dbg (Do_Set_Auto_Commit b) (ac, d) = (Inr Done, (b, d))"
| "meaning db ff dbg _ (ac, d) = (Inr Done, (ac, d))"

primrec meaning_all ::
  "'d database \<Rightarrow> float_fmt \<Rightarrow> (db_value \<Rightarrow> bytes) \<Rightarrow> operation list \<Rightarrow> bool \<times> 'd \<Rightarrow>
     (client_error, answer) outcome list \<times> (bool \<times> 'd)" where
  "meaning_all db ff dbg [] s = ([], s)"
| "meaning_all db ff dbg (op # ops) s =
     (case meaning db ff dbg op s of (res, s1) \<Rightarrow>
        case meaning_all db ff dbg ops s1 of (results, s2) \<Rightarrow> (res # results, s2))"

text \<open>The operations that have a meaning: their text fits a request.\<close>

fun direct :: "float_fmt \<Rightarrow> operation \<Rightarrow> bool" where
  "direct ff (Do_Execute sql ps) \<longleftrightarrow> length (interpolate_params ff sql ps) < 2 ^ 31 - 1"
| "direct ff (Do_Query sql ps) \<longleftrightarrow> length (interpolate_params ff sql ps) < 2 ^ 31 - 1"
| "direct ff Do_Commit \<longleftrightarrow> True"
| "direct ff Do_Rollback \<longleftrightarrow> True"
| "direct ff Do_Ping \<longleftrightarrow> True"
| "direct ff Do_Last_Insert_Id \<longleftrightarrow> True"
| "direct ff (Do_Set_Auto_Commit b) \<longleftrightarrow> True"
| "direct ff _ \<longleftrightarrow> False"

lemma on_effect_simps [simp]:
  "fst (on_effect f ac r) = map_sum id f (fst r)" "snd (on_effect f ac r) = (ac, snd r)"
  by (simp_all add: on_effect_def case_prod_unfold)

lemma settles_perform:
  assumes "database_ok db" and "\<And>t. renew_silently db t = t" and "idle_server srv"
    and "direct ff op" and "\<nexists>b. op = Do_Set_Auto_Commit b"
    and "meaning db ff dbg op (client_auto_commit c, contents srv) = (res, (ac, d))"
  shows "settles db (perform ff dbg op) c srv res d \<and> ac = client_auto_commit c"
proof -
  note ops = assms(1-3)
  have q: "interpolate_params ff (bytes_of ''SELECT LAST_INSERT_ID()'') [] = last_id_query"
    "length last_id_query < 2147483647"
    by (simp_all add: last_id_query_def interpolate_params_def)
  have comp: "map_sum id f (map_sum id g r) = map_sum id (f \<circ> g) r" for f g and r :: "client_error fault + 'x"
    by (simp add: sum.map_comp)
  have st: "statement_meaning db ac' sql d' = (fst (statement_meaning db ac' sql d'), snd (statement_meaning db ac' sql d'))"
    for ac' sql d' by simp
  show ?thesis
    using assms(4-6) settles_returns [where f = Affected, OF settles_execute [where ff = ff and c = c, OF ops _ st]]
      settles_returns [where f = Rows, OF settles_query [where ff = ff and c = c, OF ops _ st]]
      settles_returns [where f = Version, OF settles_last_insert_id [where ff = ff and c = c and dbg = dbg, OF ops _ st]]
      settles_returns [where f = Version, OF settles_ping [where c = c, OF assms(1,3)]]
      settles_returns [where f = "\<lambda>_. Done", OF settles_end_tran [where db = db and c = c and tt = Commit, OF assms(3)]]
      settles_returns [where f = "\<lambda>_. Done", OF settles_end_tran [where db = db and c = c and tt = Rollback, OF assms(3)]]
    by (cases op) (auto simp: comp q on_effect_def commit_def rollback_def comp_assoc case_prod_unfold)
qed

lemma converse_run:
  assumes "converse db m c srv res srv'"
  obtains qs rs where "serve db (client_proto_version c) qs srv = Some (rs, srv')"
    and "\<And>k as. healthy k \<Longrightarrow> conn_cas_info k = token srv \<Longrightarrow>
      m (facing c k (framed rs @ as)) = (res, facing c (asked qs (token srv') k) as)"
proof -
  obtain qs rs where 1: "serve db (client_proto_version c) qs srv = Some (rs, srv')"
    and e: "\<And>k. healthy k \<Longrightarrow> conn_cas_info k = token srv \<Longrightarrow> exchange m c k rs res qs (token srv')"
    using assms unfolding converse_def by blast
  from e serve_length [OF 1] have "m (facing c k (framed rs @ as)) = (res, facing c (asked qs (token srv') k) as)"
    if "healthy k" "conn_cas_info k = token srv" for k as
    using that by (simp add: exchange_def)
  with 1 show ?thesis by (rule that)
qed

lemma set_auto_commit_simps [simp]:
  "client_proto_version (set_auto_commit b c) = client_proto_version c"
  "client_auto_commit (set_auto_commit b c) = b"
  "set_auto_commit b (set_auto_commit b' c) = set_auto_commit b c"
  "set_auto_commit (client_auto_commit c) c = c"
  "set_auto_commit b (facing c k as) = facing (set_auto_commit b c) k as"
  by (simp_all add: set_auto_commit_def facing_def)

lemma facing_asked_nothing: "conn_cas_info k = t \<Longrightarrow> facing c (asked [] t k) as = facing c k as"
  by auto

lemma facing_same_flag: "client_auto_commit c = b \<Longrightarrow> facing (set_auto_commit b c) k as = facing c k as"
  by (drule sym) (simp only: set_auto_commit_simps)

lemmas facing_same = facing_asked_nothing facing_same_flag

text \<open>One operation of a session, with the flag it leaves.\<close>

lemma perform_means:
  assumes "database_ok db" and "\<And>t. renew_silently db t = t" and "idle_server srv" and "direct ff op"
    and m: "meaning db ff dbg op (client_auto_commit c, contents srv) = (res, (ac, d))"
  obtains qs rs srv' where "serve db (client_proto_version c) qs srv = Some (rs, srv')"
    and "idle_server srv'" and "contents srv' = d"
    and "\<And>k as. healthy k \<Longrightarrow> conn_cas_info k = token srv \<Longrightarrow>
      perform ff dbg op (facing c k (framed rs @ as)) =
        (res, facing (set_auto_commit ac c) (asked qs (token srv') k) as)"
proof (cases "\<exists>b. op = Do_Set_Auto_Commit b")
  case True
  then show ?thesis
    using m assms(3) that [of "[]" "[]" srv] by (auto simp: facing_same)
next
  case False
  from settles_perform [OF assms(1-4) this m]
  obtain srv' where c: "converse db (perform ff dbg op) c srv res srv'"
    and s: "contents srv' = d" "idle_server srv'" "ac = client_auto_commit c"
    unfolding settles_def by blast
  obtain qs rs where "serve db (client_proto_version c) qs srv = Some (rs, srv')"
    "\<And>k as. healthy k \<Longrightarrow> conn_cas_info k = token srv \<Longrightarrow>
      perform ff dbg op (facing c k (framed rs @ as)) = (res, facing c (asked qs (token srv') k) as)"
    using converse_run [OF c] by blast
  then show ?thesis by (intro that [of qs rs srv']) (simp_all add: s facing_same)
qed

lemma sessions_mean:
  assumes "database_ok db" and "\<And>t. renew_silently db t = t" and "idle_server srv" and "list_all (direct ff) ops"
    and "meaning_all db ff dbg ops (client_auto_commit c, contents srv) = (results, (ac, d))"
  shows "\<exists>qs rs srv'. serve db (client_proto_version c) qs srv = Some (rs, srv')
    \<and> idle_server srv' \<and> contents srv' = d
    \<and> (\<forall>k as. healthy k \<longrightarrow> conn_cas_info k = token srv \<longrightarrow>
        perform_all ff dbg ops (facing c k (framed rs @ as)) =
          (results, facing (set_auto_commit ac c) (asked qs (token srv') k) as))"
  using assms(3-5)
proof (induction ops arbitrary: c srv results)
  case Nil
  then show ?case by (intro exI [of _ "[]"] exI [of _ srv]) (simp add: facing_same)
next
  case (Cons op ops)
  obtain res ac1 d1 where m: "meaning db ff dbg op (client_auto_commit c, contents srv) = (res, (ac1, d1))"
    by (metis prod.collapse)
  obtain qs rs srv1 where 1: "serve db (client_proto_version c) qs srv = Some (rs, srv1)"
    "idle_server srv1" "contents srv1 = d1"
    and p: "\<And>k as. healthy k \<Longrightarrow> conn_cas_info k = token srv \<Longrightarrow>
      perform ff dbg op (facing c k (framed rs @ as)) =
        (res, facing (set_auto_commit ac1 c) (asked qs (token srv1) k) as)"
    using perform_means [OF assms(1,2) Cons.prems(1) _ m] Cons.prems(2) by auto
  obtain results' where ms: "meaning_all db ff dbg ops (ac1, d1) = (results', (ac, d))"
    and results: "results = res # results'"
    using Cons.prems(3) m by (auto split: prod.splits)
  obtain qs' rs' srv2 where 2: "serve db (client_proto_version c) qs' srv1 = Some (rs', srv2)"
    "idle_server srv2" "contents srv2 = d"
    and p': "\<And>k as. healthy k \<Longrightarrow> conn_cas_info k = token srv1 \<Longrightarrow>
      perform_all ff dbg ops (facing (set_auto_commit ac1 c) k (framed rs' @ as)) =
        (results', facing (set_auto_commit ac c) (asked qs' (token srv2) k) as)"
    using Cons.IH [of srv1 "set_auto_commit ac1 c" results'] 1(2,3) ms Cons.prems(2) by auto
  have "serve db (client_proto_version c) (qs @ qs') srv = Some (rs @ rs', srv2)"
    by (rule serve_append [OF 1(1) 2(1)])
  moreover have "perform_all ff dbg (op # ops) (facing c k (framed (rs @ rs') @ as)) =
      (results, facing (set_auto_commit ac c) (asked (qs @ qs') (token srv2) k) as)"
    if "healthy k" "conn_cas_info k = token srv" for k as
    using p [OF that, of "framed rs' @ as"] p' [of "asked qs (token srv1) k" as] that
    by (simp add: framed_append results)
  ultimately show ?case using 2(2,3) by blast
qed

section \<open>The theorem\<close>

text \<open>
  C1. A session means what the database says. Take any server that decodes requests, keeps
  cursors and a token, pages its rows as it likes and renews its token with every response
  that the driver takes it from, over any database; and any session of \<open>execute\<close>, \<open>query\<close>,
  \<open>commit\<close>, \<open>rollback\<close>, \<open>ping\<close>, \<open>last_insert_id\<close> and changes of auto-commit, each statement
  below \<open>2 ^ 31 - 1\<close> bytes with its parameters filled in. The server keeps its token in errors
  and in the responses to FC=6, and the database gives what the wire format can carry
  (\<open>database_ok\<close>: texts are UTF-8, cells fit their columns, counts fit their fields and a page of
  rows fits a frame). Then client and server have a conversation in which the server answers every request of the client and the
  client returns, operation for operation, what the statements mean over the contents of the
  database: the affected rows, the complete result set in order, or the error. The final
  contents and the auto-commit flag are those of the meaning, both sides hold the same token,
  no cursor is left open at the server and nothing else that arrives is read. Pages, handles,
  positions and tokens do not show.
\<close>

theorem session_means_database:
  assumes "database_ok db" and "\<forall>t. renew_silently db t = t" and "idle_server srv"
    and "list_all (direct ff) ops" and "healthy k" and "conn_cas_info k = token srv"
    and "meaning_all db ff dbg ops (client_auto_commit c, contents srv) = (results, (ac, d))"
  shows "\<exists>qs rs srv'. serve db (client_proto_version c) qs srv = Some (rs, srv')
    \<and> perform_all ff dbg ops (facing c k (framed rs @ as)) =
        (results, facing (set_auto_commit ac c) (asked qs (token srv') k) as)
    \<and> contents srv' = d \<and> idle_server srv'"
  using sessions_mean [OF assms(1) spec [OF assms(2)] assms(3,4,7)] assms(5,6) by blast

section \<open>A small database\<close>

text \<open>
  One table of integers: \<open>I\<close> inserts, \<open>S\<close> selects (at most 100 rows), a rollback empties it
  and every other text is a syntax error. The server sends two rows in a page and changes the
  first byte of the token with every renewal.
\<close>

definition demo_select :: "i32 list \<Rightarrow> effect" where
  "demo_select is = Selected [demo_column DT_Int [105]]
     (map (\<lambda>i. (0, replicate 8 0, [(DT_Int, V_Int i)])) (take 100 is))"

definition demo_insert :: effect where
  "demo_insert = Changed ST_Insert 1 [\<lparr>stmt_type = ST_Insert, result_count = 1, oid = replicate 8 0\<rparr>]"

fun demo_renew :: "cas_info \<Rightarrow> cas_info" where
  "demo_renew (CAS a b c d) = CAS (a + 1) b c d"

definition demo_db :: "(cas_info \<Rightarrow> cas_info) \<Rightarrow> i32 list database" where
  "demo_db silently =
     \<lparr>run_sql = (\<lambda>ac sql is.
        if sql = [73] then (Inr demo_insert, usize_as_i32 (length is) # is)
        else if sql = [83] then (Inr (demo_select is), is)
        else (Inl (- 493, [115]), is)),
      finish_tran = (\<lambda>tt is. if tt = Rollback then [] else is), product = [49, 49], page_size = 2,
      renew = demo_renew, renew_silently = silently\<rparr>"

definition demo_server :: "i32 list server" where
  "demo_server = \<lparr>contents = [], cursors = [], token = CAS 1 2 3 4\<rparr>"

lemma demo_db_simps [simp]:
  "renew_silently (demo_db silently) = silently" "product (demo_db silently) = [49, 49]"
  "page_size (demo_db silently) = 2" "finish_tran (demo_db silently) = (\<lambda>tt is. if tt = Rollback then [] else is)"
  "run_sql (demo_db silently) ac sql is =
     (if sql = [73] then (Inr demo_insert, usize_as_i32 (length is) # is)
      else if sql = [83] then (Inr (demo_select is), is) else (Inl (- 493, [115]), is))"
  by (simp_all add: demo_db_def)

lemma demo_text_ok: "wf_str [105]" "wf_str [115]" "wf_str [49, 49]" "wf_str []"
  by (simp_all add: wf_str_def utf8_check_Suc utf8_tail_ascii)

lemma demo_effects_ok: "effect_ok 2 demo_insert" "effect_ok 2 (demo_select is)"
proof -
  show "effect_ok 2 demo_insert" by (simp add: demo_insert_def result_info_ok_def)
  show "effect_ok 2 (demo_select is)"
    using demo_text_ok
    by (simp add: demo_select_def columns_ok_def column_ok_def demo_column_def string_ok_def
        rows_ok_def row_ok_def cell_ok_def self_typed_def is_call_def list_all_iff
        enc_column_def enc_string_def prefixed_def enc_row_def enc_cell_def)
qed

lemma demo_db_ok: "database_ok (demo_db silently)"
  using demo_effects_ok demo_text_ok by (simp add: database_ok_def string_ok_def verdict_ok_def)

definition demo_session :: "operation list" where
  "demo_session = [Do_Set_Auto_Commit False, Do_Execute [73] [], Do_Execute [73] [], Do_Execute [73] [],
     Do_Query [83] [], Do_Execute [63] [], Do_Commit, Do_Ping, Do_Rollback, Do_Query [83] []]"

lemma demo_meaning:
  "meaning_all (demo_db silently) demo_ff dbg demo_session (True, []) =
     ([Inr Done, Inr (Affected 1), Inr (Affected 1), Inr (Affected 1),
       Inr (Rows \<lparr>qr_columns = [demo_column DT_Int [105]], qr_rows = [[V_Int 2], [V_Int 1], [V_Int 0]],
         qr_total_count = 3\<rparr>),
       Inl (Err (CE_Protocol (PE_ServerError (- 493) [115]))), Inr Done, Inr (Version [49, 49]), Inr Done,
       Inr (Rows \<lparr>qr_columns = [demo_column DT_Int [105]], qr_rows = [], qr_total_count = 0\<rparr>)],
      (False, []))"
  by (simp add: demo_session_def on_effect_def statement_meaning_def interpolate_params_def
      demo_insert_def demo_select_def affected_rows_def row_values_def usize_as_i32_def i32_as_u64_def)

theorem session_means_database_witness:
  "\<exists>qs rs srv'. serve (demo_db id) (client_proto_version (demo_client [])) qs demo_server = Some (rs, srv')
    \<and> perform_all demo_ff (\<lambda>_. []) demo_session (facing (demo_client []) (demo_conn []) (framed rs @ [])) =
        ([Inr Done, Inr (Affected 1), Inr (Affected 1), Inr (Affected 1),
          Inr (Rows \<lparr>qr_columns = [demo_column DT_Int [105]], qr_rows = [[V_Int 2], [V_Int 1], [V_Int 0]],
            qr_total_count = 3\<rparr>),
          Inl (Err (CE_Protocol (PE_ServerError (- 493) [115]))), Inr Done, Inr (Version [49, 49]), Inr Done,
          Inr (Rows \<lparr>qr_columns = [demo_column DT_Int [105]], qr_rows = [], qr_total_count = 0\<rparr>)],
         facing (set_auto_commit False (demo_client [])) (asked qs (token srv') (demo_conn [])) [])
    \<and> contents srv' = [] \<and> idle_server srv'"
proof (rule session_means_database)
  show "database_ok (demo_db id)" by (rule demo_db_ok)
  show "\<forall>t. renew_silently (demo_db id) t = t" by simp
  show "idle_server demo_server" by (simp add: demo_server_def idle_server_def)
  show "list_all (direct demo_ff) demo_session" by (simp add: demo_session_def interpolate_params_def)
  show "healthy (demo_conn [])" by simp
  show "conn_cas_info (demo_conn []) = token demo_server" by (simp add: demo_conn_def demo_server_def)
  show "meaning_all (demo_db id) demo_ff (\<lambda>_. []) demo_session
      (client_auto_commit (demo_client []), contents demo_server) =
    ([Inr Done, Inr (Affected 1), Inr (Affected 1), Inr (Affected 1),
      Inr (Rows \<lparr>qr_columns = [demo_column DT_Int [105]], qr_rows = [[V_Int 2], [V_Int 1], [V_Int 0]],
        qr_total_count = 3\<rparr>),
      Inl (Err (CE_Protocol (PE_ServerError (- 493) [115]))), Inr Done, Inr (Version [49, 49]), Inr Done,
      Inr (Rows \<lparr>qr_columns = [demo_column DT_Int [105]], qr_rows = [], qr_total_count = 0\<rparr>)],
     (False, []))"
    using demo_meaning [of id] by (simp add: demo_client_def demo_server_def)
qed

end
