(* ===== verification/Async_Transport.thy ===== *)
theory Async_Transport
  imports Transport
begin

text \<open>
  \<open>crates/cubrid-tokio/src/conn.rs\<close> and the error type of \<open>crates/cubrid-tokio/src/lib.rs\<close>. The
  functions are \<open>async\<close>: the caller may drop the future at any \<open>await\<close>, and then nothing after
  that point runs. How long the future is kept is data of the model, as the stream is.
\<close>

section \<open>Errors and dropped futures\<close>

datatype tokio_error =
    TE_Protocol protocol_error
  | TE_Io io_error
  | TE_InvalidDsn bytes
  | TE_ConnectionClosed
  | TE_ServerError i32 bytes

fun display_tokio_error :: "(io_error \<Rightarrow> bytes) \<Rightarrow> tokio_error \<Rightarrow> bytes" where
  "display_tokio_error io (TE_Protocol e) = bytes_of ''protocol error: '' @ display_protocol_error io e"
| "display_tokio_error io (TE_Io e) = bytes_of ''I/O error: '' @ io e"
| "display_tokio_error io (TE_InvalidDsn m) = bytes_of ''invalid DSN: '' @ m"
| "display_tokio_error io TE_ConnectionClosed = bytes_of ''connection closed''"
| "display_tokio_error io (TE_ServerError code message) =
     bytes_of ''server error '' @ fmt_int (sint code) @ bytes_of '': '' @ message"

text \<open>
  How an asynchronous computation ends without a value: it returns an error, or its future
  is dropped before it is finished. Code can handle an error, but nothing runs after a drop.
\<close>

datatype 'e stop = Stopped 'e | Dropped

section \<open>The connection\<close>

text \<open>
  \<open>patience\<close> is not in the code: the number of bytes that the running future still moves
  before it is dropped (\<open>None\<close> if it is kept until it is finished). A future waits only for
  bytes, so every place where it can be dropped is such a number.
\<close>

record async_connection =
  a_stream :: tcp
  a_cas_info :: cas_info
  patience :: "nat option"

type_synonym 'a async_conn_action = "(async_connection, tokio_error stop, 'a) action"

definition async_cas_info :: "cas_info async_conn_action" where
  "async_cas_info k = (Inr (a_cas_info k), k)"

definition async_set_cas_info :: "cas_info \<Rightarrow> unit async_conn_action" where
  "async_set_cas_info cas k = (Inr (), k\<lparr>a_cas_info := cas\<rparr>)"

text \<open>How many of \<open>n\<close> bytes the future moves, and the patience that is left after them.\<close>

definition moved :: "nat \<Rightarrow> nat option \<Rightarrow> nat" where
  "moved n p = (case p of None \<Rightarrow> n | Some m \<Rightarrow> min n m)"

definition patience_left :: "nat \<Rightarrow> nat option \<Rightarrow> nat option" where
  "patience_left n p = map_option (\<lambda>m. m - n) p"

text \<open>\<open>stream.read_exact(&mut buf).await?\<close>: bytes read before a drop are lost with the buffer.\<close>

definition async_read_exact :: "usize \<Rightarrow> bytes async_conn_action" where
  "async_read_exact n k =
     (let m = moved n (patience k) in
      case take_arrivals m (arrivals (a_stream k)) of
        (res, as) \<Rightarrow>
          ((case res of
              Inl e \<Rightarrow> Inl (Err (Stopped (TE_Io e)))
            | Inr bs \<Rightarrow> if m < n then Inl (Err Dropped) else Inr bs),
           k\<lparr>a_stream := (a_stream k)\<lparr>arrivals := as\<rparr>, patience := patience_left n (patience k)\<rparr>))"

text \<open>\<open>stream.write_all(data).await?; stream.flush().await?\<close>\<close>

definition async_write_all :: "bytes \<Rightarrow> unit async_conn_action" where
  "async_write_all data k =
     (let m = moved (length data) (patience k) in
      case tcp_write_all (take m data) (a_stream k) of
        (res, s) \<Rightarrow>
          ((case res of
              Inl e \<Rightarrow> Inl (Err (Stopped (TE_Io e)))
            | Inr _ \<Rightarrow> if m < length data then Inl (Err Dropped) else Inr ()),
           k\<lparr>a_stream := s, patience := patience_left (length data) (patience k)\<rparr>))"

definition async_write_raw :: "bytes \<Rightarrow> unit async_conn_action" where
  "async_write_raw data = async_write_all data"

definition async_read_exact_bytes :: "usize \<Rightarrow> bytes async_conn_action" where
  "async_read_exact_bytes n = async_read_exact n"

definition async_send_framed :: "bytes \<Rightarrow> unit async_conn_action" where
  "async_send_framed data = async_write_all data"

definition async_recv_framed :: "bytes async_conn_action" where
  "async_recv_framed =
     and_then (async_read_exact 4) (\<lambda>len_buf.
     let data_len = unat (be_word len_buf :: u32);
         total_len = data_len + SIZE_CAS_INFO
     in async_read_exact total_len)"

text \<open>
  \<open>write_and_close\<close> consumes the connection. Errors are ignored, but a drop of the future
  skips the shutdown; the stream remains as it was left.
\<close>

definition async_write_and_close ::
  "bytes \<Rightarrow> async_connection \<Rightarrow> (tokio_error stop, unit) outcome \<times> tcp" where
  "async_write_and_close data k =
     (case async_write_all data k of
        (Inl (Err Dropped), k') \<Rightarrow> (Inl (Err Dropped), a_stream k')
      | (_, k') \<Rightarrow> (Inr (), (a_stream k')\<lparr>is_shut := True\<rparr>))"

section \<open>Connecting\<close>

type_synonym 'a async_net_action = "(network, tokio_error stop, 'a) action"

text \<open>
  \<open>AsyncConnection::connect\<close>: the attempt covers resolving, connecting within the timeout
  and setting the socket options. A future that is dropped here leaves nothing behind.
\<close>

definition async_connect :: "bytes \<Rightarrow> u16 \<Rightarrow> nat \<Rightarrow> async_connection async_net_action" where
  "async_connect h p tmo net =
     (let net' = net\<lparr>dialled := dialled net @ [(h, p, tmo)], attempts := tl (attempts net)\<rparr>
      in case attempts net of
           [] \<Rightarrow> (Inl (Err (Stopped (TE_Io Io_ConnectionRefused))), net')
         | Inl e # _ \<Rightarrow> (Inl (Err (Stopped (TE_Io e))), net')
         | Inr s # _ \<Rightarrow>
             (Inr \<lparr>a_stream = s, a_cas_info = CAS 0 0 0 0, patience = None\<rparr>, net'))"

section \<open>Agreement with the synchronous transport\<close>

text \<open>
  An action of the asynchronous client agrees with one of the synchronous client when, on
  every state of the latter, seen as a state of the former, it has the same outcome and
  leaves the same state. States are seen with unlimited patience.
\<close>

definition agrees ::
  "('s \<Rightarrow> 't) \<Rightarrow> ('e \<Rightarrow> 'f) \<Rightarrow> ('s, 'e, 'a) action \<Rightarrow> ('a \<Rightarrow> 'b) \<Rightarrow> ('t, 'f, 'b) action \<Rightarrow> bool" where
  "agrees up err m val m' \<longleftrightarrow>
     (\<forall>s. m' (up s) = (case m s of (res, s') \<Rightarrow> (map_sum (map_fault err) val res, up s')))"

named_theorems agrees_intros

lemma agreesI:
  "(\<And>s. m' (up s) = (case m s of (res, s') \<Rightarrow> (map_sum (map_fault err) val res, up s'))) \<Longrightarrow>
     agrees up err m val m'"
  by (simp add: agrees_def)

lemma agreesD:
  "agrees up err m val m' \<Longrightarrow> m s = (res, s') \<Longrightarrow> m' (up s) = (map_sum (map_fault err) val res, up s')"
  by (simp add: agrees_def)

lemma agrees_and_then:
  assumes "agrees up err m val m'" and "\<And>x. agrees up err (f x) val' (f' (val x))"
  shows "agrees up err (and_then m f) val' (and_then m' f')"
proof (rule agreesI)
  fix s
  obtain res s' where m: "m s = (res, s')" by (cases "m s")
  note m' = agreesD [OF assms(1) m]
  show "and_then m' f' (up s) =
      (case and_then m f s of (res, s') \<Rightarrow> (map_sum (map_fault err) val' res, up s'))"
  proof (cases res)
    case (Inl e)
    with m m' show ?thesis by (simp add: and_then_def)
  next
    case (Inr x)
    obtain res2 s2 where "f x s' = (res2, s2)" by (cases "f x s'")
    from agreesD [OF assms(2) this] this Inr m m' show ?thesis by (simp add: and_then_def)
  qed
qed

lemma agrees_bind [agrees_intros]:
  assumes "agrees up err m (\<lambda>x. x) m'" and "\<And>x. agrees up err (f x) val (f' x)"
  shows "agrees up err (and_then m f) val (and_then m' f')"
  using assms by (rule agrees_and_then)

lemma agrees_ok [agrees_intros]: "y = val x \<Longrightarrow> agrees up err (ok x) val (ok y)"
  by (simp add: agrees_def)

lemma agrees_throw [agrees_intros]: "e' = err e \<Longrightarrow> agrees up err (throw e) val (throw e')"
  by (simp add: agrees_def)

lemma agrees_if [agrees_intros]:
  "(b \<Longrightarrow> agrees up err m val m') \<Longrightarrow> (\<not> b \<Longrightarrow> agrees up err n val n') \<Longrightarrow>
     agrees up err (if b then m else n) val (if b then m' else n')"
  by simp

text \<open>The two views: errors with the same content, and connections without a deadline.\<close>

fun tokio_of :: "client_error \<Rightarrow> tokio_error stop" where
  "tokio_of (CE_Protocol e) = Stopped (TE_Protocol e)"
| "tokio_of (CE_Io e) = Stopped (TE_Io e)"
| "tokio_of (CE_InvalidDsn s) = Stopped (TE_InvalidDsn s)"
| "tokio_of CE_ConnectionClosed = Stopped TE_ConnectionClosed"
| "tokio_of (CE_ServerError code message) = Stopped (TE_ServerError code message)"

definition async_of :: "connection \<Rightarrow> async_connection" where
  "async_of k = \<lparr>a_stream = stream k, a_cas_info = conn_cas_info k, patience = None\<rparr>"

abbreviation agrees_conn :: "'a conn_action \<Rightarrow> 'a async_conn_action \<Rightarrow> bool" where
  "agrees_conn m m' \<equiv> agrees async_of tokio_of m (\<lambda>x. x) m'"

lemma agrees_cas_info [agrees_intros]: "agrees_conn cas_info async_cas_info"
  by (rule agreesI) (simp add: cas_info_def async_cas_info_def async_of_def)

lemma agrees_set_cas_info [agrees_intros]: "agrees_conn (set_cas_info cas) (async_set_cas_info cas)"
  by (rule agreesI) (simp add: set_cas_info_def async_set_cas_info_def async_of_def)

lemma agrees_read_exact [agrees_intros]: "agrees_conn (read_exact n) (async_read_exact n)"
  by (rule agreesI)
    (simp add: read_exact_def async_read_exact_def async_of_def moved_def patience_left_def
      split: prod.split sum.split)

lemma agrees_write_all [agrees_intros]: "agrees_conn (write_all data) (async_write_all data)"
  by (rule agreesI)
    (simp add: write_all_def async_write_all_def async_of_def moved_def patience_left_def
      split: prod.split sum.split)

lemma agrees_write_raw [agrees_intros]: "agrees_conn (write_raw data) (async_write_raw data)"
  unfolding write_raw_def async_write_raw_def by (rule agrees_write_all)

lemma agrees_read_exact_bytes [agrees_intros]:
  "agrees_conn (read_exact_bytes n) (async_read_exact_bytes n)"
  unfolding read_exact_bytes_def async_read_exact_bytes_def by (rule agrees_read_exact)

lemma agrees_send_framed [agrees_intros]: "agrees_conn (send_framed data) (async_send_framed data)"
  unfolding send_framed_def async_send_framed_def by (rule agrees_write_all)

lemma agrees_recv_framed [agrees_intros]: "agrees_conn recv_framed async_recv_framed"
  unfolding recv_framed_def async_recv_framed_def Let_def by (intro agrees_intros)

lemma agrees_write_and_close:
  "async_write_and_close data (async_of k) = (Inr (), write_and_close data k)"
  by (simp add: async_write_and_close_def write_and_close_def async_write_all_def async_of_def
      moved_def Let_def split: prod.splits sum.splits)

abbreviation agrees_net :: "'a net_action \<Rightarrow> ('a \<Rightarrow> 'b) \<Rightarrow> 'b async_net_action \<Rightarrow> bool" where
  "agrees_net m val m' \<equiv> agrees (\<lambda>net. net) tokio_of m val m'"

lemma agrees_connect [agrees_intros]: "agrees_net (connect_to h p tmo) async_of (async_connect h p tmo)"
  by (rule agreesI) (simp add: connect_to_def async_connect_def async_of_def Let_def split: list.split sum.split)

section \<open>Reading and writing with patience\<close>

lemma moved_simps [simp]: "moved n None = n" "moved n (Some m) = min n m"
  by (simp_all add: moved_def)

lemma patience_left_simps [simp]:
  "patience_left n None = None" "patience_left n (Some m) = Some (m - n)"
  by (simp_all add: patience_left_def)

lemma async_read_exact_length:
  "async_read_exact n k = (Inr bs, k') \<Longrightarrow>
     length (arrivals (a_stream k')) + n = length (arrivals (a_stream k))"
  by (auto simp: async_read_exact_def Let_def moved_def dest!: take_arrivals_ok
      split: prod.splits sum.splits if_splits option.splits)

lemma async_recv_framed_consumes:
  assumes "async_recv_framed k = (Inr bs, k')"
  shows "length (arrivals (a_stream k')) + 8 \<le> length (arrivals (a_stream k))"
proof -
  from assms obtain len k1 where "async_read_exact 4 k = (Inr len, k1)"
    and "async_read_exact (unat (be_word len :: u32) + 4) k1 = (Inr bs, k')"
    by (auto simp: async_recv_framed_def Let_def elim!: and_then_eq_InrE)
  from this [THEN async_read_exact_length] show ?thesis by simp
qed

end
