(* ===== verification/Async_Client.thy ===== *)
theory Async_Client
  imports Async_Transport Client
begin

text \<open>
  \<open>crates/cubrid-tokio/src/lib.rs\<close>: the asynchronous client. The code repeats the synchronous
  client with \<open>await\<close> at every operation on the stream, and has its own copies of the
  interpolation and of the parser of simple responses. Its \<open>QueryResult\<close> and \<open>Statement\<close>
  have the fields of the synchronous ones, so the same records model them.
\<close>

section \<open>Results and statements\<close>

type_synonym async_query_result = query_result

type_synonym async_statement = statement

definition async_column_names :: "async_query_result \<Rightarrow> bytes list" where
  "async_column_names r = map name (qr_columns r)"

definition async_result_len :: "async_query_result \<Rightarrow> usize" where
  "async_result_len r = length (qr_rows r)"

definition async_result_is_empty :: "async_query_result \<Rightarrow> bool" where
  "async_result_is_empty r \<longleftrightarrow> qr_rows r = []"

definition async_rows_iter :: "async_query_result \<Rightarrow> row list" where
  "async_rows_iter r = qr_rows r"

definition async_rows_into_iter :: "async_query_result \<Rightarrow> row list" where
  "async_rows_into_iter r = qr_rows r"

definition async_statement_bind_count :: "async_statement \<Rightarrow> i32" where
  "async_statement_bind_count s = stmt_bind_count s"

definition async_statement_type_of :: "async_statement \<Rightarrow> statement_type" where
  "async_statement_type_of s = stmt_statement_type s"

definition async_statement_columns :: "async_statement \<Rightarrow> column_metadata list" where
  "async_statement_columns s = stmt_columns s"

section \<open>Interpolation\<close>

fun async_format_value :: "float_fmt \<Rightarrow> db_value \<Rightarrow> bytes" where
  "async_format_value ff V_Null = bytes_of ''NULL''"
| "async_format_value ff (V_Bool v) = (if v then bytes_of ''1'' else bytes_of ''0'')"
| "async_format_value ff (V_Short v) = fmt_int (sint v)"
| "async_format_value ff (V_Int v) = fmt_int (sint v)"
| "async_format_value ff (V_Long v) = fmt_int (sint v)"
| "async_format_value ff (V_Float v) = show_f32 ff v"
| "async_format_value ff (V_Double v) = show_f64 ff v"
| "async_format_value ff (V_String v) = [39] @ replace_quotes v @ [39]"
| "async_format_value ff (V_Bytes v) = bytes_of ''X'' @ [39] @ concat (map hex2 v) @ [39]"
| "async_format_value ff (V_Date y mo d) = bytes_of ''DATE'' @ [39] @ show_date y mo d @ [39]"
| "async_format_value ff (V_Time h mi s) = bytes_of ''TIME'' @ [39] @ show_time h mi s @ [39]"
| "async_format_value ff (V_Timestamp y mo d h mi s) =
     bytes_of ''TIMESTAMP'' @ [39] @ show_date y mo d @ [32] @ show_time h mi s @ [39]"
| "async_format_value ff (V_Datetime y mo d h mi s ms) =
     bytes_of ''DATETIME'' @ [39] @ show_date y mo d @ [32] @ show_time h mi s @ [46]
     @ fmt_int_pad 3 (sint ms) @ [39]"

function async_interpolate_loop :: "float_fmt \<Rightarrow> db_value list \<Rightarrow> bytes list \<Rightarrow> bytes" where
  "async_interpolate_loop ff params [] = []"
| "async_interpolate_loop ff params (ch # cs) =
     (if ch = [63] \<and> params \<noteq> [] then
        async_format_value ff (hd params) @ async_interpolate_loop ff (tl params) cs
      else if ch = [39] then
        ch @ (case copy_literal cs of (out, left) \<Rightarrow> out @ async_interpolate_loop ff params left)
      else ch @ async_interpolate_loop ff params cs)"
  by pat_completeness auto
termination
  by (relation "measure (\<lambda>(ff, params, cs). length cs)")
    (auto simp: less_Suc_eq_le dest: copy_literal_length [OF sym])

definition async_interpolate_params :: "float_fmt \<Rightarrow> bytes \<Rightarrow> db_value list \<Rightarrow> bytes" where
  "async_interpolate_params ff sql params =
     (if params = [] then sql else async_interpolate_loop ff params (chars sql))"

lemma async_format_value: "async_format_value ff v = format_value ff v"
  by (cases v) simp_all

lemma async_interpolate_loop: "async_interpolate_loop ff ps cs = interpolate_loop ff ps cs"
  by (induction ff ps cs rule: interpolate_loop.induct) (simp_all add: async_format_value split: prod.split)

lemma async_interpolate_params: "async_interpolate_params ff sql ps = interpolate_params ff sql ps"
  by (simp add: async_interpolate_params_def interpolate_params_def async_interpolate_loop)

section \<open>State\<close>

text \<open>\<open>async_released\<close>, as in the synchronous client, keeps the streams that were given up.\<close>

record async_client =
  async_conn :: "async_connection option"
  async_auto_commit :: bool
  async_proto_version :: i32
  async_released :: "tcp list"

type_synonym 'a async_client_action = "(async_client, tokio_error stop, 'a) action"

definition async_on_conn :: "'a async_conn_action \<Rightarrow> 'a async_client_action" where
  "async_on_conn m c =
     (case async_conn c of
        None \<Rightarrow> (Inl (Err (Stopped TE_ConnectionClosed)), c)
      | Some k \<Rightarrow> (case m k of (res, k') \<Rightarrow> (res, c\<lparr>async_conn := Some k'\<rparr>)))"

definition async_lift_proto :: "(protocol_error, 'a) outcome \<Rightarrow> 'a async_conn_action" where
  "async_lift_proto res k = (map_err (\<lambda>e. Stopped (TE_Protocol e)) res, k)"

definition async_round_trip :: "(cas_info \<Rightarrow> bytes) \<Rightarrow> bytes async_conn_action" where
  "async_round_trip req =
     and_then async_cas_info (\<lambda>cas.
     and_then (async_send_framed (req cas)) (\<lambda>_. async_recv_framed))"

definition async_request ::
  "(cas_info \<Rightarrow> bytes) \<Rightarrow> (bytes \<Rightarrow> (protocol_error, 'a \<times> cas_info) outcome) \<Rightarrow> 'a async_conn_action" where
  "async_request req parse =
     and_then (async_round_trip req) (\<lambda>resp.
     and_then (async_lift_proto (parse resp)) (\<lambda>(result, new_cas_info).
     and_then (async_set_cas_info new_cas_info) (\<lambda>_. ok result)))"

definition async_parse_simple_body :: "cas_info parser" where
  "async_parse_simple_body =
     and_then parse_cas_info (\<lambda>cas.
     and_then parse_int (\<lambda>code.
     if sint code < 0 then return_server_error else ok cas))"

definition async_parse_simple_response :: "bytes \<Rightarrow> (protocol_error, cas_info) outcome" where
  "async_parse_simple_response data = run_parser async_parse_simple_body data"

section \<open>Connecting\<close>

definition async_on_new_conn ::
  "'a async_conn_action \<Rightarrow> async_connection \<Rightarrow> ('a \<times> async_connection) async_net_action" where
  "async_on_new_conn m k net =
     (case m k of
        (Inl e, k') \<Rightarrow> dropping (a_stream k') (\<lambda>net. (Inl e, net)) net
      | (Inr x, k') \<Rightarrow> (Inr (x, k'), net))"

definition async_open_database :: "dsn \<Rightarrow> open_database_result async_conn_action" where
  "async_open_database d =
     and_then (async_write_raw (write_open_database (database d) (user d) (password d))) (\<lambda>_.
     and_then async_recv_framed (\<lambda>response_data.
     and_then (async_lift_proto (parse_open_database response_data)) (\<lambda>result.
     and_then (async_set_cas_info (odr_cas_info result)) (\<lambda>_. ok result))))"

definition async_connect_with_dsn :: "dsn \<Rightarrow> async_client async_net_action" where
  "async_connect_with_dsn d =
     and_then (async_connect (host d) (port d) (timeout d)) (\<lambda>k.
     and_then (async_on_new_conn (and_then (async_write_raw write_client_info_exchange)
                 (\<lambda>_. async_read_exact_bytes BROKER_RESPONSE_SIZE)) k) (\<lambda>(port_bytes, k).
     let redirect_port = parse_client_info_exchange (take 4 port_bytes) in
     if sint redirect_port < 0 then
       dropping (a_stream k)
         (throw (Stopped (TE_ServerError redirect_port (bytes_of ''broker rejected connection''))))
     else
       and_then (if sint redirect_port > 0
                 then dropping (a_stream k) (async_connect (host d) (ucast redirect_port) (timeout d))
                 else ok k) (\<lambda>k.
       and_then (async_on_new_conn (async_open_database d) k) (\<lambda>(result, k).
       ok \<lparr>async_conn = Some k, async_auto_commit = auto_commit d,
            async_proto_version = odr_proto_version result, async_released = []\<rparr>))))"

definition async_client_connect :: "bytes \<Rightarrow> async_client async_net_action" where
  "async_client_connect text =
     (case dsn_parse text of
        Inl e \<Rightarrow> throw (Stopped (TE_InvalidDsn e))
      | Inr d \<Rightarrow> async_connect_with_dsn d)"

section \<open>Helpers of the operations\<close>

text \<open>Errors are ignored here, but a dropped future ends the whole operation.\<close>

definition async_close_query_handle :: "i32 \<Rightarrow> unit async_client_action" where
  "async_close_query_handle handle c =
     (case async_conn c of
        None \<Rightarrow> (Inr (), c)
      | Some k \<Rightarrow>
          (case async_send_framed (write_close_req_handle handle (a_cas_info k)) k of
             (Inl (Err Dropped), k') \<Rightarrow> (Inl (Err Dropped), c\<lparr>async_conn := Some k'\<rparr>)
           | (Inl _, k') \<Rightarrow> (Inr (), c\<lparr>async_conn := Some k'\<rparr>)
           | (Inr _, k') \<Rightarrow>
               (case async_recv_framed k' of
                  (Inl (Err Dropped), k'') \<Rightarrow> (Inl (Err Dropped), c\<lparr>async_conn := Some k''\<rparr>)
                | (_, k'') \<Rightarrow> (Inr (), c\<lparr>async_conn := Some k''\<rparr>))))"

definition async_end_tran :: "transaction_type \<Rightarrow> unit async_client_action" where
  "async_end_tran tran_type =
     async_on_conn (async_request (write_end_tran tran_type)
       (\<lambda>resp. case async_parse_simple_response resp of Inl e \<Rightarrow> Inl e | Inr cas \<Rightarrow> Inr ((), cas)))"

definition async_affected_rows :: "result_info list \<Rightarrow> u64" where
  "async_affected_rows infos = foldl (\<lambda>affected info. affected + i32_as_u64 (result_count info)) 0 infos"

definition async_prepare_and_execute ::
  "float_fmt \<Rightarrow> bytes \<Rightarrow> db_value list \<Rightarrow> prepare_and_execute_result async_client_action" where
  "async_prepare_and_execute ff sql params c =
     async_on_conn (async_request
       (write_prepare_and_execute (async_interpolate_params ff sql params) (async_auto_commit c))
       (\<lambda>resp. parse_prepare_and_execute resp (async_proto_version c))) c"

definition async_fetch_once ::
  "i32 \<Rightarrow> column_metadata list \<Rightarrow> statement_type \<Rightarrow> i32 \<Rightarrow> fetch_result async_client_action" where
  "async_fetch_once handle columns st fetched_count =
     async_on_conn (async_request (write_fetch handle fetched_count DEFAULT_FETCH_SIZE)
       (\<lambda>resp. parse_fetch resp columns st))"

definition async_pending :: "async_client \<Rightarrow> nat" where
  "async_pending c =
     (case async_conn c of None \<Rightarrow> 0 | Some k \<Rightarrow> length (arrivals (a_stream k)))"

lemma async_send_framed_arrivals:
  "arrivals (a_stream (snd (async_send_framed data k))) = arrivals (a_stream k)"
  by (simp add: async_send_framed_def async_write_all_def tcp_write_all_def Let_def split: option.splits)

lemma async_request_consumes:
  assumes "async_request req parse k = (Inr x, k')"
  shows "length (arrivals (a_stream k')) + 8 \<le> length (arrivals (a_stream k))"
proof -
  from assms obtain resp k1 where r: "async_round_trip req k = (Inr resp, k1)"
    and k': "a_stream k' = a_stream k1"
    by (auto simp: async_request_def async_lift_proto_def async_set_cas_info_def elim!: and_then_eq_InrE)
  from r obtain k0 where w: "async_send_framed (req (a_cas_info k)) k = (Inr (), k0)"
    and v: "async_recv_framed k0 = (Inr resp, k1)"
    by (auto simp: async_round_trip_def async_cas_info_def elim!: and_then_eq_InrE)
  from w have "arrivals (a_stream k0) = arrivals (a_stream k)"
    by (metis async_send_framed_arrivals snd_conv)
  with async_recv_framed_consumes [OF v] k' show ?thesis by simp
qed

lemma async_fetch_once_consumes:
  "async_fetch_once h cols st n c = (Inr x, c') \<Longrightarrow> async_pending c' + 8 \<le> async_pending c"
  by (auto simp: async_fetch_once_def async_on_conn_def async_pending_def dest: async_request_consumes
      split: option.splits prod.splits)

function async_fetch_loop ::
  "i32 \<Rightarrow> column_metadata list \<Rightarrow> statement_type \<Rightarrow> i32 \<Rightarrow> i32 \<Rightarrow> row list
     \<Rightarrow> row list async_client_action" where
  "async_fetch_loop h cols st total_count fetched_count rows c =
     (if sint fetched_count < sint total_count then
        (case async_fetch_once h cols st fetched_count c of
           (Inl e, c') \<Rightarrow> (Inl e, c')
         | (Inr fetched, c') \<Rightarrow>
             if fetch_tuple_count fetched = 0 then (Inr rows, c')
             else async_fetch_loop h cols st total_count (fetched_count + fetch_tuple_count fetched)
                    (rows @ fetch_rows fetched) c')
      else (Inr rows, c))"
  by pat_completeness auto
termination
  by (relation "measure (\<lambda>(h, cols, st, total_count, fetched, rows, c). async_pending c)")
    (auto dest: async_fetch_once_consumes [OF sym])

declare async_fetch_loop.simps [simp del]

definition async_fetch_remaining ::
  "i32 \<Rightarrow> column_metadata list \<Rightarrow> statement_type \<Rightarrow> i32 \<Rightarrow> row list \<Rightarrow> row list async_client_action" where
  "async_fetch_remaining handle columns st total_count rows =
     async_fetch_loop handle columns st total_count (usize_as_i32 (length rows)) rows"

section \<open>Operations\<close>

definition async_execute :: "float_fmt \<Rightarrow> bytes \<Rightarrow> db_value list \<Rightarrow> u64 async_client_action" where
  "async_execute ff sql params =
     and_then (async_prepare_and_execute ff sql params) (\<lambda>result.
     and_then (if sint (pae_query_handle result) > 0
               then async_close_query_handle (pae_query_handle result) else ok ()) (\<lambda>_.
     ok (async_affected_rows (pae_result_infos result))))"

definition async_query :: "float_fmt \<Rightarrow> bytes \<Rightarrow> db_value list \<Rightarrow> query_result async_client_action" where
  "async_query ff sql params =
     and_then (async_prepare_and_execute ff sql params) (\<lambda>result.
     let query_handle = pae_query_handle result;
         total_count = pae_total_tuple_count result;
         columns = pae_columns result;
         st = pae_statement_type result;
         all_rows = pae_rows result
     in
     and_then (if is_select st \<and> sint (usize_as_i32 (length all_rows)) < sint total_count
               then async_fetch_remaining query_handle columns st total_count all_rows
               else ok all_rows) (\<lambda>all_rows.
     and_then (if sint query_handle > 0 then async_close_query_handle query_handle else ok ()) (\<lambda>_.
     ok \<lparr>qr_columns = columns, qr_rows = all_rows, qr_total_count = total_count\<rparr>)))"

definition async_prepare :: "bytes \<Rightarrow> statement async_client_action" where
  "async_prepare sql c =
     and_then (async_on_conn (async_request (write_prepare sql (async_auto_commit c)) parse_prepare))
       (\<lambda>result.
     ok \<lparr>stmt_query_handle = prep_query_handle result,
          stmt_statement_type = prep_statement_type result,
          stmt_bind_count = prep_bind_count result, stmt_columns = prep_columns result,
          stmt_closed = False, stmt_sql = sql\<rparr>) c"

definition async_commit :: "unit async_client_action" where
  "async_commit = async_end_tran Commit"

definition async_rollback :: "unit async_client_action" where
  "async_rollback = async_end_tran Rollback"

definition async_ping :: "bytes async_client_action" where
  "async_ping c =
     async_on_conn (async_request (write_get_db_version (async_auto_commit c)) parse_get_db_version) c"

definition async_last_insert_id :: "float_fmt \<Rightarrow> (db_value \<Rightarrow> bytes) \<Rightarrow> bytes async_client_action" where
  "async_last_insert_id ff dbg =
     and_then (async_query ff (bytes_of ''SELECT LAST_INSERT_ID()'') []) (\<lambda>result.
     case qr_rows result of
       (v # _) # _ \<Rightarrow>
         ok (case v of V_Null \<Rightarrow> [] | V_Int i \<Rightarrow> fmt_int (sint i) | V_Long l \<Rightarrow> fmt_int (sint l)
             | V_Short s \<Rightarrow> fmt_int (sint s) | V_String s \<Rightarrow> s | other \<Rightarrow> dbg other)
     | _ \<Rightarrow> ok [])"

definition async_set_auto_commit :: "bool \<Rightarrow> async_client \<Rightarrow> async_client" where
  "async_set_auto_commit b c = c\<lparr>async_auto_commit := b\<rparr>"

definition async_get_auto_commit :: "async_client \<Rightarrow> bool" where
  "async_get_auto_commit c = async_auto_commit c"

definition async_get_proto_version :: "async_client \<Rightarrow> i32" where
  "async_get_proto_version c = async_proto_version c"

definition async_is_closed :: "async_client \<Rightarrow> bool" where
  "async_is_closed c \<longleftrightarrow> async_conn c = None"

text \<open>The connection is taken before the first \<open>await\<close>: even a dropped \<open>close\<close> closes.\<close>

definition async_close :: "unit async_client_action" where
  "async_close c =
     (case async_conn c of
        None \<Rightarrow> (Inr (), c)
      | Some k \<Rightarrow>
          (case async_write_and_close (write_con_close (a_cas_info k)) k of
             (Inl (Err Dropped), s) \<Rightarrow>
               (Inl (Err Dropped), c\<lparr>async_conn := None, async_released := async_released c @ [s]\<rparr>)
           | (_, s) \<Rightarrow> (Inr (), c\<lparr>async_conn := None, async_released := async_released c @ [s]\<rparr>)))"

text \<open>The client has no \<open>Drop\<close>: dropping it drops the stream, and writes nothing.\<close>

definition async_drop_client :: "async_client \<Rightarrow> async_client" where
  "async_drop_client c =
     (case async_conn c of
        None \<Rightarrow> c
      | Some k \<Rightarrow> c\<lparr>async_conn := None, async_released := async_released c @ [a_stream k]\<rparr>)"

section \<open>Statements\<close>

definition async_run_statement :: "statement \<Rightarrow> db_value list \<Rightarrow> execute_result async_client_action" where
  "async_run_statement s params c =
     async_on_conn (async_request
       (write_execute (stmt_query_handle s) (stmt_statement_type s) params (async_auto_commit c))
       (\<lambda>resp. parse_execute resp (stmt_columns s) (stmt_statement_type s) (async_proto_version c))) c"

definition async_statement_execute ::
  "float_fmt \<Rightarrow> statement \<Rightarrow> db_value list \<Rightarrow> u64 async_client_action" where
  "async_statement_execute ff s params =
     (if stmt_closed s then throw (Stopped TE_ConnectionClosed)
      else if params \<noteq> [] then async_execute ff (stmt_sql s) params
      else and_then (async_run_statement s params)
             (\<lambda>result. ok (async_affected_rows (exec_result_infos result))))"

definition async_query_with ::
  "float_fmt \<Rightarrow> statement \<Rightarrow> db_value list \<Rightarrow> query_result async_client_action" where
  "async_query_with ff s params =
     (if stmt_closed s then throw (Stopped TE_ConnectionClosed)
      else if params \<noteq> [] then async_query ff (stmt_sql s) params
      else
        and_then (async_run_statement s params) (\<lambda>result.
        let total_count = exec_total_tuple_count result; all_rows = exec_rows result in
        and_then (if is_select (stmt_statement_type s)
                     \<and> sint (usize_as_i32 (length all_rows)) < sint total_count
                  then async_fetch_remaining (stmt_query_handle s) (stmt_columns s)
                         (stmt_statement_type s) total_count all_rows
                  else ok all_rows) (\<lambda>all_rows.
        ok \<lparr>qr_columns = stmt_columns s, qr_rows = all_rows, qr_total_count = total_count\<rparr>)))"

text \<open>
  \<open>Statement::close\<close>: the statement counts as closed before the first \<open>await\<close>, and its handle
  is reset after the last.
\<close>

definition async_statement_close :: "(statement \<times> async_client, tokio_error stop, unit) action" where
  "async_statement_close = (\<lambda>(s, c).
     if stmt_closed s then (Inr (), (s, c))
     else
       let s = s\<lparr>stmt_closed := True\<rparr> in
       if sint (stmt_query_handle s) > 0
       then
         (case async_close_query_handle (stmt_query_handle s) c of
            (Inl e, c') \<Rightarrow> (Inl e, (s, c'))
          | (Inr _, c') \<Rightarrow> (Inr (), (s\<lparr>stmt_query_handle := 0\<rparr>, c')))
       else (Inr (), (s, c)))"

section \<open>Futures\<close>

text \<open>
  Running an operation whose future is kept until it has moved \<open>n\<close> bytes. A future that was
  dropped does not bound the next one: the patience of the connection is unlimited again.
\<close>

definition set_patience :: "nat option \<Rightarrow> async_client \<Rightarrow> async_client" where
  "set_patience p c = c\<lparr>async_conn := map_option (\<lambda>k. k\<lparr>patience := p\<rparr>) (async_conn c)\<rparr>"

definition dropped_after :: "nat \<Rightarrow> 'a async_client_action \<Rightarrow> 'a async_client_action" where
  "dropped_after n m c =
     (case m (set_patience (Some n) c) of (res, c') \<Rightarrow> (res, set_patience None c'))"

end
