(* ===== verification/Async_Laws.thy ===== *)
theory Async_Laws
  imports Async_Client Client_Laws
begin

text \<open>
  What the asynchronous client does: kept to the end, every operation does what the
  synchronous client does, so all its properties carry over; a future that is dropped
  before the end leaves the connection in the middle of an exchange.
\<close>

section \<open>Agreement of the operations\<close>

definition async_client_of :: "client \<Rightarrow> async_client" where
  "async_client_of c =
     \<lparr>async_conn = map_option async_of (conn c), async_auto_commit = client_auto_commit c,
      async_proto_version = client_proto_version c, async_released = released c\<rparr>"

lemma async_client_of_simps [simp]:
  "async_conn (async_client_of c) = map_option async_of (conn c)"
  "async_auto_commit (async_client_of c) = client_auto_commit c"
  "async_proto_version (async_client_of c) = client_proto_version c"
  "async_released (async_client_of c) = released c"
  by (simp_all add: async_client_of_def)

lemma async_client_of_update [simp]:
  "(async_client_of c)\<lparr>async_conn := map_option async_of k\<rparr> = async_client_of (c\<lparr>conn := k\<rparr>)"
  "(async_client_of c)\<lparr>async_conn := Some (async_of k')\<rparr> = async_client_of (c\<lparr>conn := Some k'\<rparr>)"
  "(async_client_of c)\<lparr>async_conn := None\<rparr> = async_client_of (c\<lparr>conn := None\<rparr>)"
  "(async_client_of c)\<lparr>async_released := ss\<rparr> = async_client_of (c\<lparr>released := ss\<rparr>)"
  "(async_client_of c)\<lparr>async_auto_commit := b\<rparr> = async_client_of (c\<lparr>client_auto_commit := b\<rparr>)"
  by (simp_all add: async_client_of_def)

text \<open>The outcome and the state of a synchronous operation, as the asynchronous one has them.\<close>

fun as_async :: "(client_error, 'a) outcome \<times> client \<Rightarrow> (tokio_error stop, 'a) outcome \<times> async_client" where
  "as_async (res, c) = (map_sum (map_fault tokio_of) (\<lambda>x. x) res, async_client_of c)"

abbreviation agrees_client :: "'a client_action \<Rightarrow> 'a async_client_action \<Rightarrow> bool" where
  "agrees_client m m' \<equiv> agrees async_client_of tokio_of m (\<lambda>x. x) m'"

lemma agrees_client_as_async: "agrees_client m m' \<longleftrightarrow> (\<forall>c. m' (async_client_of c) = as_async (m c))"
  unfolding agrees_def by (rule iff_allI) (simp split: prod.split)

lemma async_of_simps [simp]:
  "a_stream (async_of k) = stream k" "a_cas_info (async_of k) = conn_cas_info k"
  "patience (async_of k) = None"
  by (simp_all add: async_of_def)

lemma agrees_lift_proto [agrees_intros]: "agrees_conn (lift_proto res) (async_lift_proto res)"
proof (rule agreesI)
  have "map_fault (\<lambda>e. Stopped (TE_Protocol e)) f = map_fault tokio_of (map_fault CE_Protocol f)" for f
    by (cases f) simp_all
  then show "async_lift_proto res (async_of k) =
      (case lift_proto res k of (res, s') \<Rightarrow> (map_sum (map_fault tokio_of) (\<lambda>x. x) res, async_of s'))" for k
    by (cases res) (simp_all add: async_lift_proto_def lift_proto_def)
qed

lemma agrees_case_prod [agrees_intros]:
  "(\<And>x y. agrees up err (f x y) val (f' x y)) \<Longrightarrow>
     agrees up err (case p of (x, y) \<Rightarrow> f x y) val (case p of (x, y) \<Rightarrow> f' x y)"
  by (cases p) simp

lemma agrees_request [agrees_intros]: "agrees_conn (request req parse) (async_request req parse)"
  unfolding request_def async_request_def round_trip_def async_round_trip_def
  by (intro agrees_intros refl)

lemma agrees_on_conn [agrees_intros]:
  assumes "agrees_conn m m'"
  shows "agrees_client (on_conn m) (async_on_conn m')"
proof (rule agreesI)
  fix c
  show "async_on_conn m' (async_client_of c) =
      (case on_conn m c of (res, c') \<Rightarrow> (map_sum (map_fault tokio_of) (\<lambda>x. x) res, async_client_of c'))"
    using assms by (cases "conn c") (simp_all add: async_on_conn_def on_conn_def agrees_def split: prod.split)
qed

lemma async_parse_simple_response: "async_parse_simple_response = parse_simple_response"
  by (simp add: fun_eq_iff async_parse_simple_response_def parse_simple_response_def
      async_parse_simple_body_def parse_simple_body_def)

lemma agrees_end_tran [agrees_intros]: "agrees_client (end_tran t) (async_end_tran t)"
  unfolding end_tran_def async_end_tran_def async_parse_simple_response by (intro agrees_intros)

lemma agrees_prepare_and_execute [agrees_intros]:
  "agrees_client (prepare_and_execute ff sql ps) (async_prepare_and_execute ff sql ps)"
  by (rule agreesI)
    (simp add: prepare_and_execute_def async_prepare_and_execute_def async_interpolate_params
      agrees_on_conn [OF agrees_request, unfolded agrees_def])

lemma agrees_run_statement [agrees_intros]:
  "agrees_client (run_statement s ps) (async_run_statement s ps)"
  by (rule agreesI)
    (simp add: run_statement_def async_run_statement_def agrees_on_conn [OF agrees_request, unfolded agrees_def])

lemma agrees_ping [agrees_intros]: "agrees_client ping async_ping"
  by (rule agreesI)
    (simp add: ping_def async_ping_def agrees_on_conn [OF agrees_request, unfolded agrees_def])

lemma agrees_prepare [agrees_intros]: "agrees_client (prepare sql) (async_prepare sql)"
proof (rule agreesI)
  fix c :: client
  let ?on = "on_conn (request (write_prepare sql (client_auto_commit c)) parse_prepare)"
  let ?on' = "async_on_conn (async_request (write_prepare sql (client_auto_commit c)) parse_prepare)"
  let ?s = "\<lambda>r. \<lparr>stmt_query_handle = prep_query_handle r, stmt_statement_type = prep_statement_type r,
    stmt_bind_count = prep_bind_count r, stmt_columns = prep_columns r, stmt_closed = False, stmt_sql = sql\<rparr>"
  have "agrees_client (and_then ?on (\<lambda>r. ok (?s r))) (and_then ?on' (\<lambda>r. ok (?s r)))"
    by (intro agrees_intros refl)
  then show "async_prepare sql (async_client_of c) =
      (case prepare sql c of (res, c') \<Rightarrow> (map_sum (map_fault tokio_of) (\<lambda>x. x) res, async_client_of c'))"
    by (simp add: prepare_def async_prepare_def agrees_def)
qed

lemma map_fault_tokio_of [simp]: "map_fault tokio_of f \<noteq> Err Dropped"
proof (cases f)
  case (Err e)
  then show ?thesis by (cases e) simp_all
qed simp

lemma not_dropped:
  "(case map_fault tokio_of f of Err Dropped \<Rightarrow> x | _ \<Rightarrow> y) = y"
  using map_fault_tokio_of [of f] by (cases f) (auto split: stop.split)

lemma agrees_close_query_handle [agrees_intros]:
  "agrees_client (close_query_handle h) (async_close_query_handle h)"
proof (rule agreesI)
  fix c
  show "async_close_query_handle h (async_client_of c) =
      (case close_query_handle h c of (res, c') \<Rightarrow> (map_sum (map_fault tokio_of) (\<lambda>x. x) res, async_client_of c'))"
  proof (cases "conn c")
    case (Some k)
    obtain res k1 where s: "send_framed (write_close_req_handle h (conn_cas_info k)) k = (res, k1)"
      by (cases "send_framed (write_close_req_handle h (conn_cas_info k)) k")
    obtain res2 k2 where r: "recv_framed k1 = (res2, k2)" by (cases "recv_framed k1")
    from Some s r agreesD [OF agrees_send_framed s] agreesD [OF agrees_recv_framed r] show ?thesis
      by (cases res; cases res2)
        (simp_all add: async_close_query_handle_def close_query_handle_def not_dropped)
  qed (simp add: async_close_query_handle_def close_query_handle_def)
qed

lemma agrees_fetch_once: "agrees_client (fetch_once h cols st n) (async_fetch_once h cols st n)"
  unfolding fetch_once_def async_fetch_once_def by (intro agrees_intros)

lemma async_fetch_loop:
  "async_fetch_loop h cols st total_count n rows (async_client_of c)
     = as_async (fetch_loop h cols st total_count n rows c)"
proof (induction h cols st total_count n rows c rule: fetch_loop.induct)
  case (1 h cols st total_count n rows c)
  obtain res c' where f: "fetch_once h cols st n c = (res, c')" by (cases "fetch_once h cols st n c")
  note f' = agreesD [OF agrees_fetch_once f]
  show ?case
    using 1 f f'
    by (cases res) (simp_all add: fetch_loop.simps [of h cols st total_count n rows c]
        async_fetch_loop.simps [of h cols st total_count n rows "async_client_of c"])
qed

lemma agrees_fetch_remaining [agrees_intros]:
  "agrees_client (fetch_remaining h cols st t rows) (async_fetch_remaining h cols st t rows)"
  by (simp add: agrees_client_as_async fetch_remaining_def async_fetch_remaining_def async_fetch_loop)

lemma async_affected_rows: "async_affected_rows = affected_rows"
  by (simp add: fun_eq_iff async_affected_rows_def affected_rows_def)

lemma agrees_execute [agrees_intros]: "agrees_client (execute ff sql ps) (async_execute ff sql ps)"
  unfolding execute_def async_execute_def async_affected_rows by (intro agrees_intros refl)

lemma agrees_query [agrees_intros]: "agrees_client (query ff sql ps) (async_query ff sql ps)"
  unfolding query_def async_query_def Let_def by (intro agrees_intros refl)

lemma agrees_statement_execute [agrees_intros]:
  "agrees_client (statement_execute ff s ps) (async_statement_execute ff s ps)"
  unfolding statement_execute_def async_statement_execute_def async_affected_rows
  by (intro agrees_intros refl) simp_all

lemma agrees_query_with [agrees_intros]: "agrees_client (query_with ff s ps) (async_query_with ff s ps)"
  unfolding query_with_def async_query_with_def Let_def by (intro agrees_intros refl) simp_all

lemma agrees_last_insert_id [agrees_intros]:
  "agrees_client (last_insert_id ff dbg) (async_last_insert_id ff dbg)"
  unfolding last_insert_id_def async_last_insert_id_def
  by (intro agrees_intros) (auto split: list.split intro!: agrees_intros)

lemma agrees_close [agrees_intros]: "agrees_client close async_close"
  by (rule agreesI) (simp add: close_def async_close_def agrees_write_and_close split: option.split)

lemma agrees_on_new_conn:
  assumes "agrees_conn m m'"
  shows "agrees_net (on_new_conn m k) (map_prod (\<lambda>x. x) async_of) (async_on_new_conn m' (async_of k))"
  by (rule agreesI)
    (use assms in \<open>simp add: agrees_def on_new_conn_def async_on_new_conn_def dropping_def async_of_def
      split: prod.split sum.split\<close>)

lemma agrees_dropping:
  "agrees_net m val m' \<Longrightarrow> agrees_net (dropping (stream k) m) val (dropping (a_stream (async_of k)) m')"
  by (auto simp: agrees_def dropping_def async_of_def split: prod.splits)

lemma agrees_open_database: "agrees_conn (open_database d) (async_open_database d)"
  unfolding open_database_def async_open_database_def by (intro agrees_intros refl)

lemma agrees_new_conn:
  assumes "agrees_conn m m'"
    and "\<And>x k'. agrees_net (f (x, k')) val (f' (x, async_of k'))"
  shows "agrees_net (and_then (on_new_conn m k) f) val
    (and_then (async_on_new_conn m' (async_of k)) f')"
proof (rule agrees_and_then [OF agrees_on_new_conn [OF assms(1)]])
  show "agrees_net (f x) val (f' (map_prod (\<lambda>x. x) async_of x))" for x
    using assms(2) by (cases x) simp
qed

lemma agrees_connect_with_dsn:
  "agrees_net (connect_with_dsn d) async_client_of (async_connect_with_dsn d)"
  unfolding connect_with_dsn_def async_connect_with_dsn_def conn_connect_def Let_def
  apply (rule agrees_and_then [OF agrees_connect])
  apply (rule agrees_new_conn)
   apply (intro agrees_intros)
  apply (simp only: prod.case)
  apply (rule agrees_if)
   apply (rule agrees_dropping, rule agrees_throw, simp)
  apply (rule agrees_and_then [where val = async_of])
   apply (rule agrees_if, rule agrees_dropping, rule agrees_connect, rule agrees_ok, rule refl)
  apply (rule agrees_new_conn, rule agrees_open_database)
  apply (simp only: prod.case)
  apply (rule agrees_ok)
  apply (simp add: async_client_of_def)
  done

lemma agrees_client_connect: "agrees_net (client_connect url) async_client_of (async_client_connect url)"
  unfolding client_connect_def async_client_connect_def
  by (cases "dsn_parse url") (simp_all add: agrees_throw agrees_connect_with_dsn)

lemma agrees_statement_close:
  "async_statement_close (map_prod (\<lambda>s. s) async_client_of (s, c)) =
    (case statement_close (s, c) of (res, sc) \<Rightarrow> (map_sum (map_fault tokio_of) (\<lambda>x. x) res,
       map_prod (\<lambda>s. s) async_client_of sc))"
proof -
  have "fst (close_query_handle h c) = Inr ()" for h
    by (auto simp: close_query_handle_def split: option.split prod.split sum.split)
  then obtain c' where "close_query_handle (stmt_query_handle s) c = (Inr (), c')"
    by (metis prod.collapse)
  from agreesD [OF agrees_close_query_handle this] this show ?thesis
    by (simp add: statement_close_def async_statement_close_def Let_def)
qed

lemma agrees_as_async: "agrees_client m m' \<Longrightarrow> m' (async_client_of c) = as_async (m c)"
  by (simp add: agrees_client_as_async)

lemmas operations_as_async = agrees_execute [THEN agrees_as_async] agrees_query [THEN agrees_as_async]
  agrees_prepare [THEN agrees_as_async] agrees_end_tran [THEN agrees_as_async]
  agrees_ping [THEN agrees_as_async] agrees_last_insert_id [THEN agrees_as_async]
  agrees_close [THEN agrees_as_async] agrees_statement_execute [THEN agrees_as_async]
  agrees_query_with [THEN agrees_as_async]

text \<open>
  C9. The asynchronous client, with futures that are kept to the end, is the synchronous
  client: connecting and every operation of the client and of a statement have the same
  outcome (the same value, or the error with the same content), write the same bytes,
  consume the same arrivals and leave the same state.
\<close>

theorem async_matches_sync:
  "async_client_connect url net =
      (case client_connect url net of (res, net') \<Rightarrow> (map_sum (map_fault tokio_of) async_client_of res, net'))
    \<and> async_execute ff sql ps (async_client_of c) = as_async (execute ff sql ps c)
    \<and> async_query ff sql ps (async_client_of c) = as_async (query ff sql ps c)
    \<and> async_prepare sql (async_client_of c) = as_async (prepare sql c)
    \<and> async_commit (async_client_of c) = as_async (commit c)
    \<and> async_rollback (async_client_of c) = as_async (rollback c)
    \<and> async_ping (async_client_of c) = as_async (ping c)
    \<and> async_last_insert_id ff dbg (async_client_of c) = as_async (last_insert_id ff dbg c)
    \<and> async_close (async_client_of c) = as_async (close c)
    \<and> async_statement_execute ff s ps (async_client_of c) = as_async (statement_execute ff s ps c)
    \<and> async_query_with ff s ps (async_client_of c) = as_async (query_with ff s ps c)
    \<and> async_statement_close (s, async_client_of c) =
        (case statement_close (s, c) of (res, (s', c')) \<Rightarrow>
           (map_sum (map_fault tokio_of) (\<lambda>x. x) res, (s', async_client_of c')))"
proof -
  have "async_statement_close (s, async_client_of c) =
      (case statement_close (s, c) of (res, (s', c')) \<Rightarrow>
         (map_sum (map_fault tokio_of) (\<lambda>x. x) res, (s', async_client_of c')))"
    using agrees_statement_close [of s c] by (simp add: case_prod_unfold map_prod_def)
  moreover have "async_client_connect url net =
      (case client_connect url net of (res, net') \<Rightarrow> (map_sum (map_fault tokio_of) async_client_of res, net'))"
    using agrees_client_connect [of url] by (simp add: agrees_def)
  ultimately show ?thesis
    by (simp add: operations_as_async commit_def async_commit_def rollback_def async_rollback_def)
qed

section \<open>Dropped futures\<close>

text \<open>
  A future that is dropped after \<open>n\<close> bytes of an exchange has written the first \<open>n\<close> bytes of its
  request, or all of it and consumed the first bytes of the response.
\<close>

definition cut_short :: "nat \<Rightarrow> bytes \<Rightarrow> bytes \<Rightarrow> arrival list \<Rightarrow> connection \<Rightarrow> connection" where
  "cut_short n out reply as k =
     exchanged (take n out) (arrive (drop (n - length out) reply) @ as) k"

lemma take_arrivals_part:
  "m \<le> length bs \<Longrightarrow> take_arrivals m (arrive bs @ as) = (Inr (take m bs), arrive (drop m bs) @ as)"
  using take_arrivals_n [of m "take m bs" "arrive (drop m bs) @ as"]
  by (simp add: map_append [symmetric] del: map_append flip: append_assoc)

lemma dropped_recv:
  assumes "frameable resp" and "m < length (frame resp)"
    and "arrivals (stream k) = arrive (frame resp) @ as"
  shows "async_recv_framed ((async_of k)\<lparr>patience := Some m\<rparr>) =
    (Inl (Err Dropped), (async_of (with_arrivals k (arrive (drop m (frame resp)) @ as)))\<lparr>patience := Some 0\<rparr>)"
proof -
  let ?len = "be_bytes 4 (usize_as_u32 (length resp - 4))"
  have frame: "frame resp = ?len @ resp" by (simp add: frame_def)
  have n: "unat (be_word ?len :: u32) + 4 = length resp"
    using assms(1) unat_usize_as_u32 [of "length resp - 4"] by (simp add: frameable_def)
  show ?thesis
  proof (cases "m < 4")
    case True
    then show ?thesis
      using take_arrivals_part [of m "frame resp" as] assms(2,3)
      by (simp add: async_recv_framed_def and_then_def async_read_exact_def async_of_def min_def)
  next
    case False
    have "take_arrivals 4 (arrive (frame resp) @ as) = (Inr ?len, arrive resp @ as)"
      unfolding frame map_append append_assoc by (rule take_arrivals_n) simp
    moreover have "take_arrivals (m - 4) (arrive resp @ as) =
        (Inr (take (m - 4) resp), arrive (drop (m - 4) resp) @ as)"
      by (rule take_arrivals_part) (use assms(2) frame in simp)
    moreover have "m - 4 < length resp" using False assms(2) frame by simp
    ultimately show ?thesis
      using False assms(3) n frame
      by (simp add: async_recv_framed_def and_then_def async_read_exact_def async_of_def Let_def min_def)
  qed
qed

lemma dropped_request:
  assumes "healthy k" and "frameable resp" and "arrivals (stream k) = arrive (frame resp) @ as"
    and "out = req (conn_cas_info k)" and "n < length out + length (frame resp)"
  shows "async_request req parse ((async_of k)\<lparr>patience := Some n\<rparr>) =
    (Inl (Err Dropped), (async_of (cut_short n out (frame resp) as k))\<lparr>patience := Some 0\<rparr>)"
proof -
  let ?k = "\<lambda>m. (async_of (exchanged (take n out) (arrivals (stream k)) k))\<lparr>patience := Some m\<rparr>"
  have w: "async_send_framed out ((async_of k)\<lparr>patience := Some n\<rparr>) =
      (if n < length out then Inl (Err Dropped) else Inr (), ?k (n - length out))"
    using assms(1) by (simp add: async_send_framed_def async_write_all_def Let_def tcp_write_all_def
        healthy_def exchanged_def async_of_def)
  have "async_round_trip req ((async_of k)\<lparr>patience := Some n\<rparr>) =
      (Inl (Err Dropped), (async_of (cut_short n out (frame resp) as k))\<lparr>patience := Some 0\<rparr>)"
  proof (cases "n < length out")
    case True
    with w assms(3,4) show ?thesis
      by (simp add: async_round_trip_def and_then_def async_cas_info_def cut_short_def)
  next
    case False
    then have "async_recv_framed (?k (n - length out)) = (Inl (Err Dropped),
        (async_of (with_arrivals (exchanged (take n out) (arrivals (stream k)) k)
          (arrive (drop (n - length out) (frame resp)) @ as)))\<lparr>patience := Some 0\<rparr>)"
      using assms(2,3,5) by (intro dropped_recv) simp_all
    with w False assms(4) show ?thesis
      by (simp add: async_round_trip_def and_then_def async_cas_info_def cut_short_def exchanged_def)
  qed
  then show ?thesis by (simp add: async_request_def and_then_Inl)
qed

lemma dropped_on_conn:
  assumes "conn c = Some k" and "healthy k" and "frameable resp"
    and "arrivals (stream k) = arrive (frame resp) @ as"
    and "out = req (conn_cas_info k)" and "n < length out + length (frame resp)"
  shows "dropped_after n (async_on_conn (async_request req parse)) (async_client_of c) =
    (Inl (Err Dropped), async_client_of (c\<lparr>conn := Some (cut_short n out (frame resp) as k)\<rparr>))"
  using assms(1) dropped_request [OF assms(2-4), of out req n parse] assms(5,6)
  by (simp add: dropped_after_def set_patience_def async_on_conn_def async_client_of_def async_of_def)

text \<open>
  C30. A dropped future leaves the client in the middle of an exchange: a ping that is dropped
  after any number of bytes, fewer than the whole exchange has, keeps the client open, with the
  prefix of its request that was written and without the bytes of the response that were read.
  If it was dropped before reading anything, the next operation, a commit here, writes its
  request behind that prefix and takes the ping's response for its own: it reports success,
  and the server's answer to the commit stays unread.
\<close>

theorem dropped_future_desynchronises:
  assumes "conn c = Some k" and "healthy k"
    and "resp = cas_bytes cas @ be_bytes 4 rc @ body" and "0 \<le> sint (rc :: i32)" and "frameable resp"
    and "arrivals (stream k) = arrive (frame resp) @ as"
    and "out = write_get_db_version (client_auto_commit c) (conn_cas_info k)"
    and "n < length out + length (frame resp)" and "m \<le> length out"
  shows "dropped_after n async_ping (async_client_of c) =
      (Inl (Err Dropped), async_client_of (c\<lparr>conn := Some (cut_short n out (frame resp) as k)\<rparr>))
    \<and> \<not> async_is_closed (async_client_of (c\<lparr>conn := Some (cut_short n out (frame resp) as k)\<rparr>))
    \<and> async_commit (async_client_of (c\<lparr>conn := Some (cut_short m out (frame resp) as k)\<rparr>)) =
      (Inr (), async_client_of (c\<lparr>conn :=
         Some (after (take m out @ write_end_tran Commit (conn_cas_info k)) as cas k)\<rparr>))"
proof -
  have "async_auto_commit (set_patience p (async_client_of c)) = client_auto_commit c" for p
    by (simp add: set_patience_def)
  then have "dropped_after n async_ping (async_client_of c) =
      dropped_after n (async_on_conn (async_request (write_get_db_version (client_auto_commit c))
        parse_get_db_version)) (async_client_of c)"
    by (simp add: dropped_after_def async_ping_def)
  also have "\<dots> = (Inl (Err Dropped), async_client_of (c\<lparr>conn := Some (cut_short n out (frame resp) as k)\<rparr>))"
    by (rule dropped_on_conn) (use assms in simp_all)
  finally have ping: "dropped_after n async_ping (async_client_of c) = \<dots>" .
  let ?k1 = "cut_short m out (frame resp) as k"
  have "end_tran Commit (c\<lparr>conn := Some ?k1\<rparr>) =
      (Inr (), c\<lparr>conn := Some (after (write_end_tran Commit (conn_cas_info ?k1)) as cas ?k1)\<rparr>)"
    using end_tran_frame [of "c\<lparr>conn := Some ?k1\<rparr>" ?k1 rc cas body as Commit] assms
    by (simp add: cut_short_def)
  from agreesD [OF agrees_end_tran this] have "async_commit (async_client_of (c\<lparr>conn := Some ?k1\<rparr>)) =
      (Inr (), async_client_of (c\<lparr>conn := Some (after (write_end_tran Commit (conn_cas_info ?k1)) as cas ?k1)\<rparr>))"
    by (simp add: async_commit_def)
  with ping show ?thesis by (simp add: after_def exchanged_def cut_short_def async_is_closed_def)
qed

definition demo_version :: bytes where
  "demo_version = cas_bytes (CAS 5 6 7 8) @ be_bytes 4 (0 :: i32) @ bytes_of ''11.2''"

theorem dropped_future_desynchronises_witness:
  "dropped_after 27 async_ping (async_client_of (demo_client (frame demo_version))) =
      (Inl (Err Dropped), async_client_of ((demo_client (frame demo_version))\<lparr>conn := Some (cut_short 27
         (write_get_db_version True (CAS 1 2 3 4)) (frame demo_version) [] (demo_conn (frame demo_version)))\<rparr>))
    \<and> \<not> async_is_closed (async_client_of ((demo_client (frame demo_version))\<lparr>conn := Some (cut_short 27
         (write_get_db_version True (CAS 1 2 3 4)) (frame demo_version) [] (demo_conn (frame demo_version)))\<rparr>))
    \<and> async_commit (async_client_of ((demo_client (frame demo_version))\<lparr>conn := Some (cut_short 12
         (write_get_db_version True (CAS 1 2 3 4)) (frame demo_version) [] (demo_conn (frame demo_version)))\<rparr>)) =
      (Inr (), async_client_of ((demo_client (frame demo_version))\<lparr>conn := Some (after
         (take 12 (write_get_db_version True (CAS 1 2 3 4))
          @ write_end_tran Commit (conn_cas_info (demo_conn (frame demo_version)))) [] (CAS 5 6 7 8)
         (demo_conn (frame demo_version)))\<rparr>))"
  by (rule dropped_future_desynchronises [where rc = 0 and cas = "CAS 5 6 7 8" and body = "bytes_of ''11.2''"])
    (simp_all add: demo_version_def frameable_def write_get_db_version_def build_request_def
      frame_def prefixed_def)

section \<open>The end of a session\<close>

lemma dropped_client_sends_nothing:
  "async_conn c = Some k \<Longrightarrow> async_released (async_drop_client c) = async_released c @ [a_stream k]"
  by (simp add: async_drop_client_def)

end
