(* ===== verification/Pool_Spec.thy ===== *)
theory Pool_Spec
  imports Prelude
begin

text \<open>
  What a connection pool promises, without its locks, threads and counters: a number of
  slots, each free, held by a user, or holding a parked connection. Connections are handed
  out first in, first out; a new one is made only when none is parked; a sealed pool keeps
  nothing. A leaky pool may also lose a slot. The locale \<open>bounded_pool\<close> is the contract of an
  implementation: its steps are steps of the specification, or change nothing in it.
\<close>

section \<open>The specification\<close>

record 'c slots =
  free :: nat
  held :: nat
  parked :: "'c list"
  leaked :: nat
  sealed :: bool

text \<open>\<open>usable\<close> tells which connections may be parked, \<open>leaky\<close> whether slots can be lost.\<close>

inductive slot_step :: "('c \<Rightarrow> bool) \<Rightarrow> bool \<Rightarrow> 'c slots \<Rightarrow> 'c slots \<Rightarrow> bool" for usable leaky where
  take_parked: "\<not> sealed s \<Longrightarrow> parked s = c # cs \<Longrightarrow>
     slot_step usable leaky s (s\<lparr>parked := cs, held := Suc (held s)\<rparr>)"
| take_free: "\<not> sealed s \<Longrightarrow> parked s = [] \<Longrightarrow> free s = Suc n \<Longrightarrow>
     slot_step usable leaky s (s\<lparr>free := n, held := Suc (held s)\<rparr>)"
| give: "\<not> sealed s \<Longrightarrow> held s = Suc n \<Longrightarrow> usable c \<Longrightarrow>
     slot_step usable leaky s (s\<lparr>held := n, parked := parked s @ [c]\<rparr>)"
| discard: "held s = Suc n \<Longrightarrow> slot_step usable leaky s (s\<lparr>held := n, free := Suc (free s)\<rparr>)"
| leak: "leaky \<Longrightarrow> held s = Suc n \<Longrightarrow> slot_step usable leaky s (s\<lparr>held := n, leaked := Suc (leaked s)\<rparr>)"
| seal: "slot_step usable leaky s (s\<lparr>sealed := True, free := free s + length (parked s), parked := []\<rparr>)"

text \<open>The rules with the state after the step left to prove.\<close>

lemma take_parkedI:
  "\<not> sealed s \<Longrightarrow> parked s = c # cs \<Longrightarrow> t = s\<lparr>parked := cs, held := Suc (held s)\<rparr> \<Longrightarrow> slot_step usable leaky s t"
  and take_freeI:
  "\<not> sealed s \<Longrightarrow> parked s = [] \<Longrightarrow> free s = Suc n \<Longrightarrow> t = s\<lparr>free := n, held := Suc (held s)\<rparr> \<Longrightarrow>
     slot_step usable leaky s t"
  and giveI:
  "\<not> sealed s \<Longrightarrow> held s = Suc n \<Longrightarrow> usable c \<Longrightarrow> t = s\<lparr>held := n, parked := parked s @ [c]\<rparr> \<Longrightarrow>
     slot_step usable leaky s t"
  and discardI: "held s = Suc n \<Longrightarrow> t = s\<lparr>held := n, free := Suc (free s)\<rparr> \<Longrightarrow> slot_step usable leaky s t"
  and leakI:
  "leaky \<Longrightarrow> held s = Suc n \<Longrightarrow> t = s\<lparr>held := n, leaked := Suc (leaked s)\<rparr> \<Longrightarrow> slot_step usable leaky s t"
  and sealI:
  "t = s\<lparr>sealed := True, free := free s + length (parked s), parked := []\<rparr> \<Longrightarrow> slot_step usable leaky s t"
  by (auto intro: slot_step.intros)

inductive_cases slot_stepE: "slot_step usable leaky s t"

definition fresh_slots :: "('c \<Rightarrow> bool) \<Rightarrow> nat \<Rightarrow> 'c slots \<Rightarrow> bool" where
  "fresh_slots usable n s \<longleftrightarrow> held s = 0 \<and> leaked s = 0 \<and> \<not> sealed s
     \<and> free s + length (parked s) = n \<and> (\<forall>c \<in> set (parked s). usable c)"

text \<open>No slot appears or disappears, and what is parked is usable.\<close>

definition slots_inv :: "('c \<Rightarrow> bool) \<Rightarrow> bool \<Rightarrow> nat \<Rightarrow> 'c slots \<Rightarrow> bool" where
  "slots_inv usable leaky n s \<longleftrightarrow>
     free s + held s + length (parked s) + leaked s = n
     \<and> (\<forall>c \<in> set (parked s). usable c)
     \<and> (leaked s \<noteq> 0 \<longrightarrow> leaky)
     \<and> (sealed s \<longrightarrow> parked s = [])"

lemma fresh_slots_inv: "fresh_slots usable n s \<Longrightarrow> slots_inv usable leaky n s"
  by (simp add: fresh_slots_def slots_inv_def)

lemma slot_step_inv: "slot_step usable leaky s t \<Longrightarrow> slots_inv usable leaky n s \<Longrightarrow> slots_inv usable leaky n t"
  by (erule slot_stepE) (simp_all add: slots_inv_def)

lemma slot_step_sealed: "slot_step usable leaky s t \<Longrightarrow> sealed s \<Longrightarrow> sealed t"
  by (erule slot_stepE) auto

lemma slot_step_leaked: "slot_step usable leaky s t \<Longrightarrow> leaked s \<le> leaked t"
  by (erule slot_stepE) auto

section \<open>Implementations\<close>

locale bounded_pool =
  fixes start :: "'s \<Rightarrow> bool"
    and step :: "'s \<Rightarrow> 's \<Rightarrow> bool"
    and inv :: "'s \<Rightarrow> bool"
    and slots_of :: "'s \<Rightarrow> 'c slots"
    and usable :: "'c \<Rightarrow> bool"
    and leaky :: bool
    and limit :: nat
  assumes start_inv: "start s \<Longrightarrow> inv s"
    and start_fresh: "start s \<Longrightarrow> fresh_slots usable limit (slots_of s)"
    and step_inv: "inv s \<Longrightarrow> step s t \<Longrightarrow> inv t"
    and simulates: "inv s \<Longrightarrow> step s t \<Longrightarrow> (slot_step usable leaky)\<^sup>=\<^sup>= (slots_of s) (slots_of t)"
begin

lemma steps_inv: "step\<^sup>*\<^sup>* s t \<Longrightarrow> inv s \<Longrightarrow> inv t"
  by (induction rule: rtranclp_induct) (auto intro: step_inv)

text \<open>Every run of the implementation is a run of the specification.\<close>

lemma runs_simulated:
  "step\<^sup>*\<^sup>* s t \<Longrightarrow> inv s \<Longrightarrow> (slot_step usable leaky)\<^sup>*\<^sup>* (slots_of s) (slots_of t)"
proof (induction rule: rtranclp_induct)
  case (step u v)
  have "(slot_step usable leaky)\<^sup>=\<^sup>= (slots_of u) (slots_of v)"
    by (rule simulates [OF steps_inv [OF step.hyps(1) step.prems] step.hyps(2)])
  with step.IH [OF step.prems] show ?case by (auto intro: rtranclp.rtrancl_into_rtrancl)
qed simp

lemma slots_conserved:
  assumes "start s" and "step\<^sup>*\<^sup>* s t"
  shows "slots_inv usable leaky limit (slots_of t)"
proof -
  have "slots_inv usable leaky limit v"
    if "(slot_step usable leaky)\<^sup>*\<^sup>* u v" and "slots_inv usable leaky limit u" for u v :: "'c slots"
    using that by (induction rule: rtranclp_induct) (auto intro: slot_step_inv)
  with runs_simulated [OF assms(2) start_inv [OF assms(1)]] fresh_slots_inv [OF start_fresh [OF assms(1)]]
  show ?thesis by blast
qed

text \<open>A pool that does not leak has all its slots back when nobody holds one.\<close>

lemma no_leak:
  "start s \<Longrightarrow> step\<^sup>*\<^sup>* s t \<Longrightarrow> \<not> leaky \<Longrightarrow>
     free (slots_of t) + held (slots_of t) + length (parked (slots_of t)) = limit"
  using slots_conserved [of s t] by (auto simp: slots_inv_def)

lemma sealed_for_good:
  assumes "inv s" and "step\<^sup>*\<^sup>* s t" and "sealed (slots_of s)"
  shows "sealed (slots_of t)"
proof -
  have "sealed v" if "(slot_step usable leaky)\<^sup>*\<^sup>* u v" and "sealed u" for u v :: "'c slots"
    using that by (induction rule: rtranclp_induct) (auto intro: slot_step_sealed)
  with runs_simulated [OF assms(2,1)] assms(3) show ?thesis by blast
qed

lemma leaked_for_good:
  assumes "inv s" and "step\<^sup>*\<^sup>* s t"
  shows "leaked (slots_of s) \<le> leaked (slots_of t)"
proof -
  have "leaked u \<le> leaked v" if "(slot_step usable leaky)\<^sup>*\<^sup>* u v" for u v :: "'c slots"
    using that by (induction rule: rtranclp_induct) (auto dest: slot_step_leaked)
  with runs_simulated [OF assms(2,1)] show ?thesis by blast
qed

end

end
