(* ===== verification/Pool.thy ===== *)
theory Pool
  imports Client Async_Transport Pool_Spec
begin

text \<open>
  \<open>crates/cubrid-pool/src/lib.rs\<close>, configuration, status and \<open>SyncPool\<close>. The functions are
  the critical sections of the code: each runs under the mutex, and \<open>get\<close> releases it while
  it connects, so other threads may run between its two sections. The threads are in the
  step relation: the pool, the connections that are checked out, and the threads that are
  connecting.
\<close>

section \<open>Configuration\<close>

record pool_config =
  cfg_dsn :: bytes
  cfg_max_size :: usize
  cfg_min_idle :: usize

datatype pool_error =
    PL_Client client_error
  | PL_AsyncClient tokio_error
  | PL_PoolExhausted usize
  | PL_PoolClosed
  | PL_InvalidConfig bytes

fun display_pool_error :: "(io_error \<Rightarrow> bytes) \<Rightarrow> pool_error \<Rightarrow> bytes" where
  "display_pool_error io (PL_Client e) = bytes_of ''client error: '' @ display_client_error io e"
| "display_pool_error io (PL_AsyncClient e) =
     bytes_of ''async client error: '' @ display_tokio_error io e"
| "display_pool_error io (PL_PoolExhausted m) =
     bytes_of ''pool exhausted: max '' @ fmt_int (int m) @ bytes_of '' connections''"
| "display_pool_error io PL_PoolClosed = bytes_of ''pool closed''"
| "display_pool_error io (PL_InvalidConfig m) = bytes_of ''invalid config: '' @ m"

definition pool_config_new :: "bytes \<Rightarrow> pool_config" where
  "pool_config_new dsn = \<lparr>cfg_dsn = dsn, cfg_max_size = 10, cfg_min_idle = 1\<rparr>"

definition max_size :: "usize \<Rightarrow> pool_config \<Rightarrow> pool_config" where
  "max_size n cfg = cfg\<lparr>cfg_max_size := n\<rparr>"

definition min_idle :: "usize \<Rightarrow> pool_config \<Rightarrow> pool_config" where
  "min_idle n cfg = cfg\<lparr>cfg_min_idle := n\<rparr>"

definition pool_config_default :: pool_config where
  "pool_config_default = \<lparr>cfg_dsn = [], cfg_max_size = 10, cfg_min_idle = 1\<rparr>"

definition validate :: "pool_config \<Rightarrow> pool_error + unit" where
  "validate cfg =
     (if cfg_dsn cfg = [] then Inl (PL_InvalidConfig (bytes_of ''DSN cannot be empty''))
      else if cfg_max_size cfg = 0 then
        Inl (PL_InvalidConfig (bytes_of ''max_size must be greater than 0''))
      else if cfg_min_idle cfg > cfg_max_size cfg then
        Inl (PL_InvalidConfig (bytes_of ''min_idle cannot exceed max_size''))
      else Inr ())"

section \<open>The pool and its critical sections\<close>

record pool_inner =
  config :: pool_config
  idle :: "client list"
  active_count :: usize
  closed :: bool

record pool_status =
  ps_max_size :: usize
  ps_idle_count :: usize
  ps_active_count :: usize
  ps_closed :: bool

text \<open>\<open>active_count -= 1\<close> on a \<open>usize\<close>: it wraps below zero (and panics in a debug build).\<close>

definition dec_usize :: "usize \<Rightarrow> usize" where
  "dec_usize n = (if n = 0 then 2 ^ 64 - 1 else n - 1)"

text \<open>The first section of \<open>get\<close>: what the caller does next.\<close>

datatype 'c claim =
    Claim_Closed
  | Claim_Idle 'c
  | Claim_Connect bytes
  | Claim_Exhausted usize

definition get_section :: "pool_inner \<Rightarrow> client claim \<times> pool_inner" where
  "get_section p =
     (if closed p then (Claim_Closed, p)
      else
        (case idle p of
           c # cs \<Rightarrow> (Claim_Idle c, p\<lparr>idle := cs, active_count := active_count p + 1\<rparr>)
         | [] \<Rightarrow>
             let total_count = active_count p + length (idle p) in
             if total_count < cfg_max_size (config p)
             then (Claim_Connect (cfg_dsn (config p)), p\<lparr>active_count := active_count p + 1\<rparr>)
             else (Claim_Exhausted (cfg_max_size (config p)), p)))"

text \<open>The second section of \<open>get\<close>, after a failed connect.\<close>

definition connect_failed :: "pool_inner \<Rightarrow> pool_inner" where
  "connect_failed p = p\<lparr>active_count := dec_usize (active_count p)\<rparr>"

text \<open>
  \<open>Drop for SyncPooledConnection\<close>, with the client it holds: the clients that are dropped,
  as dropping leaves them, and the pool.
\<close>

definition put_back :: "client \<Rightarrow> pool_inner \<Rightarrow> client list \<times> pool_inner" where
  "put_back c p =
     (let p = p\<lparr>active_count := dec_usize (active_count p)\<rparr>
      in if \<not> closed p \<and> \<not> is_closed c then ([], p\<lparr>idle := idle p @ [c]\<rparr>) else ([drop_client c], p))"

text \<open>
  A pooled connection is an option, emptied when the connection is dropped; \<open>deref\<close> and
  \<open>deref_mut\<close> unwrap it. Both kinds of pool have their own copy of this type.
\<close>

record 'c pooled_connection =
  pooled_client :: "'c option"

definition pooled :: "'c \<Rightarrow> 'c pooled_connection" where
  "pooled c = \<lparr>pooled_client = Some c\<rparr>"

definition deref :: "'c pooled_connection \<Rightarrow> ('e, 'c) outcome" where
  "deref h = (case pooled_client h of Some c \<Rightarrow> Inr c | None \<Rightarrow> Inl (Panic Unwrap_Failed))"

definition deref_mut :: "('c \<Rightarrow> 'c) \<Rightarrow> 'c pooled_connection \<Rightarrow> ('e, 'c pooled_connection) outcome" where
  "deref_mut f h =
     (case pooled_client h of Some c \<Rightarrow> Inr (pooled (f c)) | None \<Rightarrow> Inl (Panic Unwrap_Failed))"

definition drop_connection :: "client pooled_connection \<Rightarrow> pool_inner \<Rightarrow> client list \<times> pool_inner" where
  "drop_connection h p = (case pooled_client h of Some c \<Rightarrow> put_back c p | None \<Rightarrow> ([], p))"

text \<open>No use of a connection panics: it holds a client until it is dropped.\<close>

lemma pooled_never_unwraps_none [simp]:
  "deref (pooled c) = Inr c" "deref_mut f (pooled c) = Inr (pooled (f c))"
  "drop_connection (pooled c) p = put_back c p"
  by (simp_all add: deref_def deref_mut_def pooled_def drop_connection_def)

definition status :: "pool_inner \<Rightarrow> pool_status" where
  "status p = \<lparr>ps_max_size = cfg_max_size (config p), ps_idle_count = length (idle p),
     ps_active_count = active_count p, ps_closed = closed p\<rparr>"

definition status_total :: "pool_status \<Rightarrow> usize" where
  "status_total s = ps_idle_count s + ps_active_count s"

text \<open>\<open>SyncPool::close\<close>: the idle clients are closed and drained; the result pairs the pool
  with the clients as they are after closing.\<close>

definition close_pool :: "pool_inner \<Rightarrow> client list \<times> pool_inner" where
  "close_pool p = (map (\<lambda>c. snd (close c)) (idle p), p\<lparr>closed := True, idle := []\<rparr>)"

section \<open>Sequential operations\<close>

type_synonym 'a pool_action = "(pool_inner \<times> network, pool_error, 'a) action"

fun connect_idle :: "nat \<Rightarrow> bytes \<Rightarrow> client list \<Rightarrow> (network, pool_error, client list) action" where
  "connect_idle 0 dsn cs net = (Inr cs, net)"
| "connect_idle (Suc n) dsn cs net =
     (case client_connect dsn net of
        (Inl e, net') \<Rightarrow> (Inl (map_fault PL_Client e), net')
      | (Inr c, net') \<Rightarrow> connect_idle n dsn (cs @ [c]) net')"

text \<open>
  \<open>VecDeque::with_capacity(config.max_size)\<close> panics when the queue would exceed
  \<open>isize::MAX\<close> bytes; \<open>size_of\<close> is the size of a client in bytes, which the compiler chooses.
  When a connection fails, the clients made so far are dropped.
\<close>

definition deque_with_capacity :: "nat \<Rightarrow> usize \<Rightarrow> ('s, 'e, unit) action" where
  "deque_with_capacity size_of n = (if n * size_of > isize_MAX then panic Capacity_Overflow else ok ())"

definition pool_new :: "nat \<Rightarrow> pool_config \<Rightarrow> (network, pool_error, pool_inner) action" where
  "pool_new size_of cfg =
     (case validate cfg of
        Inl e \<Rightarrow> throw e
      | Inr _ \<Rightarrow>
          and_then (deque_with_capacity size_of (cfg_max_size cfg)) (\<lambda>_.
          and_then (connect_idle (cfg_min_idle cfg) (cfg_dsn cfg) []) (\<lambda>cs.
          ok \<lparr>config = cfg, idle = cs, active_count = 0, closed = False\<rparr>)))"

definition get :: "client pool_action" where
  "get = (\<lambda>(p, net).
     (case get_section p of
        (Claim_Closed, p') \<Rightarrow> (Inl (Err PL_PoolClosed), (p', net))
      | (Claim_Idle c, p') \<Rightarrow> (Inr c, (p', net))
      | (Claim_Exhausted n, p') \<Rightarrow> (Inl (Err (PL_PoolExhausted n)), (p', net))
      | (Claim_Connect dsn, p') \<Rightarrow>
          (case client_connect dsn net of
             (Inr c, net') \<Rightarrow> (Inr c, (p', net'))
           | (Inl e, net') \<Rightarrow> (Inl (map_fault PL_Client e), (connect_failed p', net')))))"

section \<open>Threads\<close>

text \<open>
  The pool with its users: the clients that are checked out, and how many threads have left
  the first section of \<open>get\<close> to connect. A step is one critical section, or a user doing
  something with its client, which may leave it in any state (closed, for example).
\<close>

record pool_state =
  inner :: pool_inner
  in_use :: "client list"
  connecting :: nat

inductive pool_step :: "pool_state \<Rightarrow> pool_state \<Rightarrow> bool" where
  get_idle: "get_section (inner s) = (Claim_Idle c, p) \<Longrightarrow>
     pool_step s (s\<lparr>inner := p, in_use := c # in_use s\<rparr>)"
| get_connect: "get_section (inner s) = (Claim_Connect dsn, p) \<Longrightarrow>
     pool_step s (s\<lparr>inner := p, connecting := connecting s + 1\<rparr>)"
| get_refused: "get_section (inner s) = (r, p) \<Longrightarrow> r = Claim_Closed \<or> r = Claim_Exhausted n \<Longrightarrow>
     pool_step s (s\<lparr>inner := p\<rparr>)"
| connected: "0 < connecting s \<Longrightarrow> \<not> is_closed c \<Longrightarrow>
     pool_step s (s\<lparr>in_use := c # in_use s, connecting := connecting s - 1\<rparr>)"
| connect_error: "0 < connecting s \<Longrightarrow>
     pool_step s (s\<lparr>inner := connect_failed (inner s), connecting := connecting s - 1\<rparr>)"
| use_client: "in_use s = xs @ c # ys \<Longrightarrow> pool_step s (s\<lparr>in_use := xs @ c' # ys\<rparr>)"
| drop_client: "in_use s = xs @ c # ys \<Longrightarrow>
     pool_step s (s\<lparr>inner := snd (put_back c (inner s)), in_use := xs @ ys\<rparr>)"
| close: "pool_step s (s\<lparr>inner := snd (close_pool (inner s))\<rparr>)"

inductive_cases pool_stepE: "pool_step s t"

inductive reachable :: "pool_config \<Rightarrow> pool_state \<Rightarrow> bool" for cfg where
  start: "pool_new size_of cfg net = (Inr p, net') \<Longrightarrow>
     reachable cfg \<lparr>inner = p, in_use = [], connecting = 0\<rparr>"
| step: "reachable cfg s \<Longrightarrow> pool_step s t \<Longrightarrow> reachable cfg t"

text \<open>
  The invariant: the count of active connections is exactly the connections checked out and
  being made; all connections together stay within the limit; the idle ones are open; and a
  closed pool keeps none.
\<close>

definition pool_inv :: "pool_config \<Rightarrow> pool_state \<Rightarrow> bool" where
  "pool_inv cfg s \<longleftrightarrow>
     config (inner s) = cfg
     \<and> active_count (inner s) = length (in_use s) + connecting s
     \<and> active_count (inner s) + length (idle (inner s)) \<le> cfg_max_size cfg
     \<and> (\<forall>c \<in> set (idle (inner s)). \<not> is_closed c)
     \<and> (closed (inner s) \<longrightarrow> idle (inner s) = [])"

lemma connect_open:
  assumes "connect_with_dsn d net = (Inr c, net')"
  shows "\<not> is_closed c"
proof -
  have "conn c \<noteq> None"
    if "and_then m (\<lambda>(r, k). ok \<lparr>conn = Some k, client_auto_commit = a,
        client_proto_version = f r, released = []\<rparr>) net = (Inr c, net')"
    for m :: "('r \<times> connection) net_action" and a f net
    using that by (auto elim!: and_then_eq_InrE)
  with assms show ?thesis
    unfolding connect_with_dsn_def Let_def is_closed_def
    by (elim and_then_eq_InrE) (auto simp: dropping_def split: prod.splits if_splits elim!: and_then_eq_InrE)
qed

lemma client_connect_open: "client_connect dsn net = (Inr c, net') \<Longrightarrow> \<not> is_closed c"
  by (auto simp: client_connect_def connect_open split: sum.splits)

lemma connect_idle_open:
  "connect_idle n dsn cs net = (Inr cs', net') \<Longrightarrow> \<forall>c \<in> set cs. \<not> is_closed c \<Longrightarrow>
     length cs' = length cs + n \<and> (\<forall>c \<in> set cs'. \<not> is_closed c)"
proof (induction n arbitrary: cs net)
  case (Suc n)
  obtain res net1 where e: "client_connect dsn net = (res, net1)"
    by (cases "client_connect dsn net")
  with Suc.prems(1) obtain c where c: "res = Inr c" by (cases res) simp_all
  with e Suc.prems(1) have r: "connect_idle n dsn (cs @ [c]) net1 = (Inr cs', net')" by simp
  have "\<forall>c \<in> set (cs @ [c]). \<not> is_closed c"
    using Suc.prems(2) client_connect_open [OF e [unfolded c]] by simp
  from Suc.IH [OF r this] show ?case by simp
qed simp

lemma pool_new_inv:
  assumes "pool_new size_of cfg net = (Inr p, net')"
  shows "pool_inv cfg \<lparr>inner = p, in_use = [], connecting = 0\<rparr>"
proof -
  from assms have "validate cfg = Inr ()" by (auto simp: pool_new_def split: sum.splits)
  then have "cfg_min_idle cfg \<le> cfg_max_size cfg" by (auto simp: validate_def split: if_splits)
  moreover from assms obtain cs where "connect_idle (cfg_min_idle cfg) (cfg_dsn cfg) [] net = (Inr cs, net')"
    and "p = \<lparr>config = cfg, idle = cs, active_count = 0, closed = False\<rparr>"
    by (auto simp: pool_new_def deque_with_capacity_def elim!: and_then_eq_InrE split: sum.splits if_splits)
  ultimately show ?thesis
    using connect_idle_open [of "cfg_min_idle cfg" "cfg_dsn cfg" "[]" net cs net']
    by (auto simp: pool_inv_def)
qed

lemma pool_step_inv: "pool_inv cfg s \<Longrightarrow> pool_step s t \<Longrightarrow> pool_inv cfg t"
  by (erule pool_stepE)
    (auto simp: pool_inv_def get_section_def connect_failed_def put_back_def dec_usize_def
      close_pool_def Let_def split: if_splits list.splits)

lemma reachable_inv: "reachable cfg s \<Longrightarrow> pool_inv cfg s"
  by (induction rule: reachable.induct) (auto intro: pool_new_inv pool_step_inv)

section \<open>Refinement\<close>

text \<open>The slots of a pool: what its threads hold, what is idle, and the rest of the limit.\<close>

definition sync_slots :: "pool_state \<Rightarrow> client slots" where
  "sync_slots s =
     \<lparr>free = cfg_max_size (config (inner s)) - (active_count (inner s) + length (idle (inner s))),
      held = length (in_use s) + connecting s, parked = idle (inner s), leaked = 0,
      sealed = closed (inner s)\<rparr>"

definition pool_start :: "pool_config \<Rightarrow> pool_state \<Rightarrow> bool" where
  "pool_start cfg s \<longleftrightarrow> (\<exists>size_of net p net'. pool_new size_of cfg net = (Inr p, net')
     \<and> s = \<lparr>inner = p, in_use = [], connecting = 0\<rparr>)"

lemma reachable_steps: "reachable cfg s \<Longrightarrow> \<exists>s0. pool_start cfg s0 \<and> pool_step\<^sup>*\<^sup>* s0 s"
proof (induction rule: reachable.induct)
  case (start size_of net p net')
  then have "pool_start cfg \<lparr>inner = p, in_use = [], connecting = 0\<rparr>" by (auto simp: pool_start_def)
  then show ?case by blast
next
  case (step s t)
  then show ?case by (meson rtranclp.rtrancl_into_rtrancl)
qed

lemma put_back_simulated:
  assumes "pool_inv cfg s" and "in_use s = xs @ c # ys"
  shows "slot_step (\<lambda>c. \<not> is_closed c) False (sync_slots s)
    (sync_slots (s\<lparr>inner := snd (put_back c (inner s)), in_use := xs @ ys\<rparr>))"
proof (cases "\<not> closed (inner s) \<and> \<not> is_closed c")
  case True
  show ?thesis
    by (rule giveI [where n = "length xs + length ys + connecting s" and c = c])
      (use True assms in \<open>simp_all add: sync_slots_def pool_inv_def put_back_def dec_usize_def\<close>)
next
  case False
  then have "snd (put_back c (inner s)) = (inner s)\<lparr>active_count := active_count (inner s) - 1\<rparr>"
    using assms by (auto simp: put_back_def pool_inv_def dec_usize_def Let_def)
  then show ?thesis
    by (intro discardI [where n = "length xs + length ys + connecting s"])
      (use assms in \<open>simp_all add: sync_slots_def pool_inv_def Suc_diff_Suc\<close>)
qed

lemma pool_step_simulated:
  assumes "pool_inv cfg s" and "pool_step s t"
  shows "(slot_step (\<lambda>c. \<not> is_closed c) False)\<^sup>=\<^sup>= (sync_slots s) (sync_slots t)"
  using assms(2)
proof cases
  case (get_idle c p)
  then obtain cs where "\<not> closed (inner s)" and "idle (inner s) = c # cs"
    and "p = (inner s)\<lparr>idle := cs, active_count := active_count (inner s) + 1\<rparr>"
    by (auto simp: get_section_def Let_def split: if_splits list.splits)
  then have "slot_step (\<lambda>c. \<not> is_closed c) False (sync_slots s) (sync_slots t)"
    by (intro take_parkedI [where c = c and cs = cs]) (use assms(1) get_idle in \<open>simp_all add: sync_slots_def\<close>)
  then show ?thesis by blast
next
  case (get_connect dsn p)
  then have "\<not> closed (inner s)" and "idle (inner s) = []"
    and "active_count (inner s) < cfg_max_size (config (inner s))"
    and "p = (inner s)\<lparr>active_count := active_count (inner s) + 1\<rparr>"
    by (auto simp: get_section_def Let_def split: if_splits list.splits)
  then have "slot_step (\<lambda>c. \<not> is_closed c) False (sync_slots s) (sync_slots t)"
    by (intro take_freeI [where n = "free (sync_slots s) - 1"])
      (use get_connect in \<open>simp_all add: sync_slots_def\<close>)
  then show ?thesis by blast
next
  case (get_refused r p n)
  then show ?thesis by (auto simp: get_section_def Let_def split: if_splits list.splits)
next
  case (connected c)
  then show ?thesis by (simp add: sync_slots_def)
next
  case connect_error
  then have "slot_step (\<lambda>c. \<not> is_closed c) False (sync_slots s) (sync_slots t)"
    by (intro discardI [where n = "length (in_use s) + (connecting s - 1)"])
      (use assms(1) in \<open>auto simp: sync_slots_def pool_inv_def connect_failed_def dec_usize_def\<close>)
  then show ?thesis by blast
next
  case (use_client xs c ys c')
  then show ?thesis by (simp add: sync_slots_def)
next
  case (drop_client xs c ys)
  then show ?thesis using put_back_simulated [OF assms(1)] by blast
next
  case close
  then have "slot_step (\<lambda>c. \<not> is_closed c) False (sync_slots s) (sync_slots t)"
    by (intro sealI) (use assms(1) in \<open>simp_all add: sync_slots_def pool_inv_def close_pool_def\<close>)
  then show ?thesis by blast
qed

lemma pool_start_fresh:
  assumes "pool_start cfg s"
  shows "pool_inv cfg s \<and> fresh_slots (\<lambda>c. \<not> is_closed c) (cfg_max_size cfg) (sync_slots s)"
proof -
  from assms obtain size_of net p net'
    where p: "pool_new size_of cfg net = (Inr p, net')" and s: "s = \<lparr>inner = p, in_use = [], connecting = 0\<rparr>"
    by (auto simp: pool_start_def)
  have inv: "pool_inv cfg s" unfolding s by (rule pool_new_inv [OF p])
  have "\<not> closed p"
    using p by (auto simp: pool_new_def deque_with_capacity_def elim!: and_then_eq_InrE
        split: sum.splits if_splits)
  with inv s show ?thesis by (simp add: fresh_slots_def sync_slots_def pool_inv_def)
qed

interpretation sync_pool: bounded_pool "pool_start cfg" pool_step "pool_inv cfg" sync_slots
    "\<lambda>c. \<not> is_closed c" False "cfg_max_size cfg" for cfg
  by unfold_locales (use pool_start_fresh pool_step_inv pool_step_simulated in blast)+

section \<open>Properties\<close>

text \<open>
  C7. The pool never exceeds its limit and its bookkeeping is exact: in every state that any
  interleaving of threads can reach, the active count is the number of connections checked
  out or being made, together with the idle ones they are at most \<open>max_size\<close>, every idle
  connection is open, and a closed pool has none.
\<close>

theorem pool_invariant:
  assumes "reachable cfg s"
  shows "active_count (inner s) = length (in_use s) + connecting s
    \<and> status_total (status (inner s)) \<le> cfg_max_size cfg
    \<and> list_all (\<lambda>c. \<not> is_closed c) (idle (inner s))
    \<and> (closed (inner s) \<longrightarrow> idle (inner s) = [])"
  using reachable_inv [OF assms]
  by (auto simp: pool_inv_def status_def status_total_def list_all_iff)

definition demo_config :: pool_config where
  "demo_config = max_size 2 (min_idle 0 (pool_config_new (bytes_of ''cubrid://h/db'')))"

definition demo_pool :: pool_inner where
  "demo_pool = \<lparr>config = demo_config, idle = [], active_count = 0, closed = False\<rparr>"

definition demo_start :: pool_state where
  "demo_start = \<lparr>inner = demo_pool, in_use = [], connecting = 0\<rparr>"

lemma demo_start_reachable: "reachable demo_config demo_start"
  unfolding demo_start_def
  by (rule reachable.start [where size_of = 100 and net = "\<lparr>attempts = [], dialled = [], abandoned = []\<rparr>" and net' = "\<lparr>attempts = [], dialled = [], abandoned = []\<rparr>"])
    (simp add: and_then_def pool_new_def deque_with_capacity_def isize_MAX_def validate_def demo_config_def
      demo_pool_def max_size_def min_idle_def pool_config_new_def bytes_of_def)

definition open_client :: client where
  "open_client = \<lparr>conn = Some \<lparr>stream = \<lparr>arrivals = [], room = None, write_error = Io_Other,
       sent = [], is_shut = False\<rparr>, conn_cas_info = CAS 0 0 0 1\<rparr>,
     client_auto_commit = True, client_proto_version = 1, released = []\<rparr>"

definition demo_busy :: pool_state where
  "demo_busy = \<lparr>inner = demo_pool\<lparr>active_count := 1\<rparr>, in_use = [open_client], connecting = 0\<rparr>"

lemma demo_busy_reachable: "reachable demo_config demo_busy"
proof -
  have "get_section (inner demo_start) =
      (Claim_Connect (cfg_dsn demo_config), demo_pool\<lparr>active_count := 1\<rparr>)"
    by (simp add: get_section_def demo_start_def demo_pool_def demo_config_def max_size_def
        min_idle_def pool_config_new_def)
  from pool_step.get_connect [OF this] have "pool_step demo_start
      (demo_start\<lparr>inner := demo_pool\<lparr>active_count := 1\<rparr>, connecting := 1\<rparr>)"
    by (simp add: demo_start_def)
  with demo_start_reachable have r: "reachable demo_config
      (demo_start\<lparr>inner := demo_pool\<lparr>active_count := 1\<rparr>, connecting := 1\<rparr>)"
    by (rule reachable.step)
  have "\<not> is_closed open_client" by (simp add: is_closed_def open_client_def)
  from pool_step.connected [OF _ this, of "demo_start\<lparr>inner := demo_pool\<lparr>active_count := 1\<rparr>, connecting := 1\<rparr>"]
  show ?thesis
    by (intro reachable.step [OF r]) (simp add: demo_start_def demo_busy_def)
qed

definition demo_closing :: pool_state where
  "demo_closing = demo_busy\<lparr>inner := snd (close_pool (inner demo_busy))\<rparr>"

lemma demo_closing_reachable: "reachable demo_config demo_closing"
  unfolding demo_closing_def by (rule reachable.step [OF demo_busy_reachable pool_step.close])

theorem pool_invariant_witness:
  "active_count (inner demo_closing) = length (in_use demo_closing) + connecting demo_closing
    \<and> status_total (status (inner demo_closing)) \<le> cfg_max_size demo_config
    \<and> list_all (\<lambda>c. \<not> is_closed c) (idle (inner demo_closing))
    \<and> idle (inner demo_closing) = []"
  using pool_invariant [OF demo_closing_reachable] by (simp add: demo_closing_def close_pool_def)

lemma close_is_closed: "is_closed (snd (close c))"
  by (simp add: close_def is_closed_def split: option.splits)





text \<open>
  C23. \<open>get\<close> is refused only for cause: in a reachable state it reports a closed pool exactly
  when the pool is closed, and exhaustion exactly when the pool is open, nothing is idle and
  all \<open>max_size\<close> connections are checked out or being made; otherwise it hands out the idle
  connection that waited longest, or connects.
\<close>

theorem get_refused_for_cause:
  assumes "reachable cfg s"
  shows "(fst (get_section (inner s)) = Claim_Closed \<longleftrightarrow> closed (inner s))
    \<and> (fst (get_section (inner s)) = Claim_Exhausted (cfg_max_size cfg) \<longleftrightarrow>
         \<not> closed (inner s) \<and> idle (inner s) = [] \<and> length (in_use s) + connecting s = cfg_max_size cfg)
    \<and> (fst (get_section (inner s)) = Claim_Connect (cfg_dsn cfg) \<longleftrightarrow>
         \<not> closed (inner s) \<and> idle (inner s) = [] \<and> length (in_use s) + connecting s < cfg_max_size cfg)
    \<and> (idle (inner s) = c # cs \<longrightarrow> fst (get_section (inner s)) = Claim_Idle c)"
  using reachable_inv [OF assms]
  by (cases "idle (inner s)") (auto simp: pool_inv_def get_section_def Let_def)

definition demo_returned :: pool_state where
  "demo_returned = demo_busy\<lparr>inner := snd (put_back open_client (inner demo_busy)), in_use := []\<rparr>"

lemma demo_returned_reachable: "reachable demo_config demo_returned"
  by (rule reachable.step [OF demo_busy_reachable])
    (use pool_step.drop_client [of demo_busy "[]" open_client "[]"] in
      \<open>simp add: demo_returned_def demo_busy_def\<close>)

theorem get_refused_for_cause_witness:
  "(fst (get_section (inner demo_returned)) = Claim_Closed \<longleftrightarrow> closed (inner demo_returned))
    \<and> (fst (get_section (inner demo_returned)) = Claim_Exhausted (cfg_max_size demo_config) \<longleftrightarrow>
         \<not> closed (inner demo_returned) \<and> idle (inner demo_returned) = []
         \<and> length (in_use demo_returned) + connecting demo_returned = cfg_max_size demo_config)
    \<and> fst (get_section (inner demo_returned)) = Claim_Idle open_client"
proof -
  have "idle (inner demo_returned) = open_client # []"
    by (simp add: demo_returned_def demo_busy_def demo_pool_def put_back_def dec_usize_def
        is_closed_def open_client_def)
  then show ?thesis
    using get_refused_for_cause [OF demo_returned_reachable, of open_client "[]"] by blast
qed

text \<open>
  C24. Closing is final: once the pool is closed, every later state of every interleaving is
  closed, has no idle connection and refuses \<open>get\<close>; the idle connections that closing drained
  are all closed.
\<close>

theorem pool_close_is_final:
  assumes "reachable cfg s" and "closed (inner s)" and "pool_step\<^sup>*\<^sup>* s t"
  shows "closed (inner t) \<and> idle (inner t) = [] \<and> fst (get_section (inner t)) = Claim_Closed
    \<and> list_all is_closed (fst (close_pool p))"
proof -
  note inv = reachable_inv [OF assms(1)]
  have "sealed (sync_slots t)"
    by (rule sync_pool.sealed_for_good [OF inv assms(3)]) (use assms(2) in \<open>simp add: sync_slots_def\<close>)
  with sync_pool.steps_inv [OF assms(3) inv] show ?thesis
    by (auto simp: pool_inv_def get_section_def close_pool_def list_all_iff close_is_closed sync_slots_def)
qed

theorem pool_close_is_final_witness:
  "closed (inner (demo_busy\<lparr>inner := snd (close_pool (inner demo_busy))\<rparr>))
    \<and> idle (inner (demo_busy\<lparr>inner := snd (close_pool (inner demo_busy))\<rparr>)) = []
    \<and> fst (get_section (inner (demo_busy\<lparr>inner := snd (close_pool (inner demo_busy))\<rparr>))) = Claim_Closed
    \<and> list_all is_closed (fst (close_pool (inner demo_busy)))"
  by (rule pool_close_is_final [OF reachable.step [OF demo_busy_reachable pool_step.close] _ rtranclp.rtrancl_refl])
    (simp add: close_pool_def)

end
