(* ===== verification/Async_Pool.thy ===== *)
theory Async_Pool
  imports Pool Async_Client
begin

text \<open>
  \<open>AsyncPool\<close> of \<open>crates/cubrid-pool/src/lib.rs\<close>, over the asynchronous client. Its sections
  hold the lock like those of \<open>SyncPool\<close>, but the return of a connection differs: dropping a
  checked-out connection only spawns a task, which takes the lock later, and drops a closed
  client on the spot. Any future may be dropped at an \<open>await\<close>; the one that matters is a \<open>get\<close>
  that is connecting.
\<close>

section \<open>The critical sections\<close>

record async_pool_inner =
  a_config :: pool_config
  a_idle :: "async_client list"
  a_active_count :: usize
  a_closed :: bool

definition async_get_section :: "async_pool_inner \<Rightarrow> async_client claim \<times> async_pool_inner" where
  "async_get_section p =
     (if a_closed p then (Claim_Closed, p)
      else
        (case a_idle p of
           c # cs \<Rightarrow> (Claim_Idle c, p\<lparr>a_idle := cs, a_active_count := a_active_count p + 1\<rparr>)
         | [] \<Rightarrow>
             let total_count = a_active_count p + length (a_idle p) in
             if total_count < cfg_max_size (a_config p)
             then (Claim_Connect (cfg_dsn (a_config p)), p\<lparr>a_active_count := a_active_count p + 1\<rparr>)
             else (Claim_Exhausted (cfg_max_size (a_config p)), p)))"

definition async_connect_failed :: "async_pool_inner \<Rightarrow> async_pool_inner" where
  "async_connect_failed p = p\<lparr>a_active_count := dec_usize (a_active_count p)\<rparr>"

text \<open>\<open>Drop for AsyncPooledConnection\<close>: the client to return in a spawned task, if any.\<close>

definition async_drop :: "async_client \<Rightarrow> async_client option" where
  "async_drop c = (if async_is_closed c then None else Some c)"

text \<open>The body of the spawned task.\<close>

definition return_task :: "async_client \<Rightarrow> async_pool_inner \<Rightarrow> async_pool_inner" where
  "return_task c p =
     (let p = p\<lparr>a_active_count := dec_usize (a_active_count p)\<rparr>
      in if \<not> a_closed p then p\<lparr>a_idle := a_idle p @ [c]\<rparr> else p)"

text \<open>\<open>AsyncPooledConnection\<close> is its own copy of the option; dropping it spawns the task, if any.\<close>

definition async_deref :: "async_client pooled_connection \<Rightarrow> ('e, async_client) outcome" where
  "async_deref h = (case pooled_client h of Some c \<Rightarrow> Inr c | None \<Rightarrow> Inl (Panic Unwrap_Failed))"

definition async_deref_mut ::
  "(async_client \<Rightarrow> async_client) \<Rightarrow> async_client pooled_connection \<Rightarrow>
     ('e, async_client pooled_connection) outcome" where
  "async_deref_mut f h =
     (case pooled_client h of Some c \<Rightarrow> Inr (pooled (f c)) | None \<Rightarrow> Inl (Panic Unwrap_Failed))"

definition async_drop_connection :: "async_client pooled_connection \<Rightarrow> async_client option" where
  "async_drop_connection h = (case pooled_client h of Some c \<Rightarrow> async_drop c | None \<Rightarrow> None)"

lemma async_pooled_never_unwraps_none [simp]:
  "async_deref (pooled c) = Inr c" "async_deref_mut f (pooled c) = Inr (pooled (f c))"
  "async_drop_connection (pooled c) = async_drop c"
  by (simp_all add: async_deref_def async_deref_mut_def pooled_def async_drop_connection_def)

definition async_status :: "async_pool_inner \<Rightarrow> pool_status" where
  "async_status p = \<lparr>ps_max_size = cfg_max_size (a_config p), ps_idle_count = length (a_idle p),
     ps_active_count = a_active_count p, ps_closed = a_closed p\<rparr>"

text \<open>
  \<open>AsyncPool::close\<close>, which keeps the lock while it closes the clients. If its future is
  dropped in between, the drained iterator drops the other clients: the pool is the same.
\<close>

definition async_close_pool :: "async_pool_inner \<Rightarrow> async_client list \<times> async_pool_inner" where
  "async_close_pool p =
     (map (\<lambda>c. snd (async_close c)) (a_idle p), p\<lparr>a_closed := True, a_idle := []\<rparr>)"

section \<open>Sequential operations\<close>

fun pool_error_of :: "tokio_error stop \<Rightarrow> pool_error stop" where
  "pool_error_of (Stopped e) = Stopped (PL_AsyncClient e)"
| "pool_error_of Dropped = Dropped"

type_synonym 'a async_pool_action = "(async_pool_inner \<times> network, pool_error stop, 'a) action"

fun async_connect_idle ::
  "nat \<Rightarrow> bytes \<Rightarrow> async_client list \<Rightarrow> (network, pool_error stop, async_client list) action" where
  "async_connect_idle 0 dsn cs net = (Inr cs, net)"
| "async_connect_idle (Suc n) dsn cs net =
     (case async_client_connect dsn net of
        (Inl e, net') \<Rightarrow> (Inl (map_fault pool_error_of e), net')
      | (Inr c, net') \<Rightarrow> async_connect_idle n dsn (cs @ [c]) net')"

definition async_pool_new :: "nat \<Rightarrow> pool_config \<Rightarrow> (network, pool_error stop, async_pool_inner) action" where
  "async_pool_new size_of cfg =
     (case validate cfg of
        Inl e \<Rightarrow> throw (Stopped e)
      | Inr _ \<Rightarrow>
          and_then (deque_with_capacity size_of (cfg_max_size cfg)) (\<lambda>_.
          and_then (async_connect_idle (cfg_min_idle cfg) (cfg_dsn cfg) []) (\<lambda>cs.
          ok \<lparr>a_config = cfg, a_idle = cs, a_active_count = 0, a_closed = False\<rparr>)))"

definition async_get :: "async_client async_pool_action" where
  "async_get = (\<lambda>(p, net).
     (case async_get_section p of
        (Claim_Closed, p') \<Rightarrow> (Inl (Err (Stopped PL_PoolClosed)), (p', net))
      | (Claim_Idle c, p') \<Rightarrow> (Inr c, (p', net))
      | (Claim_Exhausted n, p') \<Rightarrow> (Inl (Err (Stopped (PL_PoolExhausted n))), (p', net))
      | (Claim_Connect dsn, p') \<Rightarrow>
          (case async_client_connect dsn net of
             (Inr c, net') \<Rightarrow> (Inr c, (p', net'))
           | (Inl (Err Dropped), net') \<Rightarrow> (Inl (Err Dropped), (p', net'))
           | (Inl e, net') \<Rightarrow> (Inl (map_fault pool_error_of e), (async_connect_failed p', net')))))"

section \<open>Tasks\<close>

text \<open>
  The pool, the clients checked out, the tasks that are connecting, the spawned tasks that
  have not run, and how many connections went without the code counting them: dropped
  closed, or still connecting when the future of \<open>get\<close> was dropped.
\<close>

record async_state =
  a_inner :: async_pool_inner
  a_in_use :: "async_client list"
  a_connecting :: nat
  a_returning :: "async_client list"
  a_lost :: nat

inductive async_step :: "async_state \<Rightarrow> async_state \<Rightarrow> bool" where
  a_get_idle: "async_get_section (a_inner s) = (Claim_Idle c, p) \<Longrightarrow>
     async_step s (s\<lparr>a_inner := p, a_in_use := c # a_in_use s\<rparr>)"
| a_get_connect: "async_get_section (a_inner s) = (Claim_Connect dsn, p) \<Longrightarrow>
     async_step s (s\<lparr>a_inner := p, a_connecting := a_connecting s + 1\<rparr>)"
| a_get_refused: "async_get_section (a_inner s) = (r, p) \<Longrightarrow> r = Claim_Closed \<or> r = Claim_Exhausted n \<Longrightarrow>
     async_step s (s\<lparr>a_inner := p\<rparr>)"
| a_connected: "0 < a_connecting s \<Longrightarrow> \<not> async_is_closed c \<Longrightarrow>
     async_step s (s\<lparr>a_in_use := c # a_in_use s, a_connecting := a_connecting s - 1\<rparr>)"
| a_connect_error: "0 < a_connecting s \<Longrightarrow>
     async_step s (s\<lparr>a_inner := async_connect_failed (a_inner s), a_connecting := a_connecting s - 1\<rparr>)"
| a_get_dropped: "0 < a_connecting s \<Longrightarrow>
     async_step s (s\<lparr>a_connecting := a_connecting s - 1, a_lost := a_lost s + 1\<rparr>)"
| a_use_client: "a_in_use s = xs @ c # ys \<Longrightarrow> async_step s (s\<lparr>a_in_use := xs @ c' # ys\<rparr>)"
| a_drop_open: "a_in_use s = xs @ c # ys \<Longrightarrow> async_drop c = Some c' \<Longrightarrow>
     async_step s (s\<lparr>a_in_use := xs @ ys, a_returning := a_returning s @ [c']\<rparr>)"
| a_drop_closed: "a_in_use s = xs @ c # ys \<Longrightarrow> async_drop c = None \<Longrightarrow>
     async_step s (s\<lparr>a_in_use := xs @ ys, a_lost := a_lost s + 1\<rparr>)"
| a_return: "a_returning s = xs @ c # ys \<Longrightarrow>
     async_step s (s\<lparr>a_inner := return_task c (a_inner s), a_returning := xs @ ys\<rparr>)"
| a_close: "async_step s (s\<lparr>a_inner := snd (async_close_pool (a_inner s))\<rparr>)"

inductive_cases async_stepE: "async_step s t"

inductive async_reachable :: "pool_config \<Rightarrow> async_state \<Rightarrow> bool" for cfg where
  a_start: "async_pool_new size_of cfg net = (Inr p, net') \<Longrightarrow>
     async_reachable cfg
       \<lparr>a_inner = p, a_in_use = [], a_connecting = 0, a_returning = [], a_lost = 0\<rparr>"
| a_step: "async_reachable cfg s \<Longrightarrow> async_step s t \<Longrightarrow> async_reachable cfg t"

definition async_inv :: "pool_config \<Rightarrow> async_state \<Rightarrow> bool" where
  "async_inv cfg s \<longleftrightarrow>
     a_config (a_inner s) = cfg
     \<and> a_active_count (a_inner s) =
         length (a_in_use s) + a_connecting s + length (a_returning s) + a_lost s
     \<and> a_active_count (a_inner s) + length (a_idle (a_inner s)) \<le> cfg_max_size cfg
     \<and> (\<forall>c \<in> set (a_idle (a_inner s)) \<union> set (a_returning s). \<not> async_is_closed c)
     \<and> (a_closed (a_inner s) \<longrightarrow> a_idle (a_inner s) = [])"

lemma async_connect_open:
  assumes "async_connect_with_dsn d net = (Inr c, net')"
  shows "\<not> async_is_closed c"
proof -
  have "async_conn c \<noteq> None"
    if "and_then m (\<lambda>(r, k). ok \<lparr>async_conn = Some k, async_auto_commit = a,
        async_proto_version = f r, async_released = []\<rparr>) net = (Inr c, net')"
    for m :: "('r \<times> async_connection) async_net_action" and a f net
    using that by (auto elim!: and_then_eq_InrE)
  with assms show ?thesis
    unfolding async_connect_with_dsn_def Let_def async_is_closed_def
    by (elim and_then_eq_InrE) (auto simp: dropping_def split: prod.splits if_splits elim!: and_then_eq_InrE)
qed

lemma async_client_connect_open: "async_client_connect dsn net = (Inr c, net') \<Longrightarrow> \<not> async_is_closed c"
  by (auto simp: async_client_connect_def async_connect_open split: sum.splits)

lemma async_connect_idle_open:
  "async_connect_idle n dsn cs net = (Inr cs', net') \<Longrightarrow> \<forall>c \<in> set cs. \<not> async_is_closed c \<Longrightarrow>
     length cs' = length cs + n \<and> (\<forall>c \<in> set cs'. \<not> async_is_closed c)"
proof (induction n arbitrary: cs net)
  case (Suc n)
  obtain res net1 where e: "async_client_connect dsn net = (res, net1)"
    by (cases "async_client_connect dsn net")
  with Suc.prems(1) obtain c where c: "res = Inr c" by (cases res) simp_all
  with e Suc.prems(1) have r: "async_connect_idle n dsn (cs @ [c]) net1 = (Inr cs', net')" by simp
  have "\<forall>c \<in> set (cs @ [c]). \<not> async_is_closed c"
    using Suc.prems(2) async_client_connect_open [OF e [unfolded c]] by simp
  from Suc.IH [OF r this] show ?case by simp
qed simp

lemma async_pool_new_inv:
  assumes "async_pool_new size_of cfg net = (Inr p, net')"
  shows "async_inv cfg \<lparr>a_inner = p, a_in_use = [], a_connecting = 0, a_returning = [], a_lost = 0\<rparr>"
proof -
  from assms have "validate cfg = Inr ()" by (auto simp: async_pool_new_def split: sum.splits)
  then have "cfg_min_idle cfg \<le> cfg_max_size cfg" by (auto simp: validate_def split: if_splits)
  moreover from assms obtain cs
    where "async_connect_idle (cfg_min_idle cfg) (cfg_dsn cfg) [] net = (Inr cs, net')"
      and "p = \<lparr>a_config = cfg, a_idle = cs, a_active_count = 0, a_closed = False\<rparr>"
    by (auto simp: async_pool_new_def deque_with_capacity_def elim!: and_then_eq_InrE
        split: sum.splits if_splits)
  ultimately show ?thesis
    using async_connect_idle_open [of "cfg_min_idle cfg" "cfg_dsn cfg" "[]" net cs net']
    by (auto simp: async_inv_def)
qed

lemma async_step_inv: "async_inv cfg s \<Longrightarrow> async_step s t \<Longrightarrow> async_inv cfg t"
  by (erule async_stepE)
    (auto simp: async_inv_def async_get_section_def async_connect_failed_def return_task_def
      async_drop_def dec_usize_def async_close_pool_def Let_def split: if_splits list.splits)

lemma async_reachable_inv: "async_reachable cfg s \<Longrightarrow> async_inv cfg s"
  by (induction rule: async_reachable.induct) (auto intro: async_pool_new_inv async_step_inv)

section \<open>Refinement\<close>

text \<open>
  The slots of the async pool: a slot is held until the return task has run, and the lost
  ones are leaked.
\<close>

definition async_slots :: "async_state \<Rightarrow> async_client slots" where
  "async_slots s =
     \<lparr>free = cfg_max_size (a_config (a_inner s)) - (a_active_count (a_inner s) + length (a_idle (a_inner s))),
      held = length (a_in_use s) + a_connecting s + length (a_returning s),
      parked = a_idle (a_inner s), leaked = a_lost s, sealed = a_closed (a_inner s)\<rparr>"

definition async_pool_start :: "pool_config \<Rightarrow> async_state \<Rightarrow> bool" where
  "async_pool_start cfg s \<longleftrightarrow> (\<exists>size_of net p net'. async_pool_new size_of cfg net = (Inr p, net')
     \<and> s = \<lparr>a_inner = p, a_in_use = [], a_connecting = 0, a_returning = [], a_lost = 0\<rparr>)"

lemma async_reachable_steps: "async_reachable cfg s \<Longrightarrow> \<exists>s0. async_pool_start cfg s0 \<and> async_step\<^sup>*\<^sup>* s0 s"
proof (induction rule: async_reachable.induct)
  case (a_start size_of net p net')
  then have "async_pool_start cfg
      \<lparr>a_inner = p, a_in_use = [], a_connecting = 0, a_returning = [], a_lost = 0\<rparr>"
    by (auto simp: async_pool_start_def)
  then show ?case by blast
next
  case (a_step s t)
  then show ?case by (meson rtranclp.rtrancl_into_rtrancl)
qed

abbreviation async_slot_step :: "async_client slots \<Rightarrow> async_client slots \<Rightarrow> bool" where
  "async_slot_step \<equiv> slot_step (\<lambda>c. \<not> async_is_closed c) True"

lemma return_task_simulated:
  assumes "async_inv cfg s" and "a_returning s = xs @ c # ys"
  shows "async_slot_step (async_slots s)
    (async_slots (s\<lparr>a_inner := return_task c (a_inner s), a_returning := xs @ ys\<rparr>))"
proof (cases "a_closed (a_inner s)")
  case False
  show ?thesis
    by (rule giveI [where n = "length (a_in_use s) + a_connecting s + length xs + length ys" and c = c])
      (use False assms in \<open>simp_all add: async_slots_def async_inv_def return_task_def dec_usize_def\<close>)
next
  case True
  then have "return_task c (a_inner s) = (a_inner s)\<lparr>a_active_count := a_active_count (a_inner s) - 1\<rparr>"
    using assms by (auto simp: return_task_def async_inv_def dec_usize_def Let_def)
  then show ?thesis
    by (intro discardI [where n = "length (a_in_use s) + a_connecting s + length xs + length ys"])
      (use assms in \<open>simp_all add: async_slots_def async_inv_def Suc_diff_Suc\<close>)
qed

lemma async_step_simulated:
  assumes "async_inv cfg s" and "async_step s t"
  shows "async_slot_step\<^sup>=\<^sup>= (async_slots s) (async_slots t)"
  using assms(2)
proof cases
  case (a_get_idle c p)
  then obtain cs where "\<not> a_closed (a_inner s)" and "a_idle (a_inner s) = c # cs"
    and "p = (a_inner s)\<lparr>a_idle := cs, a_active_count := a_active_count (a_inner s) + 1\<rparr>"
    by (auto simp: async_get_section_def Let_def split: if_splits list.splits)
  then have "async_slot_step (async_slots s) (async_slots t)"
    by (intro take_parkedI [where c = c and cs = cs]) (use assms(1) a_get_idle in \<open>simp_all add: async_slots_def\<close>)
  then show ?thesis by blast
next
  case (a_get_connect dsn p)
  then have "\<not> a_closed (a_inner s)" and "a_idle (a_inner s) = []"
    and "a_active_count (a_inner s) < cfg_max_size (a_config (a_inner s))"
    and "p = (a_inner s)\<lparr>a_active_count := a_active_count (a_inner s) + 1\<rparr>"
    by (auto simp: async_get_section_def Let_def split: if_splits list.splits)
  then have "async_slot_step (async_slots s) (async_slots t)"
    by (intro take_freeI [where n = "free (async_slots s) - 1"])
      (use a_get_connect in \<open>simp_all add: async_slots_def\<close>)
  then show ?thesis by blast
next
  case (a_get_refused r p n)
  then show ?thesis by (auto simp: async_get_section_def Let_def split: if_splits list.splits)
next
  case (a_connected c)
  then show ?thesis by (simp add: async_slots_def)
next
  case a_connect_error
  then have "async_slot_step (async_slots s) (async_slots t)"
    by (intro discardI [where n = "length (a_in_use s) + (a_connecting s - 1) + length (a_returning s)"])
      (use assms(1) in \<open>auto simp: async_slots_def async_inv_def async_connect_failed_def dec_usize_def\<close>)
  then show ?thesis by blast
next
  case a_get_dropped
  then have "async_slot_step (async_slots s) (async_slots t)"
    by (intro leakI [where n = "length (a_in_use s) + (a_connecting s - 1) + length (a_returning s)"])
      (simp_all add: async_slots_def)
  then show ?thesis by blast
next
  case (a_use_client xs c ys c')
  then show ?thesis by (simp add: async_slots_def)
next
  case (a_drop_open xs c ys c')
  then show ?thesis by (simp add: async_slots_def)
next
  case (a_drop_closed xs c ys)
  then have "async_slot_step (async_slots s) (async_slots t)"
    by (intro leakI [where n = "length xs + length ys + a_connecting s + length (a_returning s)"])
      (simp_all add: async_slots_def)
  then show ?thesis by blast
next
  case (a_return xs c ys)
  then show ?thesis using return_task_simulated [OF assms(1)] by blast
next
  case a_close
  then have "async_slot_step (async_slots s) (async_slots t)"
    by (intro sealI) (use assms(1) in \<open>simp_all add: async_slots_def async_inv_def async_close_pool_def\<close>)
  then show ?thesis by blast
qed

lemma async_pool_start_fresh:
  assumes "async_pool_start cfg s"
  shows "async_inv cfg s \<and> fresh_slots (\<lambda>c. \<not> async_is_closed c) (cfg_max_size cfg) (async_slots s)"
proof -
  from assms obtain size_of net p net' where p: "async_pool_new size_of cfg net = (Inr p, net')"
    and s: "s = \<lparr>a_inner = p, a_in_use = [], a_connecting = 0, a_returning = [], a_lost = 0\<rparr>"
    by (auto simp: async_pool_start_def)
  have inv: "async_inv cfg s" unfolding s by (rule async_pool_new_inv [OF p])
  have "\<not> a_closed p"
    using p by (auto simp: async_pool_new_def deque_with_capacity_def elim!: and_then_eq_InrE
        split: sum.splits if_splits)
  with inv s show ?thesis by (simp add: fresh_slots_def async_slots_def async_inv_def)
qed

interpretation async_pool: bounded_pool "async_pool_start cfg" async_step "async_inv cfg" async_slots
    "\<lambda>c. \<not> async_is_closed c" True "cfg_max_size cfg" for cfg
  by unfold_locales (use async_pool_start_fresh async_step_inv async_step_simulated in blast)+

text \<open>
  C8. Both pools implement the abstract pool: in every reachable state, each step of the
  threads (or tasks) is one step of the specification or leaves the slots as they were, so
  every run hands out parked connections first in, first out, makes one only when none is
  parked and a slot is free, and keeps only usable ones. Slots add up to the limit; only the
  async pool leaks any.
\<close>

theorem pools_refine_slots:
  assumes "reachable cfg s" and "pool_step s t" and "async_reachable cfg u" and "async_step u v"
  shows "(slot_step (\<lambda>c. \<not> is_closed c) False)\<^sup>=\<^sup>= (sync_slots s) (sync_slots t)
    \<and> slots_inv (\<lambda>c. \<not> is_closed c) False (cfg_max_size cfg) (sync_slots t)
    \<and> (slot_step (\<lambda>c. \<not> async_is_closed c) True)\<^sup>=\<^sup>= (async_slots u) (async_slots v)
    \<and> slots_inv (\<lambda>c. \<not> async_is_closed c) True (cfg_max_size cfg) (async_slots v)"
proof -
  obtain s0 where "pool_start cfg s0" and "pool_step\<^sup>*\<^sup>* s0 t"
    using reachable_steps [OF assms(1)] assms(2) by (meson rtranclp.rtrancl_into_rtrancl)
  from sync_pool.slots_conserved [OF this]
  have 1: "slots_inv (\<lambda>c. \<not> is_closed c) False (cfg_max_size cfg) (sync_slots t)" .
  obtain u0 where "async_pool_start cfg u0" and "async_step\<^sup>*\<^sup>* u0 v"
    using async_reachable_steps [OF assms(3)] assms(4) by (meson rtranclp.rtrancl_into_rtrancl)
  from async_pool.slots_conserved [OF this]
  have 2: "slots_inv (\<lambda>c. \<not> async_is_closed c) True (cfg_max_size cfg) (async_slots v)" .
  from 1 2 sync_pool.simulates [OF reachable_inv [OF assms(1)] assms(2)]
    async_pool.simulates [OF async_reachable_inv [OF assms(3)] assms(4)]
  show ?thesis by blast
qed

section \<open>The leak\<close>

text \<open>
  C26. The async pool keeps its limit under every interleaving, but its active count is only
  an upper bound: it also counts every connection that was dropped closed and every \<open>get\<close>
  whose future was dropped while it connected, so the connections it can still hand out are
  \<open>max_size\<close> less the lost ones.
\<close>

theorem async_pool_invariant:
  assumes "async_reachable cfg s"
  shows "a_active_count (a_inner s) =
      length (a_in_use s) + a_connecting s + length (a_returning s) + a_lost s
    \<and> length (a_in_use s) + a_connecting s + length (a_returning s) + length (a_idle (a_inner s))
        \<le> cfg_max_size cfg - a_lost s
    \<and> list_all (\<lambda>c. \<not> async_is_closed c) (a_idle (a_inner s))"
  using async_reachable_inv [OF assms] by (auto simp: async_inv_def list_all_iff)

definition async_start :: "pool_config \<Rightarrow> async_state" where
  "async_start cfg =
     \<lparr>a_inner = \<lparr>a_config = cfg, a_idle = [], a_active_count = 0, a_closed = False\<rparr>, a_in_use = [],
      a_connecting = 0, a_returning = [], a_lost = 0\<rparr>"

lemma demo_config_valid: "validate demo_config = Inr ()" "cfg_min_idle demo_config = 0" "cfg_max_size demo_config = 2"
  by (simp_all add: validate_def demo_config_def max_size_def min_idle_def pool_config_new_def bytes_of_def)

lemma async_start_reachable:
  assumes "validate cfg = Inr ()" and "cfg_min_idle cfg = 0"
  shows "async_reachable cfg (async_start cfg)"
proof -
  have "async_pool_new 0 cfg net =
      (Inr \<lparr>a_config = cfg, a_idle = [], a_active_count = 0, a_closed = False\<rparr>, net)" for net
    using assms by (simp add: async_pool_new_def deque_with_capacity_def isize_MAX_def and_then_def)
  from async_reachable.a_start [OF this] show ?thesis by (simp add: async_start_def)
qed

text \<open>
  A round that loses a slot: a \<open>get\<close> claims it, and is dropped while it connects.
\<close>

definition connecting_state :: "async_state \<Rightarrow> async_state" where
  "connecting_state s = s\<lparr>a_inner := (a_inner s)\<lparr>a_active_count := Suc (a_active_count (a_inner s))\<rparr>,
     a_connecting := Suc (a_connecting s)\<rparr>"

definition lose_slot :: "async_state \<Rightarrow> async_state" where
  "lose_slot s = s\<lparr>a_inner := (a_inner s)\<lparr>a_active_count := Suc (a_active_count (a_inner s))\<rparr>,
     a_lost := Suc (a_lost s)\<rparr>"

definition closed_async_client :: async_client where
  "closed_async_client = \<lparr>async_conn = None, async_auto_commit = True, async_proto_version = 8,
     async_released = []\<rparr>"

definition open_async_client :: async_client where
  "open_async_client = closed_async_client\<lparr>async_conn := Some \<lparr>a_stream = \<lparr>arrivals = [], room = None,
     write_error = Io_Other, sent = [], is_shut = False\<rparr>, a_cas_info = CAS 0 0 0 1, patience = None\<rparr>\<rparr>"

lemma claims_a_slot:
  assumes "\<not> a_closed (a_inner s)" and "a_idle (a_inner s) = []"
    and "a_active_count (a_inner s) < cfg_max_size (a_config (a_inner s))"
  shows "async_step s (connecting_state s)"
proof -
  have "async_get_section (a_inner s) = (Claim_Connect (cfg_dsn (a_config (a_inner s))),
      (a_inner s)\<lparr>a_active_count := Suc (a_active_count (a_inner s))\<rparr>)"
    using assms by (simp add: async_get_section_def)
  from async_step.a_get_connect [OF this] show ?thesis by (simp add: connecting_state_def)
qed

lemma loses_by_dropped_get: "async_step (connecting_state s) (lose_slot s)"
  using async_step.a_get_dropped [of "connecting_state s"]
  by (simp add: connecting_state_def lose_slot_def)

text \<open>The state after \<open>n\<close> such rounds.\<close>

definition drained :: "pool_config \<Rightarrow> nat \<Rightarrow> async_state" where
  "drained cfg n =
     (async_start cfg)\<lparr>a_inner := (a_inner (async_start cfg))\<lparr>a_active_count := n\<rparr>, a_lost := n\<rparr>"

lemma drained_reachable:
  "validate cfg = Inr () \<Longrightarrow> cfg_min_idle cfg = 0 \<Longrightarrow> n \<le> cfg_max_size cfg \<Longrightarrow> async_reachable cfg (drained cfg n)"
proof (induction n)
  case 0
  then show ?case using async_start_reachable [of cfg] by (simp add: drained_def async_start_def)
next
  case (Suc n)
  have "async_step (drained cfg n) (connecting_state (drained cfg n))"
    by (rule claims_a_slot) (use Suc.prems in \<open>simp_all add: drained_def async_start_def\<close>)
  moreover have "lose_slot (drained cfg n) = drained cfg (Suc n)"
    by (simp add: lose_slot_def drained_def async_start_def)
  ultimately show ?case
    using Suc loses_by_dropped_get [of "drained cfg n"] by (auto intro: async_reachable.a_step)
qed

text \<open>
  Runs in which no future of \<open>get\<close> is dropped: a step either keeps the tasks that connect or
  loses nothing.
\<close>

definition steady_step :: "async_state \<Rightarrow> async_state \<Rightarrow> bool" where
  "steady_step s t \<longleftrightarrow> async_step s t \<and> (a_connecting s \<le> a_connecting t \<or> a_lost t = a_lost s)"

definition can_lose :: "async_state \<Rightarrow> bool" where
  "can_lose s \<longleftrightarrow>
     (\<exists>t. steady_step\<^sup>*\<^sup>* s t \<and> \<not> a_closed (a_inner t) \<and> a_lost t = Suc (a_lost s))"

lemma can_lose_step: "steady_step s s1 \<Longrightarrow> can_lose s1 \<Longrightarrow> a_lost s1 = a_lost s \<Longrightarrow> can_lose s"
  unfolding can_lose_def by (metis converse_rtranclp_into_rtranclp)

text \<open>A client in use is closed by its user and dropped.\<close>

lemma can_lose_in_use:
  assumes "\<not> a_closed (a_inner s)" and "a_in_use s = c # cs"
  shows "can_lose s"
proof -
  let ?c = "snd (async_close c)" and ?s = "s\<lparr>a_in_use := snd (async_close c) # cs\<rparr>"
  have c: "async_drop ?c = None"
    by (simp add: async_drop_def async_is_closed_def async_close_def
        split: option.split prod.split sum.split fault.split stop.split)
  from async_step.a_use_client [of s "[]" c cs ?c] assms(2) have 1: "steady_step s ?s"
    by (simp add: steady_step_def)
  from async_step.a_drop_closed [OF _ c, of ?s "[]" cs]
  have 2: "steady_step ?s (?s\<lparr>a_in_use := cs, a_lost := Suc (a_lost s)\<rparr>)"
    by (simp add: steady_step_def)
  then have "can_lose ?s" unfolding can_lose_def using assms(1)
    by (intro exI [of _ "?s\<lparr>a_in_use := cs, a_lost := Suc (a_lost s)\<rparr>"]) auto
  with 1 show ?thesis by (rule can_lose_step) simp
qed

text \<open>Any other connection comes into use first.\<close>

lemma can_lose_idle:
  assumes "\<not> a_closed (a_inner s)" and "a_idle (a_inner s) = c # cs"
  shows "can_lose s"
proof -
  let ?p = "(a_inner s)\<lparr>a_idle := cs, a_active_count := a_active_count (a_inner s) + 1\<rparr>"
  let ?s = "s\<lparr>a_inner := ?p, a_in_use := c # a_in_use s\<rparr>"
  have "async_get_section (a_inner s) = (Claim_Idle c, ?p)" using assms by (simp add: async_get_section_def)
  from async_step.a_get_idle [OF this] have "steady_step s ?s" by (simp add: steady_step_def)
  moreover have "can_lose ?s" by (rule can_lose_in_use) (use assms in simp_all)
  ultimately show ?thesis by (rule can_lose_step) simp
qed

lemma can_lose_connecting:
  assumes "\<not> a_closed (a_inner s)" and "0 < a_connecting s"
  shows "can_lose s"
proof -
  let ?s = "s\<lparr>a_in_use := open_async_client # a_in_use s, a_connecting := a_connecting s - 1\<rparr>"
  have "\<not> async_is_closed open_async_client"
    by (simp add: async_is_closed_def open_async_client_def)
  from async_step.a_connected [OF assms(2) this] have "steady_step s ?s" by (simp add: steady_step_def)
  moreover have "can_lose ?s" by (rule can_lose_in_use) (use assms in simp_all)
  ultimately show ?thesis by (rule can_lose_step) simp
qed

lemma can_lose_returning:
  assumes "\<not> a_closed (a_inner s)" and "a_returning s = c # cs"
  shows "can_lose s"
proof -
  let ?s = "s\<lparr>a_inner := return_task c (a_inner s), a_returning := cs\<rparr>"
  from async_step.a_return [of s "[]" c cs] assms(2) have "steady_step s ?s" by (simp add: steady_step_def)
  moreover have "can_lose ?s"
  proof (cases "a_idle (a_inner ?s)")
    case Nil
    with assms(1) show ?thesis by (simp add: return_task_def Let_def)
  next
    case (Cons c' cs')
    then show ?thesis by (rule can_lose_idle [rotated]) (use assms(1) in \<open>simp add: return_task_def Let_def\<close>)
  qed
  ultimately show ?thesis by (rule can_lose_step) simp
qed

lemma can_lose_unless_drained:
  assumes "async_inv cfg s" and "\<not> a_closed (a_inner s)" and "a_lost s < cfg_max_size cfg"
  shows "can_lose s"
proof (cases "a_in_use s = [] \<and> a_idle (a_inner s) = [] \<and> a_connecting s = 0 \<and> a_returning s = []")
  case True
  have "async_step s (connecting_state s)"
    by (rule claims_a_slot) (use True assms in \<open>simp_all add: async_inv_def\<close>)
  then have "steady_step s (connecting_state s)" by (simp add: steady_step_def connecting_state_def)
  moreover have "can_lose (connecting_state s)"
    by (rule can_lose_connecting) (use assms(2) in \<open>simp_all add: connecting_state_def\<close>)
  ultimately show ?thesis by (rule can_lose_step) (simp add: connecting_state_def)
next
  case False
  then show ?thesis
    using assms(2) can_lose_in_use can_lose_idle can_lose_connecting can_lose_returning
    by (metis list.exhaust neq0_conv)
qed

lemma steady_steps_inv: "steady_step\<^sup>*\<^sup>* s t \<Longrightarrow> async_inv cfg s \<Longrightarrow> async_inv cfg t"
  by (induction rule: rtranclp_induct) (auto simp: steady_step_def intro: async_step_inv)

lemma drains_steadily:
  assumes "async_inv cfg s" and "\<not> a_closed (a_inner s)"
  shows "\<exists>t. steady_step\<^sup>*\<^sup>* s t \<and> \<not> a_closed (a_inner t) \<and> a_lost t = cfg_max_size cfg"
  using assms
proof (induction "cfg_max_size cfg - a_lost s" arbitrary: s)
  case 0
  then have "a_lost s = cfg_max_size cfg" by (simp add: async_inv_def)
  with 0 show ?case by blast
next
  case (Suc n)
  then have "a_lost s < cfg_max_size cfg" by linarith
  with Suc.prems obtain t
    where t: "steady_step\<^sup>*\<^sup>* s t" "\<not> a_closed (a_inner t)" "a_lost t = Suc (a_lost s)"
    using can_lose_unless_drained [of cfg s] unfolding can_lose_def by auto
  have "n = cfg_max_size cfg - a_lost t" using Suc.hyps(2) t(3) by linarith
  from Suc.hyps(1) [OF this steady_steps_inv [OF t(1) Suc.prems(1)] t(2)]
  obtain u where "steady_step\<^sup>*\<^sup>* t u" "\<not> a_closed (a_inner u)" "a_lost u = cfg_max_size cfg" by blast
  with t(1) show ?case by (meson rtranclp_trans)
qed

lemma drained_stays:
  assumes "async_inv cfg s" and "a_lost s = cfg_max_size cfg" and "async_step\<^sup>*\<^sup>* s t"
    and "\<not> a_closed (a_inner t)"
  shows "a_in_use t = [] \<and> a_idle (a_inner t) = [] \<and> a_connecting t = 0
    \<and> async_get_section (a_inner t) = (Claim_Exhausted (cfg_max_size cfg), a_inner t)"
proof -
  note inv = async_pool.steps_inv [OF assms(3,1)]
  have "cfg_max_size cfg \<le> a_lost t"
    using async_pool.leaked_for_good [OF assms(1,3)] assms(2) by (simp add: async_slots_def)
  with inv have "length (a_in_use t) = 0" "length (a_idle (a_inner t)) = 0" "a_connecting t = 0"
    "a_active_count (a_inner t) = cfg_max_size cfg"
    unfolding async_inv_def by linarith+
  with inv assms(4) show ?thesis by (simp add: async_inv_def async_get_section_def)
qed

text \<open>The future of \<open>get\<close> is dropped while it connects: the count it added stays.\<close>

lemma dropped_get_counts:
  "async_get (p, net) = (Inl (Err Dropped), (p', net')) \<Longrightarrow>
     \<not> a_closed p \<and> p' = p\<lparr>a_active_count := Suc (a_active_count p)\<rparr>"
  by (auto simp: async_get_def async_get_section_def Let_def elim!: map_fault.elims pool_error_of.elims
      split: prod.splits sum.splits fault.splits stop.splits if_splits list.splits)

text \<open>
  C25. The async pool runs dry for good. From every reachable state of an open pool it can
  come to a state in which all \<open>max_size\<close> slots are lost, without any future of \<open>get\<close> being
  dropped: it is enough that clients in use are closed by their users and dropped, because
  dropping a closed client does not lower the count. Once all slots are lost, then in every
  later state, until the pool is closed, no connection is in use, idle or being made, and \<open>get\<close>
  finds the pool exhausted. A \<open>get\<close> whose future is dropped while it connects loses a slot too: it
  leaves the active count one higher and no connection.
\<close>

theorem async_pool_exhausted_for_good:
  assumes "async_reachable cfg s" and "\<not> a_closed (a_inner s)"
  shows "(\<exists>t. steady_step\<^sup>*\<^sup>* s t \<and> \<not> a_closed (a_inner t) \<and> a_lost t = cfg_max_size cfg)
    \<and> (a_lost s = cfg_max_size cfg \<longrightarrow> async_step\<^sup>*\<^sup>* s u \<longrightarrow> \<not> a_closed (a_inner u) \<longrightarrow>
        a_in_use u = [] \<and> a_idle (a_inner u) = [] \<and> a_connecting u = 0
        \<and> async_get_section (a_inner u) = (Claim_Exhausted (cfg_max_size cfg), a_inner u))
    \<and> (async_get (a_inner s, net) = (Inl (Err Dropped), (p, net')) \<longrightarrow>
        p = (a_inner s)\<lparr>a_active_count := Suc (a_active_count (a_inner s))\<rparr>)"
  using drains_steadily [OF async_reachable_inv [OF assms(1)] assms(2)]
    drained_stays [OF async_reachable_inv [OF assms(1)]] dropped_get_counts by blast

theorem async_pool_exhausted_for_good_witness:
  "(\<exists>t. steady_step\<^sup>*\<^sup>* (drained demo_config 1) t \<and> \<not> a_closed (a_inner t) \<and> a_lost t = 2)
    \<and> async_get_section (a_inner (drained demo_config 2)) = (Claim_Exhausted 2, a_inner (drained demo_config 2))"
proof
  have r: "async_reachable demo_config (drained demo_config n)" if "n \<le> 2" for n
    by (rule drained_reachable) (use that in \<open>simp_all add: demo_config_valid\<close>)
  have o: "\<not> a_closed (a_inner (drained demo_config n))" for n by (simp add: drained_def async_start_def)
  show "\<exists>t. steady_step\<^sup>*\<^sup>* (drained demo_config 1) t \<and> \<not> a_closed (a_inner t) \<and> a_lost t = 2"
    using async_pool_exhausted_for_good [OF r o, of 1] by (simp add: demo_config_valid)
  show "async_get_section (a_inner (drained demo_config 2)) = (Claim_Exhausted 2, a_inner (drained demo_config 2))"
    using async_pool_exhausted_for_good [OF r o, of 2 "drained demo_config 2"] o
    by (simp add: demo_config_valid drained_def)
qed

theorem async_pool_invariant_witness:
  "a_active_count (a_inner (drained demo_config 1)) =
      length (a_in_use (drained demo_config 1)) + a_connecting (drained demo_config 1)
      + length (a_returning (drained demo_config 1)) + a_lost (drained demo_config 1)
    \<and> length (a_in_use (drained demo_config 1)) + a_connecting (drained demo_config 1)
      + length (a_returning (drained demo_config 1)) + length (a_idle (a_inner (drained demo_config 1)))
        \<le> cfg_max_size demo_config - a_lost (drained demo_config 1)
    \<and> list_all (\<lambda>c. \<not> async_is_closed c) (a_idle (a_inner (drained demo_config 1)))"
  by (rule async_pool_invariant, rule drained_reachable) (simp_all add: demo_config_valid)

theorem pools_refine_slots_witness:
  "(slot_step (\<lambda>c. \<not> is_closed c) False)\<^sup>=\<^sup>= (sync_slots demo_busy) (sync_slots demo_closing)
    \<and> slots_inv (\<lambda>c. \<not> is_closed c) False (cfg_max_size demo_config) (sync_slots demo_closing)
    \<and> (slot_step (\<lambda>c. \<not> async_is_closed c) True)\<^sup>=\<^sup>=
        (async_slots (drained demo_config 1)) (async_slots (connecting_state (drained demo_config 1)))
    \<and> slots_inv (\<lambda>c. \<not> async_is_closed c) True (cfg_max_size demo_config)
        (async_slots (connecting_state (drained demo_config 1)))"
proof (rule pools_refine_slots [OF demo_busy_reachable])
  show "pool_step demo_busy demo_closing" unfolding demo_closing_def by (rule pool_step.close)
  show "async_reachable demo_config (drained demo_config 1)"
    by (rule drained_reachable) (simp_all add: demo_config_valid)
  show "async_step (drained demo_config 1) (connecting_state (drained demo_config 1))"
    by (rule claims_a_slot) (simp_all add: drained_def async_start_def demo_config_valid)
qed

end
