(* ===== verification/Pool_Sessions.thy ===== *)
theory Pool_Sessions
  imports Pool Client_Laws
begin

text \<open>
  The pool together with the client: what happens to a session between its users. The pool
  looks at nothing but whether the client is closed.
\<close>

lemma put_back_open:
  assumes "\<not> closed p" and "\<not> is_closed c" and "0 < active_count p"
  shows "put_back c p = ([], p\<lparr>active_count := active_count p - 1, idle := idle p @ [c]\<rparr>)"
  using assms by (simp add: put_back_def dec_usize_def)

lemma get_idle:
  assumes "\<not> closed p" and "idle p = c # cs"
  shows "get (p, net) = (Inr c, (p\<lparr>idle := cs, active_count := active_count p + 1\<rparr>, net))"
  using assms by (simp add: get_def get_section_def)

lemma next_user:
  assumes "\<not> closed p" and "idle p = []" and "\<not> is_closed c" and "0 < active_count p"
  shows "get (snd (put_back c p), net) = (Inr c, (p, net))"
  using assms by (simp add: put_back_open get_idle)

text \<open>
  C27. A session goes to the next user exactly as the last one left it: when a connection is
  dropped while it is open and no other is idle, the next \<open>get\<close> hands out the same client
  without touching the network, with its auto-commit setting, its token and the bytes that
  have yet to arrive. So a response that came too late for one user reaches the next: after
  a ping that timed out, the commit of the next user reports success on the ping's response.
\<close>

theorem sessions_cross_users:
  assumes "\<not> closed p" and "idle p = []" and "0 < active_count p"
    and "conn c = Some k" and "healthy k"
    and "arrivals (stream k) = Read_Fails e # arrive (frame (cas_bytes cas @ be_bytes 4 rc @ body)) @ as"
    and "0 \<le> sint (rc :: i32)" and "frameable (cas_bytes cas @ be_bytes 4 rc @ body)"
    and "\<not> is_closed left"
  shows "get (snd (put_back left p), net) = (Inr left, (p, net))
    \<and> fst (ping c) = Inl (Err (CE_Io e))
    \<and> get (snd (put_back (snd (ping c)) p), net) = (Inr (snd (ping c)), (p, net))
    \<and> fst (commit (snd (ping c))) = Inr ()"
proof -
  let ?k1 = "exchanged (write_get_db_version (client_auto_commit c) (conn_cas_info k))
    (arrive (frame (cas_bytes cas @ be_bytes 4 rc @ body)) @ as) k"
  have open1: "\<not> is_closed (c\<lparr>conn := Some ?k1\<rparr>)" by (simp add: is_closed_def)
  show ?thesis
    using late_response [OF assms(4-8) refl refl] next_user [OF assms(1,2) assms(9,3)]
      next_user [OF assms(1,2) open1 assms(3)]
    by simp
qed

theorem sessions_cross_users_witness:
  "get (snd (put_back open_client (inner demo_busy)), \<lparr>attempts = [], dialled = [], abandoned = []\<rparr>) =
      (Inr open_client, (inner demo_busy, \<lparr>attempts = [], dialled = [], abandoned = []\<rparr>))
    \<and> fst (ping late_client) = Inl (Err (CE_Io Io_WouldBlock))
    \<and> get (snd (put_back (snd (ping late_client)) (inner demo_busy)), \<lparr>attempts = [], dialled = [], abandoned = []\<rparr>) =
      (Inr (snd (ping late_client)), (inner demo_busy, \<lparr>attempts = [], dialled = [], abandoned = []\<rparr>))
    \<and> fst (commit (snd (ping late_client))) = Inr ()"
  by (rule sessions_cross_users [where k = "the (conn late_client)" and rc = 0 and body = "[]"
        and cas = "CAS 1 1 1 1"])
    (simp_all add: late_client_def healthy_def frameable_def demo_busy_def demo_pool_def
      open_client_def is_closed_def)

end
