(* ===== verification/Data_Tests.thy ===== *)
theory Data_Tests
  imports Result_Types
begin

text \<open>
  The unit tests of \<open>constants.rs\<close>, \<open>value.rs\<close> and \<open>types.rs\<close> of \<open>crates/cubrid-protocol\<close>,
  run on the model. Left out are the tests of derived \<open>Debug\<close> and \<open>Clone\<close> code and of the
  printed form of floats. A test about printing holds for every float printer \<open>ff\<close>.
\<close>

section \<open>Constants\<close>

definition test_data_type_from_u8_all_variants :: bool where
  "test_data_type_from_u8_all_variants \<longleftrightarrow>
     list_all (\<lambda>(byte, expected). data_type_from_u8 byte = Some expected)
     [(0, DT_Null), (1, DT_Char), (2, DT_String), (3, DT_NChar), (4, DT_VarNChar),
      (5, DT_Bit), (6, DT_VarBit), (7, DT_Numeric), (8, DT_Int), (9, DT_Short),
      (10, DT_Monetary), (11, DT_Float), (12, DT_Double), (13, DT_Date), (14, DT_Time),
      (15, DT_Timestamp), (16, DT_Set), (17, DT_Multiset), (18, DT_Sequence),
      (19, DT_Object), (21, DT_Bigint), (22, DT_Datetime), (23, DT_Blob), (24, DT_Clob),
      (25, DT_Enum)]"

definition test_data_type_from_u8_invalid :: bool where
  "test_data_type_from_u8_invalid \<longleftrightarrow> data_type_from_u8 20 = None \<and> data_type_from_u8 26 = None
     \<and> data_type_from_u8 255 = None"

definition test_data_type_type_name_all_variants :: bool where
  "test_data_type_type_name_all_variants \<longleftrightarrow>
     list_all (\<lambda>(dt, expected_name). type_name dt = bytes_of expected_name)
     [(DT_Null, ''NULL''), (DT_Char, ''CHAR''), (DT_String, ''VARCHAR''),
      (DT_NChar, ''NCHAR''), (DT_VarNChar, ''VARNCHAR''), (DT_Bit, ''BIT''),
      (DT_VarBit, ''VARBIT''), (DT_Numeric, ''NUMERIC''), (DT_Int, ''INTEGER''),
      (DT_Short, ''SMALLINT''), (DT_Monetary, ''MONETARY''), (DT_Float, ''FLOAT''),
      (DT_Double, ''DOUBLE''), (DT_Date, ''DATE''), (DT_Time, ''TIME''),
      (DT_Timestamp, ''TIMESTAMP''), (DT_Set, ''SET''), (DT_Multiset, ''MULTISET''),
      (DT_Sequence, ''SEQUENCE''), (DT_Object, ''OBJECT''), (DT_Bigint, ''BIGINT''),
      (DT_Datetime, ''DATETIME''), (DT_Blob, ''BLOB''), (DT_Clob, ''CLOB''),
      (DT_Enum, ''ENUM'')]"

definition test_statement_type_from_u8_all_variants :: bool where
  "test_statement_type_from_u8_all_variants \<longleftrightarrow>
     list_all (\<lambda>(byte, expected). statement_type_from_u8 byte = expected)
     [(0, ST_AlterClass), (1, ST_AlterSerial), (2, ST_CommitWork), (3, ST_RegisterDb),
      (4, ST_CreateClass), (5, ST_CreateIndex), (6, ST_CreateTrigger),
      (7, ST_CreateSerial), (8, ST_DropDatabase), (9, ST_DropClass), (10, ST_DropIndex),
      (11, ST_DropLabel), (12, ST_DropTrigger), (13, ST_DropSerial), (14, ST_Evaluate),
      (15, ST_RenameClass), (16, ST_RollbackWork), (17, ST_Grant), (18, ST_Revoke),
      (19, ST_Statistics), (20, ST_Insert), (21, ST_Select), (22, ST_Update),
      (23, ST_Delete), (24, ST_Call), (0x7E, ST_CallSP)]"

definition test_statement_type_from_u8_unknown :: bool where
  "test_statement_type_from_u8_unknown \<longleftrightarrow> statement_type_from_u8 25 = ST_Unknown
     \<and> statement_type_from_u8 100 = ST_Unknown \<and> statement_type_from_u8 255 = ST_Unknown"

definition test_statement_type_is_select :: bool where
  "test_statement_type_is_select \<longleftrightarrow> is_select ST_Select \<and> \<not> is_select ST_Insert
     \<and> \<not> is_select ST_Update \<and> \<not> is_select ST_Delete \<and> \<not> is_select ST_Call"

definition test_statement_type_is_call :: bool where
  "test_statement_type_is_call \<longleftrightarrow> is_call ST_Call \<and> is_call ST_CallSP \<and> \<not> is_call ST_Select
     \<and> \<not> is_call ST_Insert \<and> \<not> is_call ST_Unknown"

definition test_transaction_type_values :: bool where
  "test_transaction_type_values \<longleftrightarrow> transaction_type_u8 Commit = 1 \<and> transaction_type_u8 Rollback = 2"

definition test_function_code_values :: bool where
  "test_function_code_values \<longleftrightarrow> function_code_u8 FC_EndTran = 1
     \<and> function_code_u8 FC_Prepare = 2
     \<and> function_code_u8 FC_Execute = 3
     \<and> function_code_u8 FC_GetDbParameter = 4
     \<and> function_code_u8 FC_SetDbParameter = 5
     \<and> function_code_u8 FC_CloseReqHandle = 6
     \<and> function_code_u8 FC_Fetch = 8
     \<and> function_code_u8 FC_SchemaInfo = 9
     \<and> function_code_u8 FC_GetDbVersion = 15
     \<and> function_code_u8 FC_ExecuteBatch = 20
     \<and> function_code_u8 FC_ConClose = 31
     \<and> function_code_u8 FC_GetLastInsertId = 40
     \<and> function_code_u8 FC_PrepareAndExecute = 41"

definition test_constant_values :: bool where
  "test_constant_values \<longleftrightarrow> BROKER_MAGIC = bytes_of ''CUBRK''
     \<and> CLIENT_TYPE_JDBC = 3
     \<and> CAS_PROTO_INDICATOR = 0x40
     \<and> CAS_PROTOCOL_VERSION = 7
     \<and> CAS_VERSION = 0x47
     \<and> SIZE_CAS_INFO = 4
     \<and> SIZE_DATA_LENGTH = 4
     \<and> DEFAULT_FETCH_SIZE = 100
     \<and> SIZE_OID = 8
     \<and> PREPARE_NORMAL = 0x00
     \<and> PREPARE_HOLDABLE = 0x08
     \<and> EXECUTE_NORMAL = 0x00
     \<and> EXECUTE_QUERY_ALL = 0x02"

lemma constants_tests_pass:
  "test_data_type_from_u8_all_variants" "test_data_type_from_u8_invalid"
  "test_data_type_type_name_all_variants" "test_statement_type_from_u8_all_variants"
  "test_statement_type_from_u8_unknown" "test_statement_type_is_select" "test_statement_type_is_call"
  "test_transaction_type_values" "test_function_code_values" "test_constant_values"
  by code_simp+

section \<open>Values\<close>

text \<open>
  \<open>test_float\<close> and \<open>test_double\<close> compare up to a tolerance; the model gives all the bits.
\<close>

definition test_null :: "float_fmt \<Rightarrow> bool" where
  "test_null ff \<longleftrightarrow>
     is_null V_Null \<and> display_value ff V_Null = bytes_of ''NULL''"

definition test_bool :: "float_fmt \<Rightarrow> bool" where
  "test_bool ff \<longleftrightarrow>
     \<not> is_null (V_Bool True) \<and> as_i64 (V_Bool True) = Some 1
     \<and> display_value ff (V_Bool True) = bytes_of ''true''"

definition test_short :: bool where
  "test_short \<longleftrightarrow> as_i64 (V_Short 42) = Some 42"

definition test_int :: bool where
  "test_int \<longleftrightarrow> as_i64 (V_Int 100000) = Some 100000"

definition test_long :: bool where
  "test_long \<longleftrightarrow> as_i64 (V_Long 0x7FFFFFFFFFFFFFFF) = Some 0x7FFFFFFFFFFFFFFF"

definition test_float :: bool where
  "test_float \<longleftrightarrow> as_f64 (V_Float 0x40490FDB) = Some 0x400921FB60000000"

definition test_double :: bool where
  "test_double \<longleftrightarrow> as_f64 (V_Double 0x400921FB54442D18) = Some 0x400921FB54442D18"

definition test_string :: "float_fmt \<Rightarrow> bool" where
  "test_string ff \<longleftrightarrow> (let v = V_String (bytes_of ''hello'')
      in as_str v = Some (bytes_of ''hello'') \<and> display_value ff v = bytes_of ''hello'')"

definition test_bytes :: "float_fmt \<Rightarrow> bool" where
  "test_bytes ff \<longleftrightarrow> (let v = V_Bytes [0xDE, 0xAD]
      in value_as_bytes v = Some [0xDE, 0xAD] \<and> display_value ff v = bytes_of ''<2 bytes>'')"

definition test_date_display :: "float_fmt \<Rightarrow> bool" where
  "test_date_display ff \<longleftrightarrow>
     display_value ff (V_Date 2024 3 15) = bytes_of ''2024-03-15''"

definition test_time_display :: "float_fmt \<Rightarrow> bool" where
  "test_time_display ff \<longleftrightarrow>
     display_value ff (V_Time 10 30 45) = bytes_of ''10:30:45''"

definition test_timestamp_display :: "float_fmt \<Rightarrow> bool" where
  "test_timestamp_display ff \<longleftrightarrow>
     display_value ff (V_Timestamp 2024 3 15 10 30 45) = bytes_of ''2024-03-15 10:30:45''"

definition test_datetime_display :: "float_fmt \<Rightarrow> bool" where
  "test_datetime_display ff \<longleftrightarrow>
     display_value ff (V_Datetime 2024 3 15 10 30 45 123) = bytes_of ''2024-03-15 10:30:45.123''"

definition test_from_i32 :: bool where
  "test_from_i32 \<longleftrightarrow> value_from_i32 42 = V_Int 42"

definition test_from_str :: bool where
  "test_from_str \<longleftrightarrow>
     value_from_str (bytes_of ''hello'') = V_String (bytes_of ''hello'')"

definition test_from_option_some :: bool where
  "test_from_option_some \<longleftrightarrow>
     value_from_option value_from_i32 (Some 42) = V_Int 42"

definition test_from_option_none :: bool where
  "test_from_option_none \<longleftrightarrow> value_from_option value_from_i32 None = V_Null"

definition test_as_i64_returns_none_for_string :: bool where
  "test_as_i64_returns_none_for_string \<longleftrightarrow>
     as_i64 (V_String (bytes_of ''not a number'')) = None"

definition test_as_f64_returns_none_for_string :: bool where
  "test_as_f64_returns_none_for_string \<longleftrightarrow>
     as_f64 (V_String (bytes_of ''not a number'')) = None"

definition test_as_str_returns_none_for_int :: bool where
  "test_as_str_returns_none_for_int \<longleftrightarrow> as_str (V_Int 42) = None"

definition test_as_bytes_returns_none_for_string :: bool where
  "test_as_bytes_returns_none_for_string \<longleftrightarrow>
     value_as_bytes (V_String (bytes_of ''hello'')) = None"

definition test_display_short :: "float_fmt \<Rightarrow> bool" where
  "test_display_short ff \<longleftrightarrow> display_value ff (V_Short 42) = bytes_of ''42''"

definition test_display_bool_false :: "float_fmt \<Rightarrow> bool" where
  "test_display_bool_false ff \<longleftrightarrow>
     display_value ff (V_Bool False) = bytes_of ''false''"

definition test_as_i64_bool_false :: bool where
  "test_as_i64_bool_false \<longleftrightarrow> as_i64 (V_Bool False) = Some 0"

definition test_as_f64_returns_none_for_int :: bool where
  "test_as_f64_returns_none_for_int \<longleftrightarrow> as_f64 (V_Int 42) = None"

definition test_as_str_returns_none_for_null :: bool where
  "test_as_str_returns_none_for_null \<longleftrightarrow> as_str V_Null = None"

definition test_as_bytes_returns_none_for_null :: bool where
  "test_as_bytes_returns_none_for_null \<longleftrightarrow> value_as_bytes V_Null = None"

definition test_display_long :: "float_fmt \<Rightarrow> bool" where
  "test_display_long ff \<longleftrightarrow>
     display_value ff (V_Long 999999) = bytes_of ''999999''"

definition test_display_bytes_empty :: "float_fmt \<Rightarrow> bool" where
  "test_display_bytes_empty ff \<longleftrightarrow>
     display_value ff (V_Bytes []) = bytes_of ''<0 bytes>''"

definition test_from_bool :: bool where
  "test_from_bool \<longleftrightarrow>
     value_from_bool True = V_Bool True \<and> value_from_bool False = V_Bool False"

definition test_from_i16 :: bool where
  "test_from_i16 \<longleftrightarrow> value_from_i16 100 = V_Short 100"

definition test_from_i64 :: bool where
  "test_from_i64 \<longleftrightarrow> value_from_i64 42 = V_Long 42"

definition test_from_f32 :: bool where
  "test_from_f32 \<longleftrightarrow> value_from_f32 0x3FC00000 = V_Float 0x3FC00000"

definition test_from_f64 :: bool where
  "test_from_f64 \<longleftrightarrow>
     value_from_f64 0x400921FB54442D18 = V_Double 0x400921FB54442D18"

definition test_from_string :: bool where
  "test_from_string \<longleftrightarrow>
     value_from_string (bytes_of ''owned'') = V_String (bytes_of ''owned'')"

definition test_from_vec_u8 :: bool where
  "test_from_vec_u8 \<longleftrightarrow> value_from_bytes [1, 2, 3] = V_Bytes [1, 2, 3]"

definition test_is_null :: bool where
  "test_is_null \<longleftrightarrow>
     is_null V_Null \<and> \<not> is_null (V_Int 0) \<and> \<not> is_null (V_Bool False)
     \<and> \<not> is_null (V_String [])"

definition test_as_i64_short :: bool where
  "test_as_i64_short \<longleftrightarrow>
     as_i64 (V_Short 0x7FFF) = Some 32767 \<and> as_i64 (V_Short 0x8000) = Some (- 32768)"

definition test_as_f64_float :: bool where
  "test_as_f64_float \<longleftrightarrow> as_f64 (V_Float 0x3F800000) = Some 0x3FF0000000000000"

lemma value_text_tests_pass:
  "test_display_long ff" "test_null ff" "test_bool ff" "test_string ff" "test_bytes ff"
  "test_date_display ff" "test_time_display ff" "test_timestamp_display ff"
  "test_datetime_display ff" "test_display_short ff" "test_display_bool_false ff"
  "test_display_bytes_empty ff"
  by (simp_all add: bytes_of_def fmt_int_def fmt_int_pad_def dec_digits.simps show_date_def
      show_time_def test_display_long_def test_null_def test_bool_def test_string_def test_bytes_def
      test_date_display_def test_time_display_def test_timestamp_display_def
      test_datetime_display_def test_display_short_def test_display_bool_false_def
      test_display_bytes_empty_def)

lemma value_tests_pass:
  "test_short" "test_int" "test_long" "test_float" "test_double" "test_from_i32"
  "test_from_str" "test_from_option_some" "test_from_option_none"
  "test_as_i64_returns_none_for_string" "test_as_f64_returns_none_for_string"
  "test_as_str_returns_none_for_int" "test_as_bytes_returns_none_for_string"
  "test_as_i64_bool_false" "test_as_f64_returns_none_for_int"
  "test_as_str_returns_none_for_null" "test_as_bytes_returns_none_for_null" "test_from_bool"
  "test_from_i16" "test_from_i64" "test_from_f32" "test_from_f64" "test_from_string"
  "test_from_vec_u8" "test_is_null" "test_as_i64_short" "test_as_f64_float"
  by code_simp+

section \<open>Result types\<close>

definition test_prepare_and_execute_result_empty :: bool where
  "test_prepare_and_execute_result_empty \<longleftrightarrow>
     (let result = \<lparr>pae_query_handle = 1, pae_statement_type = ST_Select, pae_bind_count = 0,
            pae_columns = [], pae_total_tuple_count = 0, pae_result_infos = [], pae_tuple_count = 0,
            pae_rows = []\<rparr>
      in pae_query_handle result = 1 \<and> pae_total_tuple_count result = 0 \<and> pae_rows result = [])"

definition test_prepare_result :: bool where
  "test_prepare_result \<longleftrightarrow>
     (let result = \<lparr>prep_query_handle = 42, prep_statement_type = ST_Select, prep_bind_count = 2,
            prep_columns = []\<rparr>
      in prep_query_handle result = 42 \<and> prep_bind_count result = 2)"

definition test_execute_result :: bool where
  "test_execute_result \<longleftrightarrow>
     exec_total_tuple_count \<lparr>exec_total_tuple_count = 5, exec_result_infos = [],
       exec_tuple_count = 0, exec_rows = []\<rparr> = 5"

definition test_fetch_result :: bool where
  "test_fetch_result \<longleftrightarrow>
     (let result = \<lparr>fetch_tuple_count = 10, fetch_rows = [[V_Int 1, V_String (bytes_of ''test'')]]\<rparr>
      in fetch_tuple_count result = 10 \<and> length (fetch_rows result) = 1
         \<and> length (fetch_rows result ! 0) = 2)"

lemma types_tests_pass:
  "test_prepare_and_execute_result_empty" "test_prepare_result" "test_execute_result" "test_fetch_result"
  by code_simp+

end
