(* ===== verification/Codec_Tests.thy ===== *)
theory Codec_Tests
  imports Handshake
begin

text \<open>
  The unit tests of \<open>crates/cubrid-protocol/src/codec.rs\<close>, run on the model: the module
  \<open>tests\<close> at the end of the file, one definition per test. A test is the conjunction of its
  assertions. Floats are written as their bit patterns, so the two tests that compare a float
  up to a tolerance compare all its bits here.
\<close>

section \<open>Running a test\<close>

text \<open>A test that reads: every \<open>unwrap\<close> succeeds and the assertions at the end hold.\<close>

definition passes :: "bytes \<Rightarrow> bool parser \<Rightarrow> bool" where
  "passes data m \<longleftrightarrow> fst (m (reader_new data)) = Inr True"

text \<open>\<open>parse().unwrap()\<close> compared with the expected value.\<close>

definition parses :: "bytes \<Rightarrow> 'a parser \<Rightarrow> 'a \<Rightarrow> bool" where
  "parses data m x \<longleftrightarrow> fst (m (reader_new data)) = Inr x"

definition written :: "(packet_writer \<Rightarrow> packet_writer) \<Rightarrow> bytes \<Rightarrow> bool" where
  "written m bs \<longleftrightarrow> as_bytes (m writer_new) = bs"

section \<open>The writer\<close>

definition test_writer_write_byte :: bool where
  "test_writer_write_byte \<longleftrightarrow> written (write_byte 0x42) [0x42]"

definition test_writer_write_short :: bool where
  "test_writer_write_short \<longleftrightarrow> written (write_short 0x0102) [0x01, 0x02]"

definition test_writer_write_int :: bool where
  "test_writer_write_int \<longleftrightarrow> written (write_int 0x01020304) [0x01, 0x02, 0x03, 0x04]"

definition test_writer_write_long :: bool where
  "test_writer_write_long \<longleftrightarrow> written (write_long 0x0102030405060708)
     [0x01, 0x02, 0x03, 0x04, 0x05, 0x06, 0x07, 0x08]"

definition test_writer_write_float :: bool where
  "test_writer_write_float \<longleftrightarrow> written (write_float 0x3F800000) (be_bytes 4 (0x3F800000 :: f32))"

definition test_writer_write_double :: bool where
  "test_writer_write_double \<longleftrightarrow>
     written (write_double 0x3FF0000000000000) (be_bytes 8 (0x3FF0000000000000 :: f64))"

definition test_writer_write_filler :: bool where
  "test_writer_write_filler \<longleftrightarrow> written (write_filler 5) [0, 0, 0, 0, 0]"

definition test_writer_write_fixed_string :: bool where
  "test_writer_write_fixed_string \<longleftrightarrow>
     written (write_fixed_string (bytes_of ''abc'') 5) (bytes_of ''abc'' @ [0, 0])"

definition test_writer_write_fixed_string_truncate :: bool where
  "test_writer_write_fixed_string_truncate \<longleftrightarrow>
     written (write_fixed_string (bytes_of ''abcdef'') 3) (bytes_of ''abc'')"

definition test_writer_write_null_term_string :: bool where
  "test_writer_write_null_term_string \<longleftrightarrow>
     written (write_null_term_string (bytes_of ''hi'')) (be_bytes 4 (3 :: i32) @ bytes_of ''hi'' @ [0x00])"

definition test_writer_add_byte :: bool where
  "test_writer_add_byte \<longleftrightarrow> written (add_byte 0x42) (be_bytes 4 (1 :: i32) @ [0x42])"

definition test_writer_add_int :: bool where
  "test_writer_add_int \<longleftrightarrow> written (add_int 42) (be_bytes 4 (4 :: i32) @ be_bytes 4 (42 :: i32))"

definition test_writer_add_bytes :: bool where
  "test_writer_add_bytes \<longleftrightarrow> written (add_bytes [1, 2, 3]) (be_bytes 4 (3 :: i32) @ [1, 2, 3])"

definition test_writer_add_null :: bool where
  "test_writer_add_null \<longleftrightarrow> written add_null (be_bytes 4 (0 :: i32))"

definition test_writer_add_cache_time :: bool where
  "test_writer_add_cache_time \<longleftrightarrow> written add_cache_time
     (be_bytes 4 (usize_as_i32 SIZE_LONG) @ be_bytes 4 (0 :: i32) @ be_bytes 4 (0 :: i32))"

definition test_build_header :: bool where
  "test_build_header \<longleftrightarrow>
     (let cas = CAS 0x01 0x02 0x03 0x04
      in build_header 100 cas = be_bytes 4 (100 :: u32) @ cas_bytes cas)"

definition test_build_request :: bool where
  "test_build_request \<longleftrightarrow>
     (let cas = CAS 0xAA 0xBB 0xCC 0xDD; payload = [0x01, 0x02, 0x03];
          req = build_request payload cas
      in length req = 8 + 3 \<and> take 4 req = be_bytes 4 (3 :: u32)
         \<and> take 4 (drop 4 req) = cas_bytes cas \<and> drop 8 req = [0x01, 0x02, 0x03])"

definition test_writer_len_and_clear :: bool where
  "test_writer_len_and_clear \<longleftrightarrow>
     (let w = writer_new; w1 = write_byte 0x01 w; w2 = writer_clear w1
      in writer_is_empty w \<and> writer_len w1 = 1 \<and> \<not> writer_is_empty w1 \<and> writer_is_empty w2)"

definition test_writer_add_short :: bool where
  "test_writer_add_short \<longleftrightarrow> written (add_short 42) (be_bytes 4 (2 :: i32) @ be_bytes 2 (42 :: i16))"

definition test_writer_add_long :: bool where
  "test_writer_add_long \<longleftrightarrow>
     written (add_long 123456789) (be_bytes 4 (8 :: i32) @ be_bytes 8 (123456789 :: i64))"

definition test_writer_add_float :: bool where
  "test_writer_add_float \<longleftrightarrow>
     written (add_float 0x3FC00000) (be_bytes 4 (4 :: i32) @ be_bytes 4 (0x3FC00000 :: f32))"

definition test_writer_add_double :: bool where
  "test_writer_add_double \<longleftrightarrow>
     written (add_double 0x4004000000000000) (be_bytes 4 (8 :: i32) @ be_bytes 8 (0x4004000000000000 :: f64))"

definition test_writer_default :: bool where
  "test_writer_default \<longleftrightarrow> writer_is_empty writer_default"

lemma writer_tests_pass:
  "test_writer_write_byte" "test_writer_write_short" "test_writer_write_int" "test_writer_write_long"
  "test_writer_write_float" "test_writer_write_double" "test_writer_write_filler"
  "test_writer_write_fixed_string" "test_writer_write_fixed_string_truncate"
  "test_writer_write_null_term_string" "test_writer_add_byte" "test_writer_add_int"
  "test_writer_add_bytes" "test_writer_add_null" "test_writer_add_cache_time" "test_build_header"
  "test_build_request" "test_writer_len_and_clear" "test_writer_add_short" "test_writer_add_long"
  "test_writer_add_float" "test_writer_add_double" "test_writer_default"
  by code_simp+

section \<open>The reader\<close>

definition test_reader_parse_byte :: bool where
  "test_reader_parse_byte \<longleftrightarrow> passes [0x42]
     (and_then parse_byte (\<lambda>b. and_then remaining_now (\<lambda>n. ok (b = 0x42 \<and> n = 0))))"

definition test_reader_parse_short :: bool where
  "test_reader_parse_short \<longleftrightarrow> parses (be_bytes 2 (0x0102 :: i16)) parse_short 0x0102"

definition test_reader_parse_int :: bool where
  "test_reader_parse_int \<longleftrightarrow> parses (be_bytes 4 (42 :: i32)) parse_int 42"

definition test_reader_parse_long :: bool where
  "test_reader_parse_long \<longleftrightarrow> parses (be_bytes 8 (123456789 :: i64)) parse_long 123456789"

definition test_reader_parse_float :: bool where
  "test_reader_parse_float \<longleftrightarrow> parses (be_bytes 4 (0x40490FDB :: f32)) parse_float 0x40490FDB"

definition test_reader_parse_double :: bool where
  "test_reader_parse_double \<longleftrightarrow>
     parses (be_bytes 8 (0x400921FB54442D18 :: f64)) parse_double 0x400921FB54442D18"

definition test_reader_parse_null_term_string :: bool where
  "test_reader_parse_null_term_string \<longleftrightarrow>
     parses (bytes_of ''hi'' @ [0x00]) (parse_null_term_string 3) (bytes_of ''hi'')"

definition test_reader_parse_null_term_string_empty :: bool where
  "test_reader_parse_null_term_string_empty \<longleftrightarrow> parses [] (parse_null_term_string 0) []"

definition test_reader_parse_cas_info :: bool where
  "test_reader_parse_cas_info \<longleftrightarrow> passes [0x01, 0x02, 0x03, 0x04, 0xFF]
     (and_then parse_cas_info (\<lambda>info. and_then remaining_now (\<lambda>n.
      ok (info = CAS 0x01 0x02 0x03 0x04 \<and> n = 1))))"

definition test_reader_read_error :: bool where
  "test_reader_read_error \<longleftrightarrow>
     (let buf = be_bytes 4 (- 1234 :: i32) @ bytes_of ''test error'' @ [0]
      in parses buf (read_error (length buf)) (- 1234, bytes_of ''test error''))"

definition test_reader_parse_date :: bool where
  "test_reader_parse_date \<longleftrightarrow>
     parses (be_bytes 2 (2024 :: i16) @ be_bytes 2 (3 :: i16) @ be_bytes 2 (15 :: i16))
       parse_date (2024, 3, 15)"

definition test_reader_parse_datetime :: bool where
  "test_reader_parse_datetime \<longleftrightarrow>
     parses (concat (map (be_bytes 2) [2024 :: i16, 3, 15, 10, 30, 45, 123]))
       parse_datetime (2024, 3, 15, 10, 30, 45, 123)"

definition test_reader_skip :: bool where
  "test_reader_skip \<longleftrightarrow> passes [0x01, 0x02, 0x03, 0x04]
     (and_then (skip 2) (\<lambda>_. and_then remaining_now (\<lambda>n. and_then parse_byte (\<lambda>b.
      ok (n = 2 \<and> b = 0x03)))))"

definition test_reader_eof_error :: bool where
  "test_reader_eof_error \<longleftrightarrow>
     fst (parse_int (reader_new [0x01])) = Inl (Err (PE_UnexpectedEof 4 1))"

definition test_parse_protocol_header :: bool where
  "test_parse_protocol_header \<longleftrightarrow>
     parse_protocol_header (be_bytes 4 (256 :: u32) @ [0xAA, 0xBB, 0xCC, 0xDD])
       = (256, CAS 0xAA 0xBB 0xCC 0xDD)"

definition test_roundtrip_writer_reader :: bool where
  "test_roundtrip_writer_reader \<longleftrightarrow>
     (let w = writer_new;
          w = write_byte 0x42 w;
          w = write_short 1234 w;
          w = write_int 56789 w;
          w = write_long 1234567890 w;
          w = write_null_term_string (bytes_of ''hello'') w
      in passes (into_bytes w)
           (and_then parse_byte (\<lambda>b. and_then parse_short (\<lambda>s. and_then parse_int (\<lambda>i.
            and_then parse_long (\<lambda>l. and_then parse_int (\<lambda>str_len.
            and_then (parse_null_term_string (i32_as_usize str_len)) (\<lambda>str.
            and_then remaining_now (\<lambda>n.
            ok (b = 0x42 \<and> s = 1234 \<and> i = 56789 \<and> l = 1234567890
                \<and> str = bytes_of ''hello'' \<and> n = 0))))))))))"

text \<open>\<open>r.position()\<close> between two reads.\<close>

definition position_now :: "usize parser" where
  "position_now r = (Inr (position r), r)"

definition test_reader_position :: bool where
  "test_reader_position \<longleftrightarrow> passes [0x01, 0x02, 0x03, 0x04]
     (and_then position_now (\<lambda>p0. and_then parse_byte (\<lambda>_. and_then position_now (\<lambda>p1.
      and_then parse_short (\<lambda>_. and_then position_now (\<lambda>p2.
      ok (p0 = 0 \<and> p1 = 1 \<and> p2 = 3)))))))"

definition test_reader_parse_u_byte :: bool where
  "test_reader_parse_u_byte \<longleftrightarrow> parses [0xFF] parse_u_byte 0xFF"

definition test_reader_read_error_empty_message :: bool where
  "test_reader_read_error_empty_message \<longleftrightarrow>
     parses (be_bytes 4 (- 999 :: i32)) (read_error 4) (- 999, [])"

lemma reader_tests_pass:
  "test_reader_parse_byte" "test_reader_parse_short" "test_reader_parse_int" "test_reader_parse_long"
  "test_reader_parse_float" "test_reader_parse_double" "test_reader_parse_null_term_string"
  "test_reader_parse_null_term_string_empty" "test_reader_parse_cas_info" "test_reader_read_error"
  "test_reader_parse_date" "test_reader_parse_datetime" "test_reader_skip" "test_reader_eof_error"
  "test_parse_protocol_header" "test_roundtrip_writer_reader" "test_reader_position"
  "test_reader_parse_u_byte" "test_reader_read_error_empty_message"
  by code_simp+

end
