(* ===== verification/Request_Tests.thy ===== *)
theory Request_Tests
  imports Codec_Tests Requests
begin

text \<open>
  The unit tests of \<open>handshake.rs\<close> and \<open>request.rs\<close> of \<open>crates/cubrid-protocol\<close>, run on the
  model.
\<close>

abbreviation i32_bytes :: "i32 \<Rightarrow> bytes" where "i32_bytes \<equiv> be_bytes 4"

abbreviation i16_bytes :: "i16 \<Rightarrow> bytes" where "i16_bytes \<equiv> be_bytes 2"

abbreviation zero_cas :: cas_info where "zero_cas \<equiv> CAS 0 0 0 0"

section \<open>Handshake\<close>

definition test_client_info_exchange :: bool where
  "test_client_info_exchange \<longleftrightarrow>
     (let buf = write_client_info_exchange
      in length buf = CLIENT_INFO_EXCHANGE_SIZE \<and> take 5 buf = bytes_of ''CUBRK''
         \<and> buf ! 5 = CLIENT_TYPE_JDBC \<and> buf ! 6 = CAS_VERSION \<and> drop 7 buf = [0, 0, 0])"

definition test_parse_client_info_exchange_positive :: bool where
  "test_parse_client_info_exchange_positive \<longleftrightarrow> parse_client_info_exchange (i32_bytes 33001) = 33001"

definition test_parse_client_info_exchange_zero :: bool where
  "test_parse_client_info_exchange_zero \<longleftrightarrow> parse_client_info_exchange (i32_bytes 0) = 0"

definition test_parse_client_info_exchange_negative :: bool where
  "test_parse_client_info_exchange_negative \<longleftrightarrow> parse_client_info_exchange (i32_bytes (- 1)) = - 1"

definition test_open_database_size :: bool where
  "test_open_database_size \<longleftrightarrow>
     length (write_open_database (bytes_of ''testdb'') (bytes_of ''dba'') (bytes_of ''secret''))
       = DB_OPEN_PAYLOAD_SIZE"

definition test_open_database_fields :: bool where
  "test_open_database_fields \<longleftrightarrow>
     (let buf = write_open_database (bytes_of ''mydb'') (bytes_of ''user1'') (bytes_of ''pass1'')
      in take 4 buf = bytes_of ''mydb'' \<and> buf ! 4 = 0
         \<and> take 5 (drop 32 buf) = bytes_of ''user1'' \<and> buf ! 37 = 0
         \<and> take 5 (drop 64 buf) = bytes_of ''pass1'' \<and> buf ! 69 = 0
         \<and> list_all (\<lambda>b. b = 0) (drop 96 buf))"

definition test_parse_open_database_success :: bool where
  "test_parse_open_database_success \<longleftrightarrow>
     (let broker_info = (replicate SIZE_BROKER_INFO 0)[4 := 7];
          buf = [0x01, 0x02, 0x03, 0x04] @ i32_bytes 1 @ broker_info @ i32_bytes 42
      in parse_open_database buf =
           Inr \<lparr>odr_cas_info = CAS 0x01 0x02 0x03 0x04, odr_proto_version = 7, odr_session_id = 42\<rparr>)"

definition test_parse_open_database_error :: bool where
  "test_parse_open_database_error \<longleftrightarrow>
     (let buf = [0x01, 0x02, 0x03, 0x04] @ i32_bytes (- 1) @ i32_bytes (- 100)
            @ bytes_of ''auth failed'' @ [0]
      in parse_open_database buf = Inl (Err (PE_ServerError (- 100) (bytes_of ''auth failed''))))"

definition test_write_con_close :: bool where
  "test_write_con_close \<longleftrightarrow>
     (let buf = write_con_close (CAS 0x01 0x02 0x03 0x04)
      in length buf = 9 \<and> buf ! 8 = function_code_u8 FC_ConClose)"

definition test_write_end_tran_commit :: bool where
  "test_write_end_tran_commit \<longleftrightarrow>
     (let buf = write_end_tran Commit zero_cas
      in length buf = 14 \<and> buf ! 8 = function_code_u8 FC_EndTran)"

definition test_write_get_db_version :: bool where
  "test_write_get_db_version \<longleftrightarrow>
     write_get_db_version True zero_cas ! 8 = function_code_u8 FC_GetDbVersion"

definition test_parse_get_db_version_success :: bool where
  "test_parse_get_db_version_success \<longleftrightarrow>
     (let buf = [0x01, 0x02, 0x03, 0x04] @ i32_bytes 1 @ bytes_of ''11.2.0'' @ [0]
      in parse_get_db_version buf = Inr (bytes_of ''11.2.0'', CAS 0x01 0x02 0x03 0x04))"

lemma handshake_tests_pass:
  "test_client_info_exchange" "test_parse_client_info_exchange_positive"
  "test_parse_client_info_exchange_zero" "test_parse_client_info_exchange_negative"
  "test_open_database_size" "test_open_database_fields" "test_parse_open_database_success"
  "test_parse_open_database_error" "test_write_con_close" "test_write_end_tran_commit"
  "test_write_get_db_version" "test_parse_get_db_version_success"
  by code_simp+

section \<open>Requests\<close>

definition test_prepare_and_execute_starts_with_header :: bool where
  "test_prepare_and_execute_starts_with_header \<longleftrightarrow>
     (let cas = CAS 0x01 0x02 0x03 0x04;
          buf = write_prepare_and_execute (bytes_of ''SELECT 1'') True cas;
          data_len = unat (be_word [buf ! 0, buf ! 1, buf ! 2, buf ! 3] :: u32)
      in take 4 (drop 4 buf) = cas_bytes cas \<and> length buf = 8 + data_len
         \<and> buf ! 8 = function_code_u8 FC_PrepareAndExecute)"

definition test_prepare_starts_with_header :: bool where
  "test_prepare_starts_with_header \<longleftrightarrow>
     write_prepare (bytes_of ''SELECT 1'') False zero_cas ! 8 = function_code_u8 FC_Prepare"

definition test_execute_starts_with_header :: bool where
  "test_execute_starts_with_header \<longleftrightarrow>
     write_execute 1 ST_Select [] True zero_cas ! 8 = function_code_u8 FC_Execute"

definition test_fetch_starts_with_header :: bool where
  "test_fetch_starts_with_header \<longleftrightarrow> write_fetch 1 0 100 zero_cas ! 8 = function_code_u8 FC_Fetch"

definition test_close_req_handle :: bool where
  "test_close_req_handle \<longleftrightarrow>
     write_close_req_handle 42 zero_cas ! 8 = function_code_u8 FC_CloseReqHandle"

definition test_get_last_insert_id :: bool where
  "test_get_last_insert_id \<longleftrightarrow>
     write_get_last_insert_id zero_cas ! 8 = function_code_u8 FC_GetLastInsertId"

definition test_encode_bind_params_empty :: bool where
  "test_encode_bind_params_empty \<longleftrightarrow> encode_bind_params [] = []"

definition test_encode_bind_null :: bool where
  "test_encode_bind_null \<longleftrightarrow> encode_bind_params [V_Null] = i32_bytes 0"

definition test_encode_bind_bool :: bool where
  "test_encode_bind_bool \<longleftrightarrow> encode_bind_params [V_Bool True] =
     i32_bytes 3 @ [data_type_u8 DT_Short] @ i16_bytes 1"

definition test_encode_bind_long :: bool where
  "test_encode_bind_long \<longleftrightarrow> encode_bind_params [V_Long 42] =
     i32_bytes 9 @ [data_type_u8 DT_Bigint] @ be_bytes 8 (42 :: i64)"

definition test_encode_bind_string :: bool where
  "test_encode_bind_string \<longleftrightarrow> encode_bind_params [V_String (bytes_of ''hi'')] =
     i32_bytes 4 @ [data_type_u8 DT_String] @ bytes_of ''hi'' @ [0x00]"

definition test_encode_bind_bytes :: bool where
  "test_encode_bind_bytes \<longleftrightarrow> encode_bind_params [V_Bytes [0xAA, 0xBB]] =
     i32_bytes 3 @ [data_type_u8 DT_VarBit] @ [0xAA, 0xBB]"

definition test_encode_bind_double :: bool where
  "test_encode_bind_double \<longleftrightarrow> encode_bind_params [V_Double 0x400921FB54442D18] =
     i32_bytes 9 @ [data_type_u8 DT_Double] @ be_bytes 8 (0x400921FB54442D18 :: f64)"

definition test_encode_bind_datetime :: bool where
  "test_encode_bind_datetime \<longleftrightarrow> encode_bind_params [V_Datetime 2024 3 15 10 30 45 123] =
     i32_bytes 15 @ [data_type_u8 DT_Datetime] @ concat (map i16_bytes [2024, 3, 15, 10, 30, 45, 123])"

definition test_encode_multiple_params :: bool where
  "test_encode_multiple_params \<longleftrightarrow>
     (let data = encode_bind_params [V_Int 42, V_String (bytes_of ''hello''), V_Null]
      in data \<noteq> [] \<and> (be_word [data ! 0, data ! 1, data ! 2, data ! 3] :: i32) = 5)"

definition test_encode_bind_int :: bool where
  "test_encode_bind_int \<longleftrightarrow> encode_bind_params [V_Int 42] =
     i32_bytes 5 @ [data_type_u8 DT_Int] @ i32_bytes 42"

definition test_encode_bind_short :: bool where
  "test_encode_bind_short \<longleftrightarrow> encode_bind_params [V_Short 100] =
     i32_bytes 3 @ [data_type_u8 DT_Short] @ i16_bytes 100"

definition test_encode_bind_float :: bool where
  "test_encode_bind_float \<longleftrightarrow> encode_bind_params [V_Float 0x3FC00000] =
     i32_bytes 5 @ [data_type_u8 DT_Float] @ be_bytes 4 (0x3FC00000 :: f32)"

definition test_encode_bind_date :: bool where
  "test_encode_bind_date \<longleftrightarrow> encode_bind_params [V_Date 2024 6 15] =
     i32_bytes 15 @ [data_type_u8 DT_Datetime] @ concat (map i16_bytes [2024, 6, 15, 0, 0, 0, 0])"

definition test_encode_bind_time :: bool where
  "test_encode_bind_time \<longleftrightarrow> encode_bind_params [V_Time 14 30 45] =
     i32_bytes 15 @ [data_type_u8 DT_Time] @ concat (map i16_bytes [0, 0, 0, 14, 30, 45, 0])"

definition test_encode_bind_timestamp :: bool where
  "test_encode_bind_timestamp \<longleftrightarrow> encode_bind_params [V_Timestamp 2024 6 15 14 30 45] =
     i32_bytes 15 @ [data_type_u8 DT_Timestamp] @ concat (map i16_bytes [2024, 6, 15, 14, 30, 45, 0])"

lemma request_tests_pass:
  "test_prepare_and_execute_starts_with_header" "test_prepare_starts_with_header"
  "test_execute_starts_with_header" "test_fetch_starts_with_header" "test_close_req_handle"
  "test_get_last_insert_id" "test_encode_bind_params_empty" "test_encode_bind_null"
  "test_encode_bind_bool" "test_encode_bind_long" "test_encode_bind_string" "test_encode_bind_bytes"
  "test_encode_bind_double" "test_encode_bind_datetime" "test_encode_multiple_params"
  "test_encode_bind_int" "test_encode_bind_short" "test_encode_bind_float" "test_encode_bind_date"
  "test_encode_bind_time" "test_encode_bind_timestamp"
  by code_simp+

end
