(* ===== verification/Response_Tests.thy ===== *)
theory Response_Tests
  imports Request_Tests Response_Format "HOL-Library.Code_Target_Nat"
begin

text \<open>
  The unit tests of \<open>crates/cubrid-protocol/src/response.rs\<close>, run on the model, with the two
  helpers that build column metadata and result infos. Short inputs are evaluated; longer ones
  are recognised as instances of the response format, whose decoding is proved.
\<close>

section \<open>Helpers\<close>

definition build_column_meta :: "u8 \<Rightarrow> bytes \<Rightarrow> bytes" where
  "build_column_meta col_type n =
     [col_type] @ i16_bytes 0 @ i32_bytes 10
     @ i32_bytes (usize_as_i32 (length n + 1)) @ n @ [0x00]
     @ i32_bytes (usize_as_i32 (length n + 1)) @ n @ [0x00]
     @ i32_bytes (usize_as_i32 (length (bytes_of ''test_table'') + 1)) @ bytes_of ''test_table'' @ [0x00]
     @ [1] @ i32_bytes 1 @ [0x00] @ [0] @ [0] @ [1] @ [0] @ [0] @ [0] @ [0]"

definition build_result_info :: "u8 \<Rightarrow> i32 \<Rightarrow> bytes" where
  "build_result_info st count =
     [st] @ i32_bytes count @ replicate SIZE_OID 0 @ i32_bytes 0 @ i32_bytes 0"

text \<open>The columns that the tests write out, which differ in five fields.\<close>

definition plain_column :: "data_type \<Rightarrow> i32 \<Rightarrow> bytes \<Rightarrow> bytes \<Rightarrow> bool \<Rightarrow> column_metadata" where
  "plain_column dt prec n tbl nullable =
     \<lparr>column_type = dt, scale = 0, precision = prec, name = n, real_name = n, table_name = tbl,
      is_nullable = nullable, default_value = [], is_auto_increment = False, is_unique_key = False,
      is_primary_key = False, is_foreign_key = False\<rparr>"

text \<open>A row that begins with its index and its object id.\<close>

abbreviation row_head :: bytes where
  "row_head \<equiv> i32_bytes 1 @ replicate SIZE_OID 0"

text \<open>\<open>parse().unwrap()\<close> on a reader, or on a whole response, and assertions on the result.\<close>

definition parses_to :: "bytes \<Rightarrow> 'a parser \<Rightarrow> ('a \<Rightarrow> bool) \<Rightarrow> bool" where
  "parses_to data m p \<longleftrightarrow> (case fst (m (reader_new data)) of Inr x \<Rightarrow> p x | Inl _ \<Rightarrow> False)"

definition succeeds :: "bytes \<Rightarrow> (bytes \<Rightarrow> ('e, 'a) outcome) \<Rightarrow> ('a \<Rightarrow> bool) \<Rightarrow> bool" where
  "succeeds data f p \<longleftrightarrow> (case f data of Inr x \<Rightarrow> p x | Inl _ \<Rightarrow> False)"

section \<open>Columns and result infos\<close>

definition test_parse_column_metadata_single :: bool where
  "test_parse_column_metadata_single \<longleftrightarrow>
     parses_to (build_column_meta (data_type_u8 DT_Int) (bytes_of ''id''))
     (parse_column_metadata 1) (\<lambda>cols. length cols = 1 \<and> column_type (cols ! 0) = DT_Int
       \<and> name (cols ! 0) = bytes_of ''id'' \<and> real_name (cols ! 0) = bytes_of ''id''
       \<and> table_name (cols ! 0) = bytes_of ''test_table'' \<and> is_nullable (cols ! 0)
       \<and> is_primary_key (cols ! 0) \<and> \<not> is_auto_increment (cols ! 0))"

definition test_parse_column_metadata_legacy_type :: bool where
  "test_parse_column_metadata_legacy_type \<longleftrightarrow> parses_to
     ([0x80 OR 0x01, data_type_u8 DT_String] @ i16_bytes 0 @ i32_bytes 255
      @ i32_bytes 5 @ bytes_of ''col1'' @ [0x00] @ i32_bytes 5 @ bytes_of ''col1'' @ [0x00]
      @ i32_bytes 2 @ bytes_of ''t'' @ [0x00]
      @ [0] @ i32_bytes 1 @ [0x00] @ [0, 0, 0, 0, 0, 0, 0])
     (parse_column_metadata 1)
     (\<lambda>cols. column_type (cols ! 0) = DT_String \<and> precision (cols ! 0) = 255)"

definition test_parse_result_infos_single :: bool where
  "test_parse_result_infos_single \<longleftrightarrow>
     parses_to (build_result_info (statement_type_u8 ST_Insert) 5)
     (parse_result_infos 1) (\<lambda>infos. length infos = 1 \<and> stmt_type (infos ! 0) = ST_Insert
       \<and> result_count (infos ! 0) = 5 \<and> length (oid (infos ! 0)) = SIZE_OID)"


text \<open>
  The tests on columns are proved from the codec lemmas: the bytes the helper builds are the
  format of a column, with the type code alone or behind the marker \<open>1\<close>.
\<close>

lemma parses_toI: "decodes m x data \<Longrightarrow> p x \<Longrightarrow> parses_to data m p"
  using decodes_run [of m x data "[]"] by (simp add: parses_to_def)

lemma succeedsI: "f data = Inr x \<Longrightarrow> p x \<Longrightarrow> succeeds data f p"
  by (simp add: succeeds_def)

definition built_column :: "data_type \<Rightarrow> bytes \<Rightarrow> column_metadata" where
  "built_column dt n =
     \<lparr>column_type = dt, scale = 0, precision = 10, name = n, real_name = n,
      table_name = bytes_of ''test_table'', is_nullable = True, default_value = [],
      is_auto_increment = False, is_unique_key = False, is_primary_key = True,
      is_foreign_key = False\<rparr>"

lemma build_column_meta_enc:
  "build_column_meta (data_type_u8 dt) n = enc_column None (0, 0, 0) (built_column dt n)"
  by (simp add: build_column_meta_def enc_column_def built_column_def enc_string_def prefixed_def
      bool_byte_def usize_as_i32_def)

lemma build_result_info_enc:
  "build_result_info (statement_type_u8 st) n =
     enc_result_info 0 0 \<lparr>stmt_type = st, result_count = n, oid = replicate SIZE_OID 0\<rparr>"
  by (simp add: build_result_info_def enc_result_info_def)



lemma test_strings_ok:
  "string_ok (bytes_of ''id'')" "string_ok (bytes_of ''col1'')" "string_ok (bytes_of ''t'')"
  "string_ok (bytes_of ''val'')" "string_ok (bytes_of ''test_table'')" "string_ok []"
  "string_ok (bytes_of ''hello'')" "string_ok (bytes_of ''world'')"
  by (simp_all add: string_ok_def wf_str_def bytes_of_def utf8_check_Suc utf8_tail_ascii)

lemma column_test_passes: "test_parse_column_metadata_single"
  unfolding test_parse_column_metadata_single_def build_column_meta_enc
  by (rule parses_toI [where x = "[built_column DT_Int (bytes_of ''id'')]"])
    (use decodes_columns [of "[built_column DT_Int (bytes_of ''id'')]" None "(0, 0, 0)"] in
      \<open>simp_all add: built_column_def column_ok_def test_strings_ok usize_as_i32_def\<close>)

lemma legacy_column_test_passes: "test_parse_column_metadata_legacy_type"
proof -
  let ?c = "plain_column DT_String 255 (bytes_of ''col1'') (bytes_of ''t'') False"
  have "decodes (parse_column_metadata 1) [?c] (enc_column (Some 1) (0, 0, 0) ?c)"
    using decodes_columns [of "[?c]" "Some 1" "(0, 0, 0)"]
    by (simp add: plain_column_def column_ok_def test_strings_ok usize_as_i32_def)
  also have "enc_column (Some 1) (0, 0, 0) ?c =
     [0x80 OR 0x01, data_type_u8 DT_String] @ i16_bytes 0 @ i32_bytes 255
      @ i32_bytes 5 @ bytes_of ''col1'' @ [0x00] @ i32_bytes 5 @ bytes_of ''col1'' @ [0x00]
      @ i32_bytes 2 @ bytes_of ''t'' @ [0x00]
      @ [0] @ i32_bytes 1 @ [0x00] @ [0, 0, 0, 0, 0, 0, 0]"
    by (simp add: plain_column_def enc_column_def enc_string_def prefixed_def bool_byte_def usize_as_i32_def)
  finally show ?thesis
    unfolding test_parse_column_metadata_legacy_type_def
    by (rule parses_toI) (simp add: plain_column_def)
qed
lemma result_infos_test_passes: "test_parse_result_infos_single"
  by code_simp

section \<open>Values\<close>

definition test_read_value_int :: bool where
  "test_read_value_int \<longleftrightarrow> parses (i32_bytes 42) (read_value DT_Int 4) (V_Int 42)"

definition test_read_value_string :: bool where
  "test_read_value_string \<longleftrightarrow>
     parses (bytes_of ''hello'' @ [0x00]) (read_value DT_String 6) (V_String (bytes_of ''hello''))"

definition test_read_value_double :: bool where
  "test_read_value_double \<longleftrightarrow>
     parses (be_bytes 8 (0x400921FB54442D18 :: f64)) (read_value DT_Double 8) (V_Double 0x400921FB54442D18)"

definition test_read_value_date :: bool where
  "test_read_value_date \<longleftrightarrow>
     parses (i16_bytes 2024 @ i16_bytes 3 @ i16_bytes 15) (read_value DT_Date 6) (V_Date 2024 3 15)"

definition test_read_value_time :: bool where
  "test_read_value_time \<longleftrightarrow>
     parses (i16_bytes 10 @ i16_bytes 30 @ i16_bytes 45) (read_value DT_Time 6) (V_Time 10 30 45)"

definition test_read_value_timestamp :: bool where
  "test_read_value_timestamp \<longleftrightarrow>
     parses (concat (map i16_bytes [2024, 3, 15, 10, 30, 45])) (read_value DT_Timestamp 12) (V_Timestamp 2024 3 15 10 30 45)"

definition test_read_value_datetime :: bool where
  "test_read_value_datetime \<longleftrightarrow>
     parses (concat (map i16_bytes [2024, 3, 15, 10, 30, 45, 123])) (read_value DT_Datetime 14) (V_Datetime 2024 3 15 10 30 45 123)"

definition test_read_value_bytes :: bool where
  "test_read_value_bytes \<longleftrightarrow>
     parses ([0xDE, 0xAD, 0xBE, 0xEF]) (read_value DT_Bit 4) (V_Bytes [0xDE, 0xAD, 0xBE, 0xEF])"

definition test_read_value_null :: bool where
  "test_read_value_null \<longleftrightarrow> parses ([]) (read_value DT_Null 0) (V_Null)"

definition test_read_value_short :: bool where
  "test_read_value_short \<longleftrightarrow>
     parses (i16_bytes 42) (read_value DT_Short 2) (V_Short 42)"

definition test_read_value_bigint :: bool where
  "test_read_value_bigint \<longleftrightarrow>
     parses (be_bytes 8 (1234567890 :: i64)) (read_value DT_Bigint 8) (V_Long 1234567890)"

definition test_read_value_float :: bool where
  "test_read_value_float \<longleftrightarrow>
     parses (be_bytes 4 (0x40200000 :: f32)) (read_value DT_Float 4) (V_Float 0x40200000)"

definition test_read_value_monetary :: bool where
  "test_read_value_monetary \<longleftrightarrow>
     parses (be_bytes 8 (0x4058FF5C28F5C28F :: f64)) (read_value DT_Monetary 8) (V_Double 0x4058FF5C28F5C28F)"

definition test_read_value_numeric :: bool where
  "test_read_value_numeric \<longleftrightarrow>
     parses (bytes_of ''123.45'' @ [0x00]) (read_value DT_Numeric 7) (V_String (bytes_of ''123.45''))"

definition test_read_value_set_type :: bool where
  "test_read_value_set_type \<longleftrightarrow>
     parses ([0x01, 0x02, 0x03, 0x04]) (read_value DT_Set 4) (V_Bytes [0x01, 0x02, 0x03, 0x04])"

definition test_read_value_multiset_type :: bool where
  "test_read_value_multiset_type \<longleftrightarrow>
     parses ([0xAA, 0xBB]) (read_value DT_Multiset 2) (V_Bytes [0xAA, 0xBB])"

definition test_read_value_sequence_type :: bool where
  "test_read_value_sequence_type \<longleftrightarrow>
     parses ([0xCC]) (read_value DT_Sequence 1) (V_Bytes [0xCC])"

definition test_read_value_object_type :: bool where
  "test_read_value_object_type \<longleftrightarrow>
     parses ([0x10, 0x20, 0x30]) (read_value DT_Object 3) (V_Bytes [0x10, 0x20, 0x30])"

text \<open>Except for \<open>NULL\<close>, the bytes are those of the value in the response format.\<close>

lemma parses_value:
  "fits t v \<Longrightarrow> n = length (enc_value v) \<Longrightarrow> data = enc_value v \<Longrightarrow> parses data (read_value t n) v"
  using decodes_run [OF decodes_value, of t v n "[]"] by (simp add: parses_def)

lemma test_texts_ok: "string_ok (bytes_of ''hello'')" "string_ok (bytes_of ''123.45'')"
  by (simp_all add: string_ok_def wf_str_def bytes_of_def utf8_check_Suc utf8_tail_ascii)

lemma read_value_tests_pass:
  "test_read_value_int" "test_read_value_string" "test_read_value_double"
  "test_read_value_date" "test_read_value_time" "test_read_value_timestamp"
  "test_read_value_datetime" "test_read_value_bytes" "test_read_value_short"
  "test_read_value_bigint" "test_read_value_float" "test_read_value_monetary"
  "test_read_value_numeric" "test_read_value_set_type" "test_read_value_multiset_type"
  "test_read_value_sequence_type" "test_read_value_object_type"
  unfolding test_read_value_int_def test_read_value_string_def test_read_value_double_def
    test_read_value_date_def test_read_value_time_def test_read_value_timestamp_def
    test_read_value_datetime_def test_read_value_bytes_def test_read_value_short_def
    test_read_value_bigint_def test_read_value_float_def test_read_value_monetary_def
    test_read_value_numeric_def test_read_value_set_type_def test_read_value_multiset_type_def
    test_read_value_sequence_type_def test_read_value_object_type_def
  by (rule parses_value; simp add: test_texts_ok)+

lemma read_null_test_passes: "test_read_value_null"
  by (simp add: test_read_value_null_def parses_def)

section \<open>Rows\<close>

definition test_parse_row_data_single_row :: bool where
  "test_parse_row_data_single_row \<longleftrightarrow>
     parses_to (row_head @ i32_bytes 4 @ i32_bytes 42)
     (parse_row_data 1 [plain_column DT_Int 10 (bytes_of ''id'') (bytes_of ''t'') False] ST_Select)
     (\<lambda>rows. length rows = 1 \<and> length (rows ! 0) = 1 \<and> rows ! 0 ! 0 = V_Int 42)"

definition test_parse_row_data_null_column :: bool where
  "test_parse_row_data_null_column \<longleftrightarrow> parses_to (row_head @ i32_bytes 0)
     (parse_row_data 1 [plain_column DT_String 255 (bytes_of ''name'') (bytes_of ''t'') True] ST_Select)
     (\<lambda>rows. rows ! 0 ! 0 = V_Null)"

definition test_parse_row_data_multiple_columns :: bool where
  "test_parse_row_data_multiple_columns \<longleftrightarrow> parses_to
     (row_head @ i32_bytes 4 @ i32_bytes 42 @ i32_bytes 6 @ bytes_of ''hello'' @ [0])
     (parse_row_data 1
       [plain_column DT_Int 10 (bytes_of ''id'') (bytes_of ''t'') False,
        plain_column DT_String 255 (bytes_of ''name'') (bytes_of ''t'') True] ST_Select)
     (\<lambda>rows. length rows = 1 \<and> rows ! 0 ! 0 = V_Int 42 \<and> rows ! 0 ! 1 = V_String (bytes_of ''hello''))"

definition test_parse_row_data_null_typed_column :: bool where
  "test_parse_row_data_null_typed_column \<longleftrightarrow> parses_to
     (row_head @ i32_bytes 5 @ [data_type_u8 DT_Int] @ i32_bytes 42)
     (parse_row_data 1 [plain_column DT_Null 255 (bytes_of ''result'') [] True] ST_Call)
     (\<lambda>rows. length rows = 1 \<and> rows ! 0 ! 0 = V_Int 42)"

definition test_parse_row_data_null_typed_column_null_value :: bool where
  "test_parse_row_data_null_typed_column_null_value \<longleftrightarrow> parses_to
     (row_head @ i32_bytes 1 @ [data_type_u8 DT_Int])
     (parse_row_data 1 [plain_column DT_Null 255 (bytes_of ''result'') [] True] ST_Call)
     (\<lambda>rows. length rows = 1 \<and> rows ! 0 ! 0 = V_Null)"

definition test_parse_row_data_null_typed_column_unknown_type :: bool where
  "test_parse_row_data_null_typed_column_unknown_type \<longleftrightarrow> parses_to
     (row_head @ i32_bytes 5 @ [0xFF] @ [0x01, 0x02, 0x03, 0x04])
     (parse_row_data 1 [plain_column DT_Null 255 (bytes_of ''result'') [] True] ST_Call)
     (\<lambda>rows. length rows = 1 \<and> rows ! 0 ! 0 = V_Bytes [0x01, 0x02, 0x03, 0x04])"


lemmas format_ok = columns_ok_def infos_ok_def rows_ok_def reported_def column_ok_def
  result_info_ok_def row_ok_def cell_ok_def is_call_def is_select_def self_typed_def row_values_def
  usize_as_i32_def test_strings_ok plain_column_def built_column_def

lemmas format_bytes = enc_prepare_and_execute_def enc_prepare_def enc_execute_def enc_fetch_def
  enc_columns_def enc_tail_def enc_result_infos_def enc_version_fields_def enc_inline_rows_def
  enc_row_def enc_cell_def is_call_def is_select_def self_typed_def usize_as_i32_def prefixed_def
  row_values_def plain_column_def built_column_def

text \<open>A result set of one row.\<close>

lemma one_row:
  assumes "row_ok (is_call st) cols w"
  shows "decodes (parse_row_data 1 cols st) [row_values w] (enc_row (is_call st) cols w)"
  using decodes_rows [of st cols "[w]"] assms by (simp add: usize_as_i32_def)

lemma typed_row_tests_pass:
  "test_parse_row_data_single_row" "test_parse_row_data_null_column"
  "test_parse_row_data_multiple_columns" "test_parse_row_data_null_typed_column"
proof -
  let ?id = "plain_column DT_Int 10 (bytes_of ''id'') (bytes_of ''t'') False"
  let ?name = "plain_column DT_String 255 (bytes_of ''name'') (bytes_of ''t'') True"
  let ?null = "plain_column DT_Null 255 (bytes_of ''result'') [] True"
  let ?hello = "(DT_String, V_String (bytes_of ''hello''))"
  have row: "parses_to (enc_row (is_call st) cols w) (parse_row_data 1 cols st) p"
    if "row_ok (is_call st) cols w" "p [row_values w]" for st cols w p
    by (rule parses_toI [OF one_row [OF that(1)], of p]) (rule that(2))
  show "test_parse_row_data_single_row"
    unfolding test_parse_row_data_single_row_def
    using row [of ST_Select "[?id]" "(1, replicate 8 0, [(DT_Int, V_Int 42)])"]
    by (simp add: format_ok format_bytes)
  show "test_parse_row_data_null_column"
    unfolding test_parse_row_data_null_column_def
    using row [of ST_Select "[?name]" "(1, replicate 8 0, [(DT_Null, V_Null)])"]
    by (simp add: format_ok format_bytes)
  show "test_parse_row_data_multiple_columns"
    unfolding test_parse_row_data_multiple_columns_def
    using row [of ST_Select "[?id, ?name]" "(1, replicate 8 0, [(DT_Int, V_Int 42), ?hello])"]
    by (simp add: format_ok format_bytes)
  show "test_parse_row_data_null_typed_column"
    unfolding test_parse_row_data_null_typed_column_def
    using row [of ST_Call "[?null]" "(1, replicate 8 0, [(DT_Int, V_Int 42)])"]
    by (simp add: format_ok format_bytes)
qed

text \<open>One row with one cell whose decoding is known.\<close>

lemma single_cell_row:
  assumes "is_call st" and cell: "decodes (parse_cell True col) v bs"
  shows "decodes (parse_row_data 1 [col] st) [[v]] (row_head @ bs)"
proof -
  have "decodes (parse_one_row (is_call st) [col]) [v] (be_bytes 4 (1 :: i32) @ replicate SIZE_OID 0 @ bs)"
    unfolding parse_one_row_def
    by (intro decodes_bind [OF decodes_scalars(3)] decodes_bind [OF decodes_skip])
      (simp_all add: decodes_last [OF cell] assms(1) decodes_ok del: ok_apply)
  then have "decodes (times_do (length [[v]]) (parse_one_row (is_call st) [col])) [[v]] (row_head @ bs)"
    using decodes_times_do [of "parse_one_row (is_call st) [col]" "[[v]]" "[row_head @ bs]"] by simp
  from decodes_counted [OF this] show ?thesis
    by (simp add: parse_row_data_def usize_as_i32_def)
qed

lemma row_self_typed_tests_pass:
  "test_parse_row_data_null_typed_column_null_value"
  "test_parse_row_data_null_typed_column_unknown_type"
proof -
  let ?col = "plain_column DT_Null 255 (bytes_of ''result'') [] True"
  have "decodes (parse_cell True ?col) V_Null (i32_bytes 1 @ [data_type_u8 DT_Int])"
    using decodes_empty_cell [of ?col "data_type_u8 DT_Int"] by (simp add: prefixed_def usize_as_i32_def)
  from single_cell_row [of ST_Call, OF _ this]
  show "test_parse_row_data_null_typed_column_null_value"
    unfolding test_parse_row_data_null_typed_column_null_value_def
    by (intro parses_toI [where x = "[[V_Null]]"]) (simp_all add: is_call_def)
  have unknown: "data_type_from_u8 0xFF = None" "i32_as_usize 5 = 5" by code_simp+
  have "decodes (case data_type_from_u8 0xFF of Some dt \<Rightarrow> read_value dt (i32_as_usize 5 - 1)
      | None \<Rightarrow> and_then (parse_raw_bytes (i32_as_usize 5 - 1)) (\<lambda>bs. ok (V_Bytes bs)))
      (V_Bytes [1, 2, 3, 4]) [1, 2, 3, 4]"
    by (simp add: unknown decodes_last [OF decodes_raw_bytes decodes_ok] del: ok_apply)
  then have "decodes (parse_cell True ?col) (V_Bytes [1, 2, 3, 4]) (i32_bytes 5 @ [0xFF] @ [1, 2, 3, 4])"
    unfolding parse_cell_def Let_def
    by (intro decodes_bind [OF decodes_scalars(3)])
      (simp add: unknown decodes_bind [OF decodes_scalars(1) [of "0xFF"], simplified] del: ok_apply)
  from single_cell_row [of ST_Call, OF _ this]
  show "test_parse_row_data_null_typed_column_unknown_type"
    unfolding test_parse_row_data_null_typed_column_unknown_type_def
    by (intro parses_toI [where x = "[[V_Bytes [1, 2, 3, 4]]]"]) (simp_all add: is_call_def)
qed
section \<open>Responses\<close>

definition test_parse_prepare_success :: bool where
  "test_parse_prepare_success \<longleftrightarrow> succeeds
     ([0x01, 0x02, 0x03, 0x04] @ i32_bytes 10 @ i32_bytes 0 @ [statement_type_u8 ST_Select]
      @ i32_bytes 2 @ [0] @ i32_bytes 0)
     (parse_prepare)
     (\<lambda>(result, cas). cas = CAS 0x01 0x02 0x03 0x04 \<and> prep_query_handle result = 10
       \<and> prep_statement_type result = ST_Select \<and> prep_bind_count result = 2
       \<and> prep_columns result = [])"

definition test_parse_prepare_error :: bool where
  "test_parse_prepare_error \<longleftrightarrow>
     parse_prepare ([0x01, 0x02, 0x03, 0x04] @ i32_bytes (- 1) @ i32_bytes (- 200) @ bytes_of ''syntax error'' @ [0])
     = Inl (Err (PE_ServerError (- 200) (bytes_of ''syntax error'')))"

definition test_parse_execute_insert :: bool where
  "test_parse_execute_insert \<longleftrightarrow> succeeds
     ([0xAA, 0xBB, 0xCC, 0xDD] @ i32_bytes 1 @ [0] @ i32_bytes 1
      @ build_result_info (statement_type_u8 ST_Insert) 1 @ [0] @ i32_bytes 0)
     (\<lambda>data. parse_execute data [] ST_Insert 7)
     (\<lambda>(result, cas). cas = CAS 0xAA 0xBB 0xCC 0xDD \<and> exec_total_tuple_count result = 1
       \<and> length (exec_result_infos result) = 1
       \<and> stmt_type (exec_result_infos result ! 0) = ST_Insert \<and> exec_rows result = [])"

definition test_parse_fetch_success :: bool where
  "test_parse_fetch_success \<longleftrightarrow> succeeds
     ([0x01, 0x02, 0x03, 0x04] @ i32_bytes 0 @ i32_bytes 1 @ row_head @ i32_bytes 4 @ i32_bytes 99)
     (\<lambda>data. parse_fetch data [plain_column DT_Int 10 (bytes_of ''id'') (bytes_of ''t'') False] ST_Select)
     (\<lambda>(result, cas). fetch_tuple_count result = 1 \<and> length (fetch_rows result) = 1
       \<and> fetch_rows result ! 0 ! 0 = V_Int 99)"

definition test_parse_fetch_empty :: bool where
  "test_parse_fetch_empty \<longleftrightarrow> succeeds
     ([0x01, 0x02, 0x03, 0x04] @ i32_bytes 0 @ i32_bytes 0)
     (\<lambda>data. parse_fetch data [] ST_Select)
     (\<lambda>(result, cas). fetch_tuple_count result = 0 \<and> fetch_rows result = [])"

definition test_parse_fetch_error :: bool where
  "test_parse_fetch_error \<longleftrightarrow>
     parse_fetch ([0x01, 0x02, 0x03, 0x04] @ i32_bytes (- 1) @ i32_bytes (- 500) @ bytes_of ''fetch error'' @ [0]) [] ST_Select
     = Inl (Err (PE_ServerError (- 500) (bytes_of ''fetch error'')))"

definition test_parse_get_last_insert_id_with_value :: bool where
  "test_parse_get_last_insert_id_with_value \<longleftrightarrow> succeeds
     ([0x01, 0x02, 0x03, 0x04] @ i32_bytes 3 @ bytes_of ''42'' @ [0])
     (parse_get_last_insert_id)
     (\<lambda>(result, cas). result = bytes_of ''42'' \<and> cas = CAS 0x01 0x02 0x03 0x04)"

definition test_parse_get_last_insert_id_zero :: bool where
  "test_parse_get_last_insert_id_zero \<longleftrightarrow> succeeds
     ([0x01, 0x02, 0x03, 0x04] @ i32_bytes 0)
     (parse_get_last_insert_id)
     (\<lambda>(result, cas). result = [])"

definition test_parse_get_last_insert_id_error :: bool where
  "test_parse_get_last_insert_id_error \<longleftrightarrow>
     parse_get_last_insert_id ([0x01, 0x02, 0x03, 0x04] @ i32_bytes (- 1) @ i32_bytes (- 300) @ bytes_of ''no insert'' @ [0])
     = Inl (Err (PE_ServerError (- 300) (bytes_of ''no insert'')))"

definition test_parse_prepare_and_execute_insert_no_rows :: bool where
  "test_parse_prepare_and_execute_insert_no_rows \<longleftrightarrow> succeeds
     ([0x01, 0x02, 0x03, 0x04] @ i32_bytes 5 @ i32_bytes 0 @ [statement_type_u8 ST_Insert]
      @ i32_bytes 0 @ [0] @ i32_bytes 0 @ i32_bytes 1 @ [0] @ i32_bytes 1
      @ build_result_info (statement_type_u8 ST_Insert) 1 @ [0])
     (\<lambda>data. parse_prepare_and_execute data 3)
     (\<lambda>(result, cas). cas = CAS 0x01 0x02 0x03 0x04 \<and> pae_query_handle result = 5
       \<and> pae_statement_type result = ST_Insert \<and> pae_total_tuple_count result = 1
       \<and> length (pae_result_infos result) = 1 \<and> pae_rows result = [])"

definition test_parse_prepare_and_execute_error :: bool where
  "test_parse_prepare_and_execute_error \<longleftrightarrow>
     parse_prepare_and_execute ([0x01, 0x02, 0x03, 0x04] @ i32_bytes (- 1) @ i32_bytes (- 100) @ bytes_of ''bad sql'' @ [0]) 7
     = Inl (Err (PE_ServerError (- 100) (bytes_of ''bad sql'')))"

definition test_parse_prepare_and_execute_select_with_rows :: bool where
  "test_parse_prepare_and_execute_select_with_rows \<longleftrightarrow> succeeds
     ([0x01, 0x02, 0x03, 0x04] @ i32_bytes 7 @ i32_bytes 0 @ [statement_type_u8 ST_Select]
      @ i32_bytes 0 @ [0] @ i32_bytes 1 @ build_column_meta (data_type_u8 DT_Int) (bytes_of ''val'')
      @ i32_bytes 1 @ [0] @ i32_bytes 1 @ build_result_info (statement_type_u8 ST_Select) 1
      @ i32_bytes 0 @ i32_bytes 1 @ row_head @ i32_bytes 4 @ i32_bytes 99)
     (\<lambda>data. parse_prepare_and_execute data 1)
     (\<lambda>(result, cas). pae_query_handle result = 7 \<and> pae_statement_type result = ST_Select
       \<and> length (pae_columns result) = 1 \<and> name (pae_columns result ! 0) = bytes_of ''val''
       \<and> pae_tuple_count result = 1 \<and> length (pae_rows result) = 1
       \<and> pae_rows result ! 0 ! 0 = V_Int 99)"

definition test_parse_execute_select_with_rows :: bool where
  "test_parse_execute_select_with_rows \<longleftrightarrow> succeeds
     ([0x01, 0x02, 0x03, 0x04] @ i32_bytes 1 @ [0] @ i32_bytes 1
      @ build_result_info (statement_type_u8 ST_Select) 1 @ i32_bytes 0 @ i32_bytes 1
      @ row_head @ i32_bytes 6 @ bytes_of ''world'' @ [0])
     (\<lambda>data. parse_execute data
        [plain_column DT_String 255 (bytes_of ''name'') (bytes_of ''t'') True] ST_Select 1)
     (\<lambda>(result, cas). exec_total_tuple_count result = 1 \<and> exec_tuple_count result = 1
       \<and> length (exec_rows result) = 1 \<and> exec_rows result ! 0 ! 0 = V_String (bytes_of ''world''))"

definition test_parse_execute_error :: bool where
  "test_parse_execute_error \<longleftrightarrow>
     parse_execute ([0x01, 0x02, 0x03, 0x04] @ i32_bytes (- 1) @ i32_bytes (- 500) @ bytes_of ''execute failed'' @ [0]) [] ST_Select 1
     = Inl (Err (PE_ServerError (- 500) (bytes_of ''execute failed'')))"


lemma server_error_data:
  "wf_str message \<Longrightarrow>
     run_parser (response_head body) ([a, b, c, d] @ i32_bytes (- 1) @ i32_bytes code @ message @ [0])
       = Inl (Err (PE_ServerError code message))"
  using response_head_error [of "- 1" message body "CAS a b c d" code 1]
  by (simp add: error_body_def)

lemma response_error_tests_pass:
  "test_parse_prepare_error" "test_parse_fetch_error" "test_parse_execute_error"
  "test_parse_get_last_insert_id_error" "test_parse_prepare_and_execute_error"
  unfolding test_parse_prepare_error_def test_parse_fetch_error_def test_parse_execute_error_def
    test_parse_get_last_insert_id_error_def test_parse_prepare_and_execute_error_def
    parsers_as_runs bodies_as_heads
  by (rule server_error_data, simp add: wf_str_def bytes_of_def utf8_check_Suc utf8_tail_ascii)+

text \<open>All the fields that the parsers skip are zero in the tests.\<close>

definition zero_unread :: unread where
  "zero_unread =
     \<lparr>u_lifetime = 0, u_updatable = 0, u_reusable = 0, u_marker = None, u_pad = (0, 0, 0),
      u_cache_sec = 0, u_cache_usec = 0, u_column_info = 0, u_shard = 0, u_fetch_code = 0\<rparr>"

lemma prepare_test_passes: "test_parse_prepare_success"
proof -
  let ?r = "\<lparr>prep_query_handle = 10, prep_statement_type = ST_Select, prep_bind_count = 2,
     prep_columns = []\<rparr>"
  have "parse_prepare (enc_prepare zero_unread (CAS 1 2 3 4) ?r) = Inr (?r, CAS 1 2 3 4)"
    unfolding parse_prepare_def by (intro run_decodes decodes_prepare) (simp_all add: format_ok)
  then show ?thesis
    unfolding test_parse_prepare_success_def
    by (intro succeedsI [where x = "(?r, CAS 1 2 3 4)"]) (simp_all add: format_bytes zero_unread_def)
qed

lemma fetch_test_passes: "test_parse_fetch_success"
proof -
  let ?cols = "[plain_column DT_Int 10 (bytes_of ''id'') (bytes_of ''t'') False]"
  let ?w = "(1, replicate 8 0, [(DT_Int, V_Int 99)]) :: wire_row"
  have "parse_fetch (enc_fetch (CAS 1 2 3 4) 0 ?cols ST_Select [?w]) ?cols ST_Select =
      Inr (\<lparr>fetch_tuple_count = usize_as_i32 (length [?w]), fetch_rows = map row_values [?w]\<rparr>, CAS 1 2 3 4)"
    unfolding parse_fetch_def by (rule run_decodes, rule decodes_fetch) (simp_all add: format_ok)
  then show ?thesis
    unfolding test_parse_fetch_success_def succeeds_def
    by (simp add: format_bytes)
qed

lemma no_column_tests_pass: "test_parse_execute_insert" "test_parse_fetch_empty"
  by code_simp+

lemma last_insert_id_tests_pass:
  "test_parse_get_last_insert_id_with_value" "test_parse_get_last_insert_id_zero"
  by code_simp+

lemma prepare_and_execute_tests_pass:
  "test_parse_prepare_and_execute_insert_no_rows" "test_parse_prepare_and_execute_select_with_rows"
proof -
  let ?r = "\<lparr>pae_query_handle = 5, pae_statement_type = ST_Insert, pae_bind_count = 0,
     pae_columns = [], pae_total_tuple_count = 1,
     pae_result_infos = [\<lparr>stmt_type = ST_Insert, result_count = 1, oid = replicate SIZE_OID 0\<rparr>],
     pae_tuple_count = 0, pae_rows = []\<rparr>"
  have "parse_prepare_and_execute (enc_prepare_and_execute zero_unread 3 (CAS 1 2 3 4) ?r []) 3
      = Inr (?r, CAS 1 2 3 4)"
    unfolding parse_prepare_and_execute_def
    by (intro run_decodes decodes_prepare_and_execute) (simp_all add: format_ok)
  then show "test_parse_prepare_and_execute_insert_no_rows"
    unfolding test_parse_prepare_and_execute_insert_no_rows_def build_result_info_enc
    by (intro succeedsI [where x = "(?r, CAS 1 2 3 4)"]) (simp_all add: format_bytes zero_unread_def)
  let ?c = "built_column DT_Int (bytes_of ''val'')"
  let ?w = "(1, replicate 8 0, [(DT_Int, V_Int 99)])"
  let ?r = "\<lparr>pae_query_handle = 7, pae_statement_type = ST_Select, pae_bind_count = 0,
     pae_columns = [?c], pae_total_tuple_count = 1,
     pae_result_infos = [\<lparr>stmt_type = ST_Select, result_count = 1, oid = replicate SIZE_OID 0\<rparr>],
     pae_tuple_count = 1, pae_rows = [[V_Int 99]]\<rparr>"
  have "parse_prepare_and_execute (enc_prepare_and_execute zero_unread 1 (CAS 1 2 3 4) ?r [?w]) 1
      = Inr (?r, CAS 1 2 3 4)"
    unfolding parse_prepare_and_execute_def
    by (intro run_decodes decodes_prepare_and_execute) (simp_all add: format_ok)
  then show "test_parse_prepare_and_execute_select_with_rows"
    unfolding test_parse_prepare_and_execute_select_with_rows_def build_result_info_enc
      build_column_meta_enc
    by (intro succeedsI [where x = "(?r, CAS 1 2 3 4)"]) (simp_all add: format_bytes zero_unread_def)
qed

lemma execute_test_passes: "test_parse_execute_select_with_rows"
proof -
  let ?c = "plain_column DT_String 255 (bytes_of ''name'') (bytes_of ''t'') True"
  let ?w = "(1, replicate 8 0, [(DT_String, V_String (bytes_of ''world''))])"
  let ?r = "\<lparr>exec_total_tuple_count = 1,
     exec_result_infos = [\<lparr>stmt_type = ST_Select, result_count = 1, oid = replicate SIZE_OID 0\<rparr>],
     exec_tuple_count = 1, exec_rows = [[V_String (bytes_of ''world'')]]\<rparr>"
  have "parse_execute (enc_execute zero_unread 1 (CAS 1 2 3 4) [?c] ST_Select ?r [?w]) [?c] ST_Select 1
      = Inr (?r, CAS 1 2 3 4)"
    unfolding parse_execute_def
    by (intro run_decodes decodes_execute) (simp_all add: format_ok)
  then show ?thesis
    unfolding test_parse_execute_select_with_rows_def build_result_info_enc
    by (intro succeedsI [where x = "(?r, CAS 1 2 3 4)"]) (simp_all add: format_bytes zero_unread_def)
qed

end
