(* ===== verification/Client_Tests.thy ===== *)
theory Client_Tests
  imports Async_Client
begin

text \<open>
  The unit tests of \<open>crates/cubrid-client/src/lib.rs\<close> and \<open>crates/cubrid-tokio/src/lib.rs\<close>, run on
  the model: the names of the tests carry the client they are about, since the two files share
  most of them. The text of a floating-point number is the parameter \<open>ff\<close>;
  errors hold no I/O error here, so the parameter for its text is unused.
\<close>

text \<open>\<open>interpolate_params\<close> of a client, on a statement and parameters.\<close>

definition fills :: "(bytes \<Rightarrow> db_value list \<Rightarrow> bytes) \<Rightarrow> string \<Rightarrow> db_value list \<Rightarrow> bytes \<Rightarrow> bool" where
  "fills interp sql ps expected \<longleftrightarrow> interp (bytes_of sql) ps = expected"

text \<open>An SQL literal of a kind, such as \<open>DATE'2024-06-15'\<close>.\<close>

definition literal :: "string \<Rightarrow> string \<Rightarrow> bytes" where
  "literal kind s = bytes_of kind @ [39] @ bytes_of s @ [39]"

definition id_column :: column_metadata where
  "id_column =
     \<lparr>column_type = DT_Int, scale = 0, precision = 10, name = bytes_of ''id'', real_name = bytes_of ''id'',
      table_name = bytes_of ''t'', is_nullable = False, default_value = [], is_auto_increment = True,
      is_unique_key = False, is_primary_key = True, is_foreign_key = False\<rparr>"

definition name_column :: column_metadata where
  "name_column =
     \<lparr>column_type = DT_String, scale = 0, precision = 100, name = bytes_of ''name'',
      real_name = bytes_of ''name'', table_name = bytes_of ''t'', is_nullable = True,
      default_value = [], is_auto_increment = False, is_unique_key = False, is_primary_key = False,
      is_foreign_key = False\<rparr>"

lemmas client_eval = Let_def bytes_of_def fmt_int_def fmt_int_pad_def hex2_def show_date_def show_time_def
  replace_quotes_def interpolate_params_def async_interpolate_params_def dec_digits.simps
  hex_digit_def is_cont_def fills_def literal_def id_column_def name_column_def column_names_def
  result_len_def result_is_empty_def statement_bind_count_def statement_type_of_def
  statement_columns_def async_column_names_def async_result_len_def async_result_is_empty_def
  async_rows_iter_def async_rows_into_iter_def async_statement_bind_count_def
  async_statement_type_of_def async_statement_columns_def


section \<open>Interpolation\<close>

definition client_test_interpolate_no_params :: "float_fmt \<Rightarrow> bool" where
  "client_test_interpolate_no_params ff \<longleftrightarrow>
     fills (interpolate_params ff) ''SELECT * FROM t''
       []
       (bytes_of ''SELECT * FROM t'')"

definition client_test_interpolate_int_param :: "float_fmt \<Rightarrow> bool" where
  "client_test_interpolate_int_param ff \<longleftrightarrow>
     fills (interpolate_params ff) ''SELECT * FROM t WHERE id = ?''
       [V_Int 42]
       (bytes_of ''SELECT * FROM t WHERE id = 42'')"

definition client_test_interpolate_string_param :: "float_fmt \<Rightarrow> bool" where
  "client_test_interpolate_string_param ff \<longleftrightarrow>
     fills (interpolate_params ff) ''INSERT INTO t (name) VALUES (?)''
       [V_String (bytes_of ''hello'')]
       (bytes_of ''INSERT INTO t (name) VALUES ('' @ literal [] ''hello'' @ bytes_of '')'')"

definition client_test_interpolate_string_with_quotes :: "float_fmt \<Rightarrow> bool" where
  "client_test_interpolate_string_with_quotes ff \<longleftrightarrow>
     fills (interpolate_params ff) ''INSERT INTO t (name) VALUES (?)''
       [V_String (bytes_of ''it'' @ [39] @ bytes_of ''s'')]
       (bytes_of ''INSERT INTO t (name) VALUES ('' @ literal [] (''it'' @ [CHR 0x27, CHR 0x27] @ ''s'') @ bytes_of '')'')"

definition client_test_interpolate_null :: "float_fmt \<Rightarrow> bool" where
  "client_test_interpolate_null ff \<longleftrightarrow>
     fills (interpolate_params ff) ''INSERT INTO t (name) VALUES (?)''
       [V_Null]
       (bytes_of ''INSERT INTO t (name) VALUES ('' @ bytes_of ''NULL'' @ bytes_of '')'')"

definition client_test_interpolate_multiple_params :: "float_fmt \<Rightarrow> bool" where
  "client_test_interpolate_multiple_params ff \<longleftrightarrow>
     fills (interpolate_params ff) ''INSERT INTO t (a, b, c) VALUES (?, ?, ?)''
       [V_Int 1, V_String (bytes_of ''two''), V_Double 0x400921FB54442D18]
       (bytes_of ''INSERT INTO t (a, b, c) VALUES (1, '' @ literal [] ''two'' @ bytes_of '', '' @ show_f64 ff 0x400921FB54442D18 @ bytes_of '')'')"

definition client_test_interpolate_preserves_quoted_question_mark :: "float_fmt \<Rightarrow> bool" where
  "client_test_interpolate_preserves_quoted_question_mark ff \<longleftrightarrow>
     fills (interpolate_params ff) (''SELECT * FROM t WHERE name = '' @ [CHR 0x27, CHR 0x3F, CHR 0x27] @ '' AND id = ?'')
       [V_Int 1]
       (bytes_of ''SELECT * FROM t WHERE name = '' @ literal [] ''?'' @ bytes_of '' AND id = 1'')"

definition client_test_interpolate_bool :: "float_fmt \<Rightarrow> bool" where
  "client_test_interpolate_bool ff \<longleftrightarrow>
     fills (interpolate_params ff) ''INSERT INTO t (flag) VALUES (?)''
       [V_Bool True]
       (bytes_of ''INSERT INTO t (flag) VALUES ('' @ bytes_of ''1'' @ bytes_of '')'')"

definition client_test_interpolate_bytes :: "float_fmt \<Rightarrow> bool" where
  "client_test_interpolate_bytes ff \<longleftrightarrow>
     fills (interpolate_params ff) ''INSERT INTO t (data) VALUES (?)''
       [V_Bytes [0xCA, 0xFE]]
       (bytes_of ''INSERT INTO t (data) VALUES ('' @ literal ''X'' ''cafe'' @ bytes_of '')'')"

definition client_test_interpolate_date :: "float_fmt \<Rightarrow> bool" where
  "client_test_interpolate_date ff \<longleftrightarrow>
     fills (interpolate_params ff) ''INSERT INTO t (d) VALUES (?)''
       [V_Date 2024 6 15]
       (bytes_of ''INSERT INTO t (d) VALUES ('' @ literal ''DATE'' ''2024-06-15'' @ bytes_of '')'')"

definition client_test_interpolate_time :: "float_fmt \<Rightarrow> bool" where
  "client_test_interpolate_time ff \<longleftrightarrow>
     fills (interpolate_params ff) ''INSERT INTO t (t) VALUES (?)''
       [V_Time 14 30 45]
       (bytes_of ''INSERT INTO t (t) VALUES ('' @ literal ''TIME'' ''14:30:45'' @ bytes_of '')'')"

definition client_test_interpolate_timestamp :: "float_fmt \<Rightarrow> bool" where
  "client_test_interpolate_timestamp ff \<longleftrightarrow>
     fills (interpolate_params ff) ''INSERT INTO t (ts) VALUES (?)''
       [V_Timestamp 2024 6 15 14 30 45]
       (bytes_of ''INSERT INTO t (ts) VALUES ('' @ literal ''TIMESTAMP'' ''2024-06-15 14:30:45'' @ bytes_of '')'')"

definition client_test_interpolate_datetime :: "float_fmt \<Rightarrow> bool" where
  "client_test_interpolate_datetime ff \<longleftrightarrow>
     fills (interpolate_params ff) ''INSERT INTO t (dt) VALUES (?)''
       [V_Datetime 2024 6 15 14 30 45 123]
       (bytes_of ''INSERT INTO t (dt) VALUES ('' @ literal ''DATETIME'' ''2024-06-15 14:30:45.123'' @ bytes_of '')'')"

definition client_test_format_value_long :: "float_fmt \<Rightarrow> bool" where
  "client_test_format_value_long ff \<longleftrightarrow>
     format_value ff (V_Long 9999999999) = bytes_of ''9999999999''"

definition client_test_format_value_short :: "float_fmt \<Rightarrow> bool" where
  "client_test_format_value_short ff \<longleftrightarrow>
     format_value ff (V_Short 42) = bytes_of ''42''"

definition client_test_format_value_bool_false :: "float_fmt \<Rightarrow> bool" where
  "client_test_format_value_bool_false ff \<longleftrightarrow>
     format_value ff (V_Bool False) = bytes_of ''0''"

lemma client_interpolation_tests_pass:
  "client_test_interpolate_no_params ff" "client_test_interpolate_int_param ff"
  "client_test_interpolate_string_param ff" "client_test_interpolate_string_with_quotes ff"
  "client_test_interpolate_null ff" "client_test_interpolate_multiple_params ff"
  "client_test_interpolate_preserves_quoted_question_mark ff"
  by (simp_all add: client_eval client_test_interpolate_no_params_def
      client_test_interpolate_int_param_def
      client_test_interpolate_string_param_def
      client_test_interpolate_string_with_quotes_def
      client_test_interpolate_null_def
      client_test_interpolate_multiple_params_def
      client_test_interpolate_preserves_quoted_question_mark_def)

lemma client_literal_tests_pass:
  "client_test_interpolate_bool ff" "client_test_interpolate_bytes ff"
  "client_test_interpolate_date ff" "client_test_interpolate_time ff"
  "client_test_interpolate_timestamp ff" "client_test_interpolate_datetime ff"
  "client_test_format_value_long ff" "client_test_format_value_short ff"
  "client_test_format_value_bool_false ff"
  by (simp_all add: client_eval client_test_interpolate_bool_def
      client_test_interpolate_bytes_def
      client_test_interpolate_date_def
      client_test_interpolate_time_def
      client_test_interpolate_timestamp_def
      client_test_interpolate_datetime_def
      client_test_format_value_long_def
      client_test_format_value_short_def
      client_test_format_value_bool_false_def)

definition async_test_interpolate_no_params :: "float_fmt \<Rightarrow> bool" where
  "async_test_interpolate_no_params ff \<longleftrightarrow>
     fills (async_interpolate_params ff) ''SELECT * FROM t''
       []
       (bytes_of ''SELECT * FROM t'')"

definition async_test_interpolate_int_param :: "float_fmt \<Rightarrow> bool" where
  "async_test_interpolate_int_param ff \<longleftrightarrow>
     fills (async_interpolate_params ff) ''SELECT * FROM t WHERE id = ?''
       [V_Int 42]
       (bytes_of ''SELECT * FROM t WHERE id = 42'')"

definition async_test_interpolate_string_param :: "float_fmt \<Rightarrow> bool" where
  "async_test_interpolate_string_param ff \<longleftrightarrow>
     fills (async_interpolate_params ff) ''INSERT INTO t (name) VALUES (?)''
       [V_String (bytes_of ''hello'')]
       (bytes_of ''INSERT INTO t (name) VALUES ('' @ literal [] ''hello'' @ bytes_of '')'')"

definition async_test_interpolate_string_with_quotes :: "float_fmt \<Rightarrow> bool" where
  "async_test_interpolate_string_with_quotes ff \<longleftrightarrow>
     fills (async_interpolate_params ff) ''INSERT INTO t (name) VALUES (?)''
       [V_String (bytes_of ''it'' @ [39] @ bytes_of ''s'')]
       (bytes_of ''INSERT INTO t (name) VALUES ('' @ literal [] (''it'' @ [CHR 0x27, CHR 0x27] @ ''s'') @ bytes_of '')'')"

definition async_test_interpolate_null :: "float_fmt \<Rightarrow> bool" where
  "async_test_interpolate_null ff \<longleftrightarrow>
     fills (async_interpolate_params ff) ''INSERT INTO t (name) VALUES (?)''
       [V_Null]
       (bytes_of ''INSERT INTO t (name) VALUES ('' @ bytes_of ''NULL'' @ bytes_of '')'')"

definition async_test_interpolate_multiple_params :: "float_fmt \<Rightarrow> bool" where
  "async_test_interpolate_multiple_params ff \<longleftrightarrow>
     fills (async_interpolate_params ff) ''INSERT INTO t (a, b, c) VALUES (?, ?, ?)''
       [V_Int 1, V_String (bytes_of ''two''), V_Double 0x400921FB54442D18]
       (bytes_of ''INSERT INTO t (a, b, c) VALUES (1, '' @ literal [] ''two'' @ bytes_of '', '' @ show_f64 ff 0x400921FB54442D18 @ bytes_of '')'')"

definition async_test_interpolate_preserves_quoted_question_mark :: "float_fmt \<Rightarrow> bool" where
  "async_test_interpolate_preserves_quoted_question_mark ff \<longleftrightarrow>
     fills (async_interpolate_params ff) (''SELECT * FROM t WHERE name = '' @ [CHR 0x27, CHR 0x3F, CHR 0x27] @ '' AND id = ?'')
       [V_Int 1]
       (bytes_of ''SELECT * FROM t WHERE name = '' @ literal [] ''?'' @ bytes_of '' AND id = 1'')"

definition async_test_format_value_bool :: "float_fmt \<Rightarrow> bool" where
  "async_test_format_value_bool ff \<longleftrightarrow>
     async_format_value ff (V_Bool True) = bytes_of ''1''
     \<and> async_format_value ff (V_Bool False) = bytes_of ''0''"

definition async_test_format_value_bytes :: "float_fmt \<Rightarrow> bool" where
  "async_test_format_value_bytes ff \<longleftrightarrow>
     async_format_value ff (V_Bytes [0xCA, 0xFE]) = literal ''X'' ''cafe''"

definition async_test_format_value_date :: "float_fmt \<Rightarrow> bool" where
  "async_test_format_value_date ff \<longleftrightarrow>
     async_format_value ff (V_Date 2024 6 15) = literal ''DATE'' ''2024-06-15''"

definition async_test_format_value_time :: "float_fmt \<Rightarrow> bool" where
  "async_test_format_value_time ff \<longleftrightarrow>
     async_format_value ff (V_Time 14 30 45) = literal ''TIME'' ''14:30:45''"

definition async_test_format_value_timestamp :: "float_fmt \<Rightarrow> bool" where
  "async_test_format_value_timestamp ff \<longleftrightarrow>
     async_format_value ff (V_Timestamp 2024 6 15 14 30 45) = literal ''TIMESTAMP'' ''2024-06-15 14:30:45''"

definition async_test_format_value_datetime :: "float_fmt \<Rightarrow> bool" where
  "async_test_format_value_datetime ff \<longleftrightarrow>
     async_format_value ff (V_Datetime 2024 6 15 14 30 45 123) = literal ''DATETIME'' ''2024-06-15 14:30:45.123''"

lemma async_interpolation_tests_pass:
  "async_test_interpolate_no_params ff" "async_test_interpolate_int_param ff"
  "async_test_interpolate_string_param ff" "async_test_interpolate_string_with_quotes ff"
  "async_test_interpolate_null ff" "async_test_interpolate_multiple_params ff"
  "async_test_interpolate_preserves_quoted_question_mark ff"
  by (simp_all add: client_eval async_test_interpolate_no_params_def
      async_test_interpolate_int_param_def
      async_test_interpolate_string_param_def
      async_test_interpolate_string_with_quotes_def
      async_test_interpolate_null_def
      async_test_interpolate_multiple_params_def
      async_test_interpolate_preserves_quoted_question_mark_def)

lemma async_literal_tests_pass:
  "async_test_format_value_bool ff" "async_test_format_value_bytes ff"
  "async_test_format_value_date ff" "async_test_format_value_time ff"
  "async_test_format_value_timestamp ff" "async_test_format_value_datetime ff"
  by (simp_all add: client_eval async_test_format_value_bool_def
      async_test_format_value_bytes_def
      async_test_format_value_date_def
      async_test_format_value_time_def
      async_test_format_value_timestamp_def
      async_test_format_value_datetime_def)

section \<open>Results and statements\<close>

definition client_test_query_result_column_names :: bool where
  "client_test_query_result_column_names \<longleftrightarrow>
     (let qr = \<lparr>qr_columns = [id_column, name_column], qr_rows = [], qr_total_count = 0\<rparr>
      in column_names qr = [bytes_of ''id'', bytes_of ''name''] \<and> result_is_empty qr
         \<and> result_len qr = 0)"

definition client_test_query_result_with_rows :: bool where
  "client_test_query_result_with_rows \<longleftrightarrow>
     (let qr = \<lparr>qr_columns = [], qr_rows = [[V_Int 1, V_String (bytes_of ''hello'')],
           [V_Int 2, V_String (bytes_of ''world'')]], qr_total_count = 2\<rparr>
      in result_len qr = 2 \<and> \<not> result_is_empty qr)"

definition client_test_statement_bind_count :: bool where
  "client_test_statement_bind_count \<longleftrightarrow>
     (let stmt = \<lparr>stmt_query_handle = 1, stmt_statement_type = ST_Select, stmt_bind_count = 3,
           stmt_columns = [], stmt_closed = False, stmt_sql = []\<rparr>
      in statement_bind_count stmt = 3 \<and> statement_type_of stmt = ST_Select
         \<and> statement_columns stmt = [])"

definition client_test_parse_simple_response_success :: bool where
  "client_test_parse_simple_response_success \<longleftrightarrow>
     parse_simple_response ([0x01, 0x02, 0x03, 0x04] @ be_bytes 4 (0 :: i32))
       = Inr (CAS 0x01 0x02 0x03 0x04)"

definition client_test_parse_simple_response_error :: bool where
  "client_test_parse_simple_response_error \<longleftrightarrow>
     (case parse_simple_response ([0x01, 0x02, 0x03, 0x04] @ be_bytes 4 (- 1 :: i32)
        @ be_bytes 4 (- 1 :: i32) @ be_bytes 4 (- 1001 :: i32) @ bytes_of ''test error'' @ [0]) of
        Inl (Err _) \<Rightarrow> True | _ \<Rightarrow> False)"

definition async_test_query_result_column_names :: bool where
  "async_test_query_result_column_names \<longleftrightarrow>
     (let qr = \<lparr>qr_columns = [id_column, name_column], qr_rows = [], qr_total_count = 0\<rparr>
      in async_column_names qr = [bytes_of ''id'', bytes_of ''name''] \<and> async_result_is_empty qr
         \<and> async_result_len qr = 0)"

definition async_test_query_result_with_rows :: bool where
  "async_test_query_result_with_rows \<longleftrightarrow>
     (let qr = \<lparr>qr_columns = [], qr_rows = [[V_Int 1, V_String (bytes_of ''hello'')],
           [V_Int 2, V_String (bytes_of ''world'')]], qr_total_count = 2\<rparr>
      in async_result_len qr = 2 \<and> \<not> async_result_is_empty qr)"

definition async_test_query_result_into_iter :: bool where
  "async_test_query_result_into_iter \<longleftrightarrow>
     (let qr = \<lparr>qr_columns = [], qr_rows = [[V_Int 1], [V_Int 2]], qr_total_count = 2\<rparr>
      in foldl (\<lambda>count _. count + 1) (0 :: nat) (async_rows_iter qr) = 2
         \<and> list_all (\<lambda>row. row \<noteq> []) (async_rows_iter qr)
         \<and> length (async_rows_into_iter qr) = 2)"

definition async_test_statement_accessors :: bool where
  "async_test_statement_accessors \<longleftrightarrow>
     (let stmt = \<lparr>stmt_query_handle = 1, stmt_statement_type = ST_Select, stmt_bind_count = 3,
           stmt_columns = [], stmt_closed = False, stmt_sql = []\<rparr>
      in async_statement_bind_count stmt = 3 \<and> async_statement_type_of stmt = ST_Select
         \<and> async_statement_columns stmt = [])"

definition async_test_parse_simple_response_success :: bool where
  "async_test_parse_simple_response_success \<longleftrightarrow>
     async_parse_simple_response ([0x01, 0x02, 0x03, 0x04] @ be_bytes 4 (0 :: i32))
       = Inr (CAS 0x01 0x02 0x03 0x04)"

definition async_test_parse_simple_response_error :: bool where
  "async_test_parse_simple_response_error \<longleftrightarrow>
     (case async_parse_simple_response ([0x01, 0x02, 0x03, 0x04] @ be_bytes 4 (- 1 :: i32)
        @ be_bytes 4 (- 1 :: i32) @ be_bytes 4 (- 1001 :: i32) @ bytes_of ''test error'' @ [0]) of
        Inl (Err _) \<Rightarrow> True | _ \<Rightarrow> False)"

lemma result_tests_pass:
  "client_test_query_result_column_names" "client_test_query_result_with_rows"
  "client_test_statement_bind_count" "async_test_query_result_column_names"
  "async_test_query_result_with_rows" "async_test_query_result_into_iter"
  "async_test_statement_accessors"
  by (simp_all add: client_eval client_test_query_result_column_names_def
      client_test_query_result_with_rows_def
      client_test_statement_bind_count_def
      async_test_query_result_column_names_def
      async_test_query_result_with_rows_def
      async_test_query_result_into_iter_def
      async_test_statement_accessors_def)

lemma simple_response_tests_pass:
  "client_test_parse_simple_response_success"
  "client_test_parse_simple_response_error"
  "async_test_parse_simple_response_success"
  "async_test_parse_simple_response_error"
  by code_simp+

text \<open>
  The comment of \<open>test_parse_simple_response_error\<close> puts an indicator before the error code;
  the code reads no such field, so the four bytes of the indicator become the code and the
  code becomes part of the message, which is then no UTF-8: the test sees an error, but not
  the server error it wrote.
\<close>

lemma simple_response_error_test_misreads:
  "parse_simple_response ([0x01, 0x02, 0x03, 0x04] @ be_bytes 4 (- 1 :: i32)
     @ be_bytes 4 (- 1 :: i32) @ be_bytes 4 (- 1001 :: i32) @ bytes_of ''test error'' @ [0])
     = Inl (Err (PE_InvalidPacket
         (bytes_of ''invalid UTF-8: invalid utf-8 sequence of 1 bytes from index 0'')))"
  by code_simp

section \<open>Error texts\<close>

definition test_client_is_closed_initially_false :: "(io_error \<Rightarrow> bytes) \<Rightarrow> bool" where
  "test_client_is_closed_initially_false io \<longleftrightarrow>
     display_client_error io CE_ConnectionClosed = bytes_of ''connection closed''"

definition client_test_error_display :: "(io_error \<Rightarrow> bytes) \<Rightarrow> bool" where
  "client_test_error_display io \<longleftrightarrow>
     display_client_error io (CE_InvalidDsn (bytes_of ''bad url'')) = bytes_of ''invalid DSN: bad url''
     \<and> display_client_error io (CE_ServerError (- 1001) (bytes_of ''syntax error''))
         = bytes_of ''server error -1001: syntax error''"

definition async_test_error_display :: "(io_error \<Rightarrow> bytes) \<Rightarrow> bool" where
  "async_test_error_display io \<longleftrightarrow>
     display_tokio_error io (TE_InvalidDsn (bytes_of ''bad url'')) = bytes_of ''invalid DSN: bad url''
     \<and> display_tokio_error io (TE_ServerError (- 1001) (bytes_of ''syntax error''))
         = bytes_of ''server error -1001: syntax error''
     \<and> display_tokio_error io TE_ConnectionClosed = bytes_of ''connection closed''"

lemma error_text_tests_pass:
  "test_client_is_closed_initially_false io" "client_test_error_display io"
  "async_test_error_display io"
  by (simp_all add: client_eval test_client_is_closed_initially_false_def
      client_test_error_display_def
      async_test_error_display_def)

end
