(* ===== verification/Pool_Tests.thy ===== *)
theory Pool_Tests
  imports Async_Pool Dsn_Tests
begin

text \<open>
  The unit tests of \<open>crates/cubrid-pool/src/lib.rs\<close>, run on the model, without the tests of
  the derived \<open>Debug\<close> and \<open>Clone\<close>. The tests that fail to connect run on a network whose
  attempts time out; the size of a client, which a pool reserves room for, is 100 bytes.
\<close>

section \<open>Configuration and status\<close>

definition test_dsn :: bytes where
  "test_dsn = bytes_of ''cubrid://dba:@localhost:33000/testdb''"

definition test_pool_config_new :: bool where
  "test_pool_config_new \<longleftrightarrow>
     (let config = pool_config_new test_dsn in cfg_dsn config = test_dsn
       \<and> cfg_max_size config = 10 \<and> cfg_min_idle config = 1)"

definition test_pool_config_builder :: bool where
  "test_pool_config_builder \<longleftrightarrow>
     (let config = min_idle 5 (max_size 20 (pool_config_new test_dsn))
      in cfg_max_size config = 20 \<and> cfg_min_idle config = 5)"

definition test_pool_config_default :: bool where
  "test_pool_config_default \<longleftrightarrow>
     (let config = pool_config_default in cfg_dsn config = []
       \<and> cfg_max_size config = 10 \<and> cfg_min_idle config = 1)"

text \<open>\<open>config.validate().unwrap_err().to_string().contains(s)\<close>\<close>

definition invalid_because :: "(io_error \<Rightarrow> bytes) \<Rightarrow> pool_config \<Rightarrow> string \<Rightarrow> bool" where
  "invalid_because io cfg s \<longleftrightarrow>
     (case validate cfg of Inl e \<Rightarrow> str_contains (display_pool_error io e) (bytes_of s) | Inr _ \<Rightarrow> False)"

definition test_pool_config_validate_empty_dsn :: "(io_error \<Rightarrow> bytes) \<Rightarrow> bool" where
  "test_pool_config_validate_empty_dsn io \<longleftrightarrow>
     invalid_because io pool_config_default ''DSN cannot be empty''"

definition test_pool_config_validate_zero_max :: "(io_error \<Rightarrow> bytes) \<Rightarrow> bool" where
  "test_pool_config_validate_zero_max io \<longleftrightarrow>
     invalid_because io (max_size 0 (pool_config_new test_dsn)) ''max_size must be greater than 0''"

definition test_pool_config_validate_min_exceeds_max :: "(io_error \<Rightarrow> bytes) \<Rightarrow> bool" where
  "test_pool_config_validate_min_exceeds_max io \<longleftrightarrow>
     invalid_because io (min_idle 10 (max_size 5 (pool_config_new test_dsn)))
       ''min_idle cannot exceed max_size''"

definition test_pool_config_validate_ok :: bool where
  "test_pool_config_validate_ok \<longleftrightarrow>
     validate (min_idle 2 (max_size 10 (pool_config_new test_dsn))) = Inr ()"

definition test_pool_status :: bool where
  "test_pool_status \<longleftrightarrow>
     (let status = \<lparr>ps_max_size = 10, ps_idle_count = 3, ps_active_count = 2, ps_closed = False\<rparr>
      in status_total status = 5 \<and> \<not> ps_closed status)"

definition pool_test_error_display :: "(io_error \<Rightarrow> bytes) \<Rightarrow> bool" where
  "pool_test_error_display io \<longleftrightarrow>
     display_pool_error io (PL_PoolExhausted 10) = bytes_of ''pool exhausted: max 10 connections''
     \<and> display_pool_error io PL_PoolClosed = bytes_of ''pool closed''
     \<and> display_pool_error io (PL_InvalidConfig (bytes_of ''bad config''))
         = bytes_of ''invalid config: bad config''"

lemma pool_config_tests_pass:
  "test_pool_config_new" "test_pool_config_builder" "test_pool_config_default"
  "test_pool_config_validate_ok" "test_pool_status"
  by code_simp+

lemma pool_text_tests_pass:
  "test_pool_config_validate_empty_dsn io" "test_pool_config_validate_zero_max io"
  "test_pool_config_validate_min_exceeds_max io" "pool_test_error_display io"
  by code_simp+

section \<open>The two pools\<close>

definition dead_net :: network where
  "dead_net = \<lparr>attempts = [Inl Io_TimedOut], dialled = [], abandoned = []\<rparr>"

definition test_sync_pool_invalid_config :: bool where
  "test_sync_pool_invalid_config \<longleftrightarrow>
     (case pool_new 100 pool_config_default dead_net of (Inl (Err _), _) \<Rightarrow> True | _ \<Rightarrow> False)"

definition test_sync_pool_connect_failure :: bool where
  "test_sync_pool_connect_failure \<longleftrightarrow>
     (let config = min_idle 0 (pool_config_new (bytes_of ''cubrid://dba:@192.0.2.1:33000/testdb''))
      in case pool_new 100 config dead_net of
           (Inr pool, net) \<Rightarrow>
             let s = status pool
             in ps_idle_count s = 0 \<and> ps_active_count s = 0 \<and> \<not> ps_closed s
                \<and> (case get (pool, net) of
                     (Inl (Err _), pool', _) \<Rightarrow> ps_closed (status (snd (close_pool pool')))
                   | _ \<Rightarrow> False)
         | _ \<Rightarrow> False)"

definition test_sync_pool_closed_get_fails :: bool where
  "test_sync_pool_closed_get_fails \<longleftrightarrow>
     (case pool_new 100 (min_idle 0 (pool_config_new test_dsn)) dead_net of
        (Inr pool, net) \<Rightarrow> fst (get (snd (close_pool pool), net)) = Inl (Err PL_PoolClosed)
      | _ \<Rightarrow> False)"

definition test_async_pool_invalid_config :: bool where
  "test_async_pool_invalid_config \<longleftrightarrow>
     (case async_pool_new 100 pool_config_default dead_net of
        (Inl (Err (Stopped _)), _) \<Rightarrow> True | _ \<Rightarrow> False)"

definition test_async_pool_connect_failure :: bool where
  "test_async_pool_connect_failure \<longleftrightarrow>
     (let config = min_idle 0 (pool_config_new (bytes_of ''cubrid://dba:@192.0.2.1:33000/testdb''))
      in case async_pool_new 100 config dead_net of
           (Inr pool, net) \<Rightarrow>
             let s = async_status pool
             in ps_idle_count s = 0 \<and> ps_active_count s = 0
                \<and> (case async_get (pool, net) of
                     (Inl (Err (Stopped _)), pool', _) \<Rightarrow>
                       ps_closed (async_status (snd (async_close_pool pool')))
                   | _ \<Rightarrow> False)
         | _ \<Rightarrow> False)"

definition test_async_pool_closed_get_fails :: bool where
  "test_async_pool_closed_get_fails \<longleftrightarrow>
     (case async_pool_new 100 (min_idle 0 (pool_config_new test_dsn)) dead_net of
        (Inr pool, net) \<Rightarrow>
          fst (async_get (snd (async_close_pool pool), net)) = Inl (Err (Stopped PL_PoolClosed))
      | _ \<Rightarrow> False)"

lemmas pool_test_defs = dead_net_def pool_new_def async_pool_new_def deque_with_capacity_def
  isize_MAX_def validate_def max_size_def min_idle_def pool_config_new_def pool_config_default_def
  and_then_def bytes_of_def test_dsn_def

lemma invalid_pool_tests_pass:
  "test_sync_pool_invalid_config" "test_async_pool_invalid_config"
  by (simp_all add: test_sync_pool_invalid_config_def test_async_pool_invalid_config_def pool_test_defs)

lemma closed_pool_tests_pass:
  "test_sync_pool_closed_get_fails" "test_async_pool_closed_get_fails"
  by (simp_all add: test_sync_pool_closed_get_fails_def test_async_pool_closed_get_fails_def
      pool_test_defs close_pool_def get_def get_section_def async_close_pool_def async_get_def
      async_get_section_def)

text \<open>On this network no client connects, whatever the DSN is.\<close>

lemma dead_net_refuses:
  "\<exists>e net. client_connect d dead_net = (Inl (Err e), net)"
  "\<exists>e net. async_client_connect d dead_net = (Inl (Err (Stopped e)), net)"
  by (simp_all add: client_connect_def connect_with_dsn_def conn_connect_def connect_to_def
      async_client_connect_def async_connect_with_dsn_def async_connect_def
      dead_net_def and_then_def throw_def split: sum.split)

lemma sync_connect_failure_test_passes: "test_sync_pool_connect_failure"
proof -
  obtain e net where "client_connect (bytes_of ''cubrid://dba:@192.0.2.1:33000/testdb'') dead_net
      = (Inl (Err e), net)"
    using dead_net_refuses(1) by blast
  then show ?thesis
    by (simp add: test_sync_pool_connect_failure_def pool_test_defs get_def get_section_def
        status_def close_pool_def)
qed

lemma async_connect_failure_test_passes: "test_async_pool_connect_failure"
proof -
  obtain e net where "async_client_connect (bytes_of ''cubrid://dba:@192.0.2.1:33000/testdb'') dead_net
      = (Inl (Err (Stopped e)), net)"
    using dead_net_refuses(2) by blast
  then show ?thesis
    by (simp add: test_async_pool_connect_failure_def pool_test_defs async_get_def
        async_get_section_def async_status_def async_close_pool_def)
qed

end
