(* ===== verification/Spec2Isabelle.thy ===== *)
theory Spec2Isabelle
  imports Wire_Codec Response_Format Result_Typing Fetch_Bounds Prepared_Laws Lockstep Database_Sessions Async_Laws
    Async_Pool Pool_Sessions Data_Tests Response_Tests Client_Tests Pool_Tests
begin

text \<open>
  A verification development for cubrid-rs, a database driver for CUBRID in Rust.

  The program. The workspace has four crates. \<open>cubrid-protocol\<close> is free of I/O: it builds
  request frames and parses response bodies of the CAS wire protocol
  (\<open>codec.rs\<close>, \<open>constants.rs\<close>, \<open>error.rs\<close>, \<open>value.rs\<close>, \<open>types.rs\<close>, \<open>request.rs\<close>,
  \<open>handshake.rs\<close>, \<open>response.rs\<close>). \<open>cubrid-client\<close> is the blocking client: connection strings
  (\<open>dsn.rs\<close>), the framed TCP connection (\<open>conn.rs\<close>), and the client with its prepared
  statements and the substitution of parameters into SQL text (\<open>lib.rs\<close>). \<open>cubrid-tokio\<close>
  is the same client with asynchronous I/O. \<open>cubrid-pool\<close> shares clients between threads
  or tasks (\<open>SyncPool\<close>, \<open>AsyncPool\<close>).

  How the theories follow it.

  \<^item> \<open>Prelude\<close>: machine types, big-endian encodings, results (\<open>outcome\<close>: a value, an error or
    a panic), the state-passing \<open>action\<close> and its bind, loops over lists, and the collection
    of panics a computation can raise. \<open>Rust_Std\<close>: UTF-8 validation, integers and characters
    as Rust prints and parses them, splitting of text.
  \<^item> \<open>Constants\<close>, \<open>Errors\<close>, \<open>Values\<close>, \<open>Result_Types\<close>: the data of the protocol crate, with
    the constructors and fields of the source.
  \<^item> \<open>Packet_Writer\<close>, \<open>Packet_Reader\<close>: the two halves of \<open>codec.rs\<close>. A writer is its byte
    vector; a parser is an action on the reader (data and position). \<open>Wire_Codec\<close> states the
    contract between them as two locales, \<open>wire_codec\<close> (a parser inverts an encoder, at any
    position of any packet) and \<open>exact_codec\<close> (it accepts nothing else), and interprets them
    on the model's readers.
  \<^item> \<open>Requests\<close>, \<open>Handshake\<close>, \<open>Responses\<close>: \<open>request.rs\<close>, \<open>handshake.rs\<close>, \<open>response.rs\<close>, one
    definition per function and one per loop body. \<open>Response_Format\<close> states the format the
    parsers read, as encoders, and proves that the parsers invert it. The formats are those of
    the comments in the sources; \<open>docs/PROTOCOL_RESEARCH.md\<close> describes several of them differently
    (response and column layouts, fields of dates, error bodies, the codes of transaction ends).
  \<^item> \<open>Dsn\<close>, \<open>Sql_Interpolation\<close>: \<open>dsn.rs\<close>, and \<open>interpolate_params\<close> with \<open>format_value\<close>. What the
    server takes as code is the work of a lexer of SQL with literals, comments and quoted
    identifiers, a specification.
  \<^item> \<open>Transport\<close>, \<open>Client\<close>: \<open>conn.rs\<close> over a TCP stream whose future arrivals, write room and
    failures are data, and every operation of the client and of \<open>Statement\<close>. Streams that are
    dropped while connecting are kept in the field \<open>abandoned\<close> of the network, so that what was
    sent on them can be stated. \<open>Client_Laws\<close>
    holds what the client does on the wire; the locale \<open>response_parser\<close> is what a client
    operation needs of the parser it calls, and is interpreted for every parser.
  \<^item> \<open>Result_Typing\<close>: every value in a result has the constructor its column, or its cell, declares.
    \<open>Fetch_Bounds\<close>: how long the loop that fetches pages can run. \<open>Prepared_Laws\<close>: the life of
    a prepared statement on the wire. \<open>Lockstep\<close>: whole sessions, as lists
    of operations (\<open>perform_all\<close>) that face the list of frames a server answers with, and the
    token that each of their requests carries.
  \<^item> \<open>Wire_Requests\<close>: the requests as values, and a decoder of the frames, written from the
    argument lists in the comments of the builders. \<open>Reference_Server\<close>: a server for direct
    statements over any database, with cursors, pages and a token that it renews. These two
    and the \<open>meaning\<close> of an operation are specification and model no code. \<open>Database_Laws\<close>:
    what client and server say to each other for each operation (\<open>converse\<close>, \<open>settles\<close>);
    \<open>Database_Sessions\<close>: whole sessions, as a refinement of the database.
  \<^item> \<open>Async_Transport\<close>, \<open>Async_Client\<close>: \<open>conn.rs\<close> and \<open>lib.rs\<close> of \<open>cubrid-tokio\<close>, translated on
    their own. A future that its caller drops (a \<open>select!\<close>, a timeout) is an operation that
    stops after some number of bytes have moved: the field \<open>patience\<close> of the connection.
    \<open>Async_Laws\<close> relates the two clients.
  \<^item> \<open>Pool_Spec\<close>: what a bounded pool promises, as an abstract machine of slots, and the
    locale \<open>bounded_pool\<close>: an implementation simulates it. \<open>Pool\<close>, \<open>Async_Pool\<close>: the critical
    sections of the pools, and step relations that interleave them between any number of
    threads or tasks; both interpret \<open>bounded_pool\<close>. \<open>Pool_Sessions\<close>: the pool with the client.
  \<^item> \<open>Codec_Tests\<close>, \<open>Data_Tests\<close>, \<open>Request_Tests\<close>, \<open>Response_Tests\<close>, \<open>Dsn_Tests\<close>, \<open>Client_Tests\<close>,
    \<open>Pool_Tests\<close>: the unit tests of the source files, one definition per test with the name of
    the test, evaluated on the model. They hold the model to the behaviour that the authors of
    the code wrote down, byte by byte; the properties do not rest on them.

  What the groups of lemmas show. Parsers never index outside a packet, and invert the
  response formats for every protocol version; server errors are read as such. Requests are
  well-formed frames that divide into the arguments the server expects; bind parameters
  read back. Interpolated SQL has the code of its template, whatever the string parameters
  contain, as long as no placeholder stands in a comment or a quoted identifier. The client asks for every page of a result, closes the handle, stays in step
  with the server after success and after server errors, and refuses to run once closed.
  Over any session it writes whole requests and reads one frame for each, so that no operation
  takes the response of another for its own, whatever the server answers. Every request
  decodes to the data it was built from. Against the reference server, a session of direct
  statements has exactly the results that the statements mean over the contents of the
  database, and leaves no cursor behind (\<open>session_means_database\<close>). The hypothesis is that the
  server keeps its token in errors and in responses to FC=6, whose token the client does not
  store; \<open>request_tokens\<close> states which tokens it does take. Prepared statements
  are not part of that refinement: their handles are data of the session, and \<open>Prepared_Laws\<close>
  states their life on the wire.
  The fetch loop always ends. Results are well typed. As long as no future is dropped, the
  asynchronous client does what the blocking one does, operation by operation, byte for byte.
  The pools respect their limit and their counts under every interleaving and refine the
  slots of \<open>Pool_Spec\<close>. Where the code falls short, the theorem says so: the capacity panic
  on a negative count, the wrapped affected-row count, the lost step after a read timeout or
  a dropped future, sessions that pass from one user of a pool to the next, the handle that
  a failed fetch leaks, the midnight times, the comment made by a negative number,
  placeholders that are filled outside code, the active count that the async pool never gives back.

  Bounds and choices. Wire integers are words of their width and wrap, as in a release
  build; \<open>usize\<close> is a natural number with the casts to \<open>i32\<close> and \<open>u32\<close> written out, and
  \<open>Vec::with_capacity\<close> of a negative count panics with a capacity overflow (allocation
  failure for large counts is not modelled). Texts are UTF-8 byte lists; floats are their
  bit patterns, and their printed form is a parameter \<open>ff\<close> of the definitions that print
  them. The size of a client in memory, which decides when \<open>VecDeque::with_capacity\<close>
  overflows, is the parameter \<open>size_of\<close> of \<open>pool_new\<close>. No definition uses fuel: the loops
  recurse on lists or counts, except the fetch loop, which ends because each round consumes
  a frame of what arrives; \<open>Fetch_Bounds\<close> bounds its rounds by the bytes that arrive.

  Error texts are modelled with the text of an I/O error as the parameter \<open>io\<close>.

  Not modelled: the derived \<open>Debug\<close> and \<open>Clone\<close>, name resolution and socket options (they are
  part of the outcome of a connection attempt), a lock that is poisoned or awaited, allocation
  failure, and the modules and re-exports of the crate roots. Of the tests: the integration
  tests, which need a server, and the unit tests of \<open>Debug\<close>, of \<open>Clone\<close>, of the digits of printed
  floats and of a connection to an unreachable host.
\<close>

end
